(* ===== verification/Prelude.thy ===== *)
theory Prelude
  imports Main "HOL-Library.Sublist" "HOL-Library.List_Lexorder" "HOL-Library.Char_ord"
    "HOL-Library.AList"
begin

text \<open>
  The shared vocabulary of the development: the names of the model's basic types, the
  collections of simplification rules the components contribute to, and the generic facts
  on lists, substrings, association lists and error results that more than one component
  needs. Nothing here is specific to one source file.

  A Go string or byte slice is an Isabelle \<open>string\<close>, a list of 256-valued characters,
  so its length is the byte length Go reports. An \<open>error\<close> value is its message; a
  \<open>(T, error)\<close> result is a sum with the error on the left. A Go \<open>map[string]T\<close>
  is an association list with distinct keys: iteration order is never relied on by the
  code, which sorts the keys wherever it iterates.
\<close>

type_synonym bytes = string
type_synonym gerr = string
type_synonym 'a res = "gerr + 'a"
type_synonym 'v amap = "(string \<times> 'v) list"

named_theorems fs_simps "the host's file system calls, opened"
named_theorems path_simps "what a cleaned absolute path is"

section \<open>Error results\<close>

definition rbind :: "'a res \<Rightarrow> ('a \<Rightarrow> 'b res) \<Rightarrow> 'b res" where
  "rbind r f = (case r of Inl e \<Rightarrow> Inl e | Inr x \<Rightarrow> f x)"

lemma rbind_simps [simp]:
  "rbind (Inl e) f = Inl e"
  "rbind (Inr x) f = f x"
  by (simp_all add: rbind_def)

lemma rbind_Inr_iff: "rbind r f = Inr y \<longleftrightarrow> (\<exists>x. r = Inr x \<and> f x = Inr y)"
  by (cases r) simp_all

lemma rbind_Inl_iff:
  "rbind r f = Inl e \<longleftrightarrow> r = Inl e \<or> (\<exists>x. r = Inr x \<and> f x = Inl e)"
  by (cases r) simp_all

definition wrap_err :: "string \<Rightarrow> 'a res \<Rightarrow> 'a res" where
  "wrap_err msg r = (case r of Inl e \<Rightarrow> Inl (msg @ e) | Inr x \<Rightarrow> Inr x)"

lemma wrap_err_simps [simp]:
  "wrap_err m (Inl e) = Inl (m @ e)"
  "wrap_err m (Inr x) = Inr x"
  by (simp_all add: wrap_err_def)

lemma wrap_err_Inr_iff [simp]: "wrap_err m r = Inr x \<longleftrightarrow> r = Inr x"
  by (cases r) simp_all

section \<open>Substrings\<close>

text \<open>
  \<open>sublist\<close> is Go's \<open>strings.Contains\<close>, \<open>prefix\<close> its \<open>strings.HasPrefix\<close>. A
  character that does not occur in the needle splits a search at every occurrence.
\<close>

lemma sublist_separator:
  assumes "c \<notin> set n"
  shows "sublist n (xs @ c # ys) \<longleftrightarrow> sublist n xs \<or> sublist n ys"
proof (cases "n = []")
  case False
  have "prefix n (zs @ c # ys) \<Longrightarrow> prefix n zs" for zs
    using assms by (auto simp: prefix_def append_eq_append_conv2 Cons_eq_append_conv)
  moreover have "prefix n zs \<Longrightarrow> prefix n (zs @ c # ys)" for zs
    by (auto simp: prefix_def)
  ultimately have p: "prefix n (zs @ c # ys) \<longleftrightarrow> prefix n zs" for zs
    by blast
  show ?thesis
    using p [of "[]"] False
    by (induction xs) (auto simp: sublist_Cons_right p [of "_ # _", simplified])
qed simp

lemma sublist_separator_Cons:
  "c \<notin> set n \<Longrightarrow> n \<noteq> [] \<Longrightarrow> sublist n (c # ys) \<longleftrightarrow> sublist n ys"
  using sublist_separator [of c n "[]" ys] by simp

lemma sublist_separator_snoc:
  "c \<notin> set n \<Longrightarrow> n \<noteq> [] \<Longrightarrow> sublist n (xs @ [c]) \<longleftrightarrow> sublist n xs"
  using sublist_separator [of c n xs "[]"] by simp

lemma not_sublist_absent: "x \<in> set n \<Longrightarrow> x \<notin> set s \<Longrightarrow> \<not> sublist n s"
  by (auto simp: sublist_def)

text \<open>\<open>strings.Join\<close> and its inverse, splitting at a separator character.\<close>

fun join :: "string \<Rightarrow> string list \<Rightarrow> string" where
  "join sep [] = []"
| "join sep [x] = x"
| "join sep (x # y # zs) = x @ sep @ join sep (y # zs)"

lemma join_Cons: "xs \<noteq> [] \<Longrightarrow> join sep (x # xs) = x @ sep @ join sep xs"
  by (cases xs) simp_all

fun split_on :: "char \<Rightarrow> string \<Rightarrow> string list" where
  "split_on c [] = [[]]"
| "split_on c (x # xs) =
     (if x = c then [] # split_on c xs
      else (case split_on c xs of [] \<Rightarrow> [[x]] | w # ws \<Rightarrow> (x # w) # ws))"

lemma split_on_neq_Nil [simp]: "split_on c s \<noteq> []"
  by (induction c s rule: split_on.induct) (auto split: list.splits)

lemma split_on_word:
  "c \<notin> set w \<Longrightarrow> split_on c (w @ c # s) = w # split_on c s"
  by (induction w) (auto split: list.splits)

lemma split_on_no_sep: "c \<notin> set w \<Longrightarrow> split_on c w = [w]"
  by (induction w) auto

lemma split_on_join:
  assumes "ws \<noteq> []" and "\<forall>w \<in> set ws. c \<notin> set w"
  shows "split_on c (join [c] ws) = ws"
  using assms
proof (induction ws)
  case Nil
  then show ?case by simp
next
  case (Cons w ws)
  then show ?case
    by (cases "ws = []") (auto simp: join_Cons split_on_word split_on_no_sep)
qed

lemma set_join: "set (join sep ws) \<subseteq> set sep \<union> (\<Union>w \<in> set ws. set w)"
  by (induction sep ws rule: join.induct) auto

section \<open>Association lists\<close>

abbreviation keys :: "'v amap \<Rightarrow> string list" where
  "keys m \<equiv> map fst m"

definition wf_map :: "'v amap \<Rightarrow> bool" where
  "wf_map m \<longleftrightarrow> distinct (keys m)"

definition aput :: "string \<Rightarrow> 'v \<Rightarrow> 'v amap \<Rightarrow> 'v amap" where
  "aput k v m = AList.update k v m"

definition sorted_keys :: "'v amap \<Rightarrow> string list" where
  "sorted_keys m = sort (keys m)"

lemma map_of_aput [simp]: "map_of (aput k v m) = (map_of m)(k \<mapsto> v)"
  by (simp add: aput_def AList.update_conv')

lemma map_of_aput_apply: "map_of (aput k v m) x = (if x = k then Some v else map_of m x)"
  by simp

lemma wf_map_Nil [simp]: "wf_map []"
  by (simp add: wf_map_def)

lemma wf_map_aput [simp]: "wf_map m \<Longrightarrow> wf_map (aput k v m)"
  by (simp add: wf_map_def aput_def AList.distinct_update)

lemma aput_not_Nil [simp]: "aput k v m \<noteq> []"
  by (cases m) (auto simp: aput_def)

lemma keys_aput: "set (keys (aput k v m)) = insert k (set (keys m))"
  by (simp add: aput_def AList.dom_update [symmetric] dom_map_of_conv_image_fst [symmetric])
    (simp add: AList.update_conv')

lemma set_sorted_keys [simp]: "set (sorted_keys m) = set (keys m)"
  by (simp add: sorted_keys_def)

lemma sorted_sorted_keys [simp]: "sorted (sorted_keys m)"
  by (simp add: sorted_keys_def)

lemma distinct_sorted_keys [simp]: "distinct (sorted_keys m) \<longleftrightarrow> wf_map m"
  by (simp add: sorted_keys_def wf_map_def)

lemma sorted_keys_eq_Nil [simp]: "sorted_keys m = [] \<longleftrightarrow> m = []"
  by (metis set_sorted_keys set_empty map_is_Nil_conv)

end
