(* ===== verification/Go_Lib.thy ===== *)
theory Go_Lib
  imports Prelude Complex_Main "HOL-Library.Word"
begin

text \<open>
  The parts of Go's standard library the program calls: \<open>strings\<close>, \<open>strconv\<close>,
  \<open>encoding/hex\<close>, \<open>encoding/binary\<close>, \<open>path/filepath\<close> and
  \<open>net.SplitHostPort\<close>. What depends on tables or algorithms outside the
  program's logic (Unicode case tables, quoting, shortest float formatting, SHA-256 and
  Ed25519) is a field of the record \<open>golib\<close>, so every theorem holds for any choice of it.
  Byte-level functions are exact; the white-space functions know all Unicode white space
  in its UTF-8 encoding.
\<close>

record golib =
  g_upper :: "string \<Rightarrow> string"       \<comment> \<open>strings.ToUpper on a string with a non-ASCII byte\<close>
  g_lower :: "string \<Rightarrow> string"       \<comment> \<open>strings.ToLower on a string with a non-ASCII byte\<close>
  g_quote :: "string \<Rightarrow> string"       \<comment> \<open>the \<open>%q\<close> verb\<close>
  g_float_ok :: "string \<Rightarrow> bool"      \<comment> \<open>strconv.ParseFloat returns no error\<close>
  g_fmt_float :: "rat \<Rightarrow> string"      \<comment> \<open>encoding/json's rendering of a float64\<close>
  g_f2i :: "rat \<Rightarrow> int"               \<comment> \<open>int(f) where f is out of int's range\<close>
  g_hex_err :: "string \<Rightarrow> string"     \<comment> \<open>the text of a hex.DecodeString error\<close>
  g_sha256 :: "bytes \<Rightarrow> bytes"        \<comment> \<open>crypto/sha256.Sum256\<close>
  g_pubkey :: "bytes \<Rightarrow> bytes"        \<comment> \<open>the public half of an ed25519 private key\<close>
  g_sign :: "bytes \<Rightarrow> bytes \<Rightarrow> bytes" \<comment> \<open>ed25519.Sign\<close>
  g_verify :: "bytes \<Rightarrow> bytes \<Rightarrow> bytes \<Rightarrow> bool" \<comment> \<open>ed25519.Verify key message signature\<close>

section \<open>Machine integers\<close>

text \<open>Go's \<open>int\<close> and \<open>int64\<close> on a 64-bit host: arithmetic wraps modulo \<open>2^64\<close>.\<close>

definition wrap64 :: "int \<Rightarrow> int" where
  "wrap64 x = (x + 2 ^ 63) mod 2 ^ 64 - 2 ^ 63"

definition in_int64 :: "int \<Rightarrow> bool" where
  "in_int64 x \<longleftrightarrow> - (2 ^ 63) \<le> x \<and> x < 2 ^ 63"

lemma wrap64_id: "in_int64 x \<Longrightarrow> wrap64 x = x"
  by (simp add: wrap64_def in_int64_def)

lemma in_int64_wrap64 [simp]: "in_int64 (wrap64 x)"
  by (simp add: wrap64_def in_int64_def)

text \<open>Conversion of a finite float64 to \<open>int\<close>: truncation towards zero where the result fits.\<close>

definition rat_trunc :: "rat \<Rightarrow> int" where
  "rat_trunc f = (if f < 0 then - \<lfloor>- f\<rfloor> else \<lfloor>f\<rfloor>)"

definition float_to_int :: "golib \<Rightarrow> rat \<Rightarrow> int" where
  "float_to_int g f =
     (let t = rat_trunc f in if in_int64 t then t else wrap64 (g_f2i g f))"

lemma in_int64_float_to_int [simp]: "in_int64 (float_to_int g f)"
  by (simp add: float_to_int_def Let_def)

section \<open>strconv\<close>

definition digit_char :: "nat \<Rightarrow> char" where
  "digit_char d = char_of (48 + d)"

definition is_digit :: "char \<Rightarrow> bool" where
  "is_digit c \<longleftrightarrow> 48 \<le> (of_char c :: nat) \<and> (of_char c :: nat) \<le> 57"

definition digit_val :: "char \<Rightarrow> nat" where
  "digit_val c = of_char c - 48"

fun dec_digits :: "nat \<Rightarrow> string" where
  "dec_digits n = (if n < 10 then [digit_char n] else dec_digits (n div 10) @ [digit_char (n mod 10)])"

declare dec_digits.simps [simp del]

definition itoa :: "int \<Rightarrow> string" where
  "itoa i = (if i < 0 then CHR ''-'' # dec_digits (nat (- i)) else dec_digits (nat i))"

definition dec_value :: "string \<Rightarrow> nat" where
  "dec_value s = foldl (\<lambda>v c. 10 * v + digit_val c) 0 s"

definition atoi :: "string \<Rightarrow> int option" where
  "atoi s =
     (let neg = prefix ''-'' s;
          body = (if neg \<or> prefix ''+'' s then tl s else s);
          v = (if neg then - int (dec_value body) else int (dec_value body))
      in if body = [] \<or> \<not> list_all is_digit body \<or> \<not> in_int64 v then None else Some v)"

lemma of_char_digit_char: "d < 10 \<Longrightarrow> (of_char (digit_char d) :: nat) = 48 + d"
  by (simp add: digit_char_def of_char_of)

lemma is_digit_digit_char: "d < 10 \<Longrightarrow> is_digit (digit_char d)"
  by (simp add: is_digit_def of_char_digit_char)

lemma digit_val_digit_char: "d < 10 \<Longrightarrow> digit_val (digit_char d) = d"
  by (simp add: digit_val_def of_char_digit_char)

lemma dec_digits_neq_Nil [simp]: "dec_digits n \<noteq> []"
  by (subst dec_digits.simps) simp

lemma dec_digits_all: "list_all is_digit (dec_digits n)"
proof (induction n rule: dec_digits.induct)
  case (1 n)
  then show ?case
    by (subst dec_digits.simps) (auto simp: is_digit_digit_char)
qed

lemma dec_value_snoc: "dec_value (s @ [c]) = 10 * dec_value s + digit_val c"
  by (simp add: dec_value_def)

lemma dec_value_digits: "dec_value (dec_digits n) = n"
proof (induction n rule: dec_digits.induct)
  case (1 n)
  show ?case
  proof (cases "n < 10")
    case True
    then show ?thesis
      by (subst dec_digits.simps) (simp add: dec_value_def digit_val_digit_char)
  next
    case False
    with 1 show ?thesis
      by (subst dec_digits.simps) (simp add: dec_value_snoc digit_val_digit_char)
  qed
qed

lemma dec_digits_inject: "dec_digits a = dec_digits b \<longleftrightarrow> a = b"
  by (metis dec_value_digits)

lemma dec_digits_head: "\<exists>d r. dec_digits n = d # r \<and> is_digit d"
  using dec_digits_all [of n] dec_digits_neq_Nil [of n] by (cases "dec_digits n") auto

lemma not_digit_sign [simp]: "\<not> is_digit CHR ''-''" "\<not> is_digit CHR ''+''"
  by (simp_all add: is_digit_def)

lemma digit_chars_not:
  "c \<in> set (dec_digits n) \<Longrightarrow> is_digit c"
  using dec_digits_all [of n] by (auto simp: list_all_iff)

lemma atoi_itoa:
  assumes "in_int64 i"
  shows "atoi (itoa i) = Some i"
proof (cases "i < 0")
  case True
  with assms show ?thesis
    by (simp add: itoa_def atoi_def dec_value_digits dec_digits_all)
next
  case False
  obtain d r where d: "dec_digits (nat i) = d # r" "is_digit d"
    using dec_digits_head by blast
  from d(2) have "d \<noteq> CHR ''-''" "d \<noteq> CHR ''+''" by auto
  with d(1) have "\<not> prefix ''-'' (dec_digits (nat i))" "\<not> prefix ''+'' (dec_digits (nat i))"
    by auto
  with False assms show ?thesis
    by (simp add: itoa_def atoi_def dec_value_digits dec_digits_all)
qed

lemma itoa_inject: "itoa i = itoa j \<longleftrightarrow> i = j"
proof
  assume e: "itoa i = itoa j"
  have h: "CHR ''-'' # x \<noteq> dec_digits n" for x n
    using dec_digits_head [of n] by auto
  show "i = j"
    using e h [of _ "nat i"] h [of _ "nat j"] by (auto simp: itoa_def dec_digits_inject split: if_splits)
qed simp

section \<open>encoding/hex and encoding/binary\<close>

definition hex_digit :: "nat \<Rightarrow> char" where
  "hex_digit n = (if n < 10 then char_of (48 + n) else char_of (87 + n))"

definition hex_val :: "char \<Rightarrow> nat option" where
  "hex_val c = (let n = of_char c :: nat in
     if 48 \<le> n \<and> n \<le> 57 then Some (n - 48)
     else if 97 \<le> n \<and> n \<le> 102 then Some (n - 87)
     else if 65 \<le> n \<and> n \<le> 70 then Some (n - 55)
     else None)"

fun hex_encode :: "bytes \<Rightarrow> string" where
  "hex_encode [] = []"
| "hex_encode (b # bs) =
     hex_digit (of_char b div 16) # hex_digit (of_char b mod 16) # hex_encode bs"

fun hex_decode :: "string \<Rightarrow> bytes option" where
  "hex_decode [] = Some []"
| "hex_decode [_] = None"
| "hex_decode (a # b # s) =
     (case (hex_val a, hex_val b, hex_decode s) of
        (Some h, Some l, Some bs) \<Rightarrow> Some (char_of (16 * h + l) # bs)
      | _ \<Rightarrow> None)"

lemma hex_val_hex_digit: "n < 16 \<Longrightarrow> hex_val (hex_digit n) = Some n"
  by (auto simp: hex_val_def hex_digit_def of_char_of Let_def)

lemma of_char_less_256: "(of_char c :: nat) < 256"
  using nat_of_char_less_256 [of c] by simp

lemma hex_decode_encode [simp]: "hex_decode (hex_encode bs) = Some bs"
proof (induction bs)
  case (Cons b bs)
  have "(of_char b :: nat) div 16 < 16"
    by (rule less_mult_imp_div_less) (use of_char_less_256 [of b] in simp)
  with Cons show ?case
    by (simp add: hex_val_hex_digit)
qed simp

lemma length_hex_encode [simp]: "length (hex_encode bs) = 2 * length bs"
  by (induction bs) simp_all

lemma hex_encode_inject: "hex_encode a = hex_encode b \<longleftrightarrow> a = b"
  by (metis hex_decode_encode option.inject)

text \<open>\<open>binary.BigEndian.PutUint32\<close> of \<open>uint32(n)\<close>.\<close>

definition put_uint32 :: "nat \<Rightarrow> bytes" where
  "put_uint32 n =
     (let v = word_of_nat n :: 32 word
      in map (\<lambda>k. char_of (unat (drop_bit k v) mod 256)) [24, 16, 8, 0])"

lemma length_put_uint32 [simp]: "length (put_uint32 n) = 4"
  by (simp add: put_uint32_def Let_def)

lemma put_uint32_nat:
  assumes "n < 2 ^ 32"
  shows "put_uint32 n = map (\<lambda>k. char_of (n div 2 ^ k mod 256)) [24, 16, 8, 0]"
proof -
  have "unat (drop_bit k (word_of_nat n :: 32 word)) = n div 2 ^ k" for k
    using assms by (simp only: unat_drop_bit_eq) (simp add: drop_bit_eq_div unat_of_nat)
  then show ?thesis
    by (simp only: put_uint32_def Let_def)
qed

lemma radix_256: "n = 256 * q1 + r0 \<Longrightarrow> q1 = 256 * q2 + r1 \<Longrightarrow> q2 = 256 * q3 + r2 \<Longrightarrow>
  n = q3 * 2 ^ 24 + r2 * 2 ^ 16 + r1 * 2 ^ 8 + (r0::nat)"
  by simp

lemma byte_split:
  assumes "(n::nat) < 2 ^ 32"
  shows "n = (n div 2 ^ 24 mod 256) * 2 ^ 24 + (n div 2 ^ 16 mod 256) * 2 ^ 16 +
    (n div 2 ^ 8 mod 256) * 2 ^ 8 + n div 2 ^ 0 mod 256"
proof (rule radix_256)
  show "n = 256 * (n div 2 ^ 8) + n div 2 ^ 0 mod 256" by simp
  have "n div 256 div 256 = n div 65536" by (simp flip: div_mult2_eq)
  then show "n div 2 ^ 8 = 256 * (n div 2 ^ 16) + n div 2 ^ 8 mod 256"
    using mult_div_mod_eq [of 256 "n div 256"] by simp
  have "n div 65536 div 256 = n div 16777216" by (simp flip: div_mult2_eq)
  moreover have "n div 16777216 mod 256 = n div 16777216" using assms by simp
  ultimately show "n div 2 ^ 16 = 256 * (n div 2 ^ 24 mod 256) + n div 2 ^ 16 mod 256"
    using mult_div_mod_eq [of 256 "n div 65536"] by simp
qed

lemma char_of_mod_inject: "(char_of ((a::nat) mod 256) = char_of (b mod 256)) \<longleftrightarrow> a mod 256 = b mod 256"
  by (metis of_char_of mod_mod_trivial)

lemma put_uint32_inject:
  assumes "a < 2 ^ 32" and "b < 2 ^ 32"
  shows "put_uint32 a = put_uint32 b \<longleftrightarrow> a = b"
proof
  assume "put_uint32 a = put_uint32 b"
  with assms have "a div 2 ^ 24 mod 256 = b div 2 ^ 24 mod 256"
      "a div 2 ^ 16 mod 256 = b div 2 ^ 16 mod 256"
      "a div 2 ^ 8 mod 256 = b div 2 ^ 8 mod 256" "a div 2 ^ 0 mod 256 = b div 2 ^ 0 mod 256"
    by (simp_all only: put_uint32_nat char_of_mod_inject list.map list.inject)
  then show "a = b"
    using byte_split [OF assms(1)] byte_split [OF assms(2)] by metis
qed simp

end
