(* ===== verification/Go_Text.thy ===== *)
theory Go_Text
  imports Go_Lib
begin

text \<open>
  The text functions of Go's \<open>strings\<close>, \<open>path/filepath\<close> (on Unix) and \<open>net\<close> packages
  used by the program: case mapping, white space, \<open>Fields\<close>, \<open>TrimSpace\<close>, path cleaning
  and \<open>SplitHostPort\<close>, with the facts about them the components share.
\<close>

section \<open>Case mapping\<close>

definition is_ascii :: "string \<Rightarrow> bool" where
  "is_ascii s \<longleftrightarrow> list_all (\<lambda>c. (of_char c :: nat) < 128) s"

definition upper_char :: "char \<Rightarrow> char" where
  "upper_char c = (let n = of_char c :: nat in if 97 \<le> n \<and> n \<le> 122 then char_of (n - 32) else c)"

definition lower_char :: "char \<Rightarrow> char" where
  "lower_char c = (let n = of_char c :: nat in if 65 \<le> n \<and> n \<le> 90 then char_of (n + 32) else c)"

definition to_upper :: "golib \<Rightarrow> string \<Rightarrow> string" where
  "to_upper g s = (if is_ascii s then map upper_char s else g_upper g s)"

definition to_lower :: "golib \<Rightarrow> string \<Rightarrow> string" where
  "to_lower g s = (if is_ascii s then map lower_char s else g_lower g s)"

lemma upper_char_idem [simp]: "upper_char (upper_char c) = upper_char c"
  by (auto simp: upper_char_def Let_def of_char_of)

lemma upper_char_ascii: "(of_char c :: nat) < 128 \<Longrightarrow> (of_char (upper_char c) :: nat) < 128"
  by (auto simp: upper_char_def Let_def of_char_of)

lemma to_upper_idem: "is_ascii s \<Longrightarrow> to_upper g (to_upper g s) = to_upper g s"
  by (auto simp: to_upper_def is_ascii_def list_all_iff upper_char_ascii comp_def)

section \<open>White space\<close>

text \<open>
  Unicode white space in UTF-8 (\<open>unicode.IsSpace\<close>). The lead bytes of the multi-byte
  encodings never occur inside another rune, so scanning byte by byte finds exactly the
  runes Go finds.
\<close>

definition space_runes :: "string list" where
  "space_runes =
     [[CHR 0x09], [CHR 0x0A], [CHR 0x0B], [CHR 0x0C], [CHR 0x0D], '' '',
      [CHR 0xC2, CHR 0x85], [CHR 0xC2, CHR 0xA0], [CHR 0xE1, CHR 0x9A, CHR 0x80]] @
     map (\<lambda>c. [CHR 0xE2, CHR 0x80, c])
       [CHR 0x80, CHR 0x81, CHR 0x82, CHR 0x83, CHR 0x84, CHR 0x85, CHR 0x86, CHR 0x87,
        CHR 0x88, CHR 0x89, CHR 0x8A, CHR 0xA8, CHR 0xA9, CHR 0xAF] @
     [[CHR 0xE2, CHR 0x81, CHR 0x9F], [CHR 0xE3, CHR 0x80, CHR 0x80]]"

definition space_len :: "string \<Rightarrow> nat" where
  "space_len s = (case filter (\<lambda>q. prefix q s) space_runes of [] \<Rightarrow> 0 | q # _ \<Rightarrow> length q)"

definition rspace_len :: "string \<Rightarrow> nat" where
  \<comment> \<open>on the reversed string: the length of the white-space rune it ends with\<close>
  "rspace_len r = (case filter (\<lambda>q. prefix (rev q) r) space_runes of [] \<Rightarrow> 0 | q # _ \<Rightarrow> length q)"

fun flush_word :: "string \<Rightarrow> string list \<Rightarrow> string list" where
  "flush_word cur ws = (if cur = [] then ws else cur # ws)"

function fields_acc :: "string \<Rightarrow> string \<Rightarrow> string list" where
  "fields_acc cur [] = flush_word cur []"
| "fields_acc cur (c # cs) =
     (let n = space_len (c # cs) in
      if n = 0 then fields_acc (cur @ [c]) cs
      else flush_word cur (fields_acc [] (drop n (c # cs))))"
  by pat_completeness auto
termination
  by (relation "measure (\<lambda>(cur, s). length s)") auto

definition fields :: "string \<Rightarrow> string list" where
  "fields s = fields_acc [] s"

function trim_left_space :: "string \<Rightarrow> string" where
  "trim_left_space s =
     (let n = space_len s in if n = 0 \<or> s = [] then s else trim_left_space (drop n s))"
  by pat_completeness auto
termination
  by (relation "measure length") (auto simp: Let_def)

function trim_right_rev :: "string \<Rightarrow> string" where
  "trim_right_rev r =
     (let n = rspace_len r in if n = 0 \<or> r = [] then r else trim_right_rev (drop n r))"
  by pat_completeness auto
termination
  by (relation "measure length") (auto simp: Let_def)

declare trim_left_space.simps [simp del] trim_right_rev.simps [simp del]

definition trim_space :: "string \<Rightarrow> string" where
  "trim_space s = rev (trim_right_rev (rev (trim_left_space s)))"

definition trim_left_char :: "char \<Rightarrow> string \<Rightarrow> string" where
  "trim_left_char c s = dropWhile (\<lambda>x. x = c) s"

fun index_byte :: "char \<Rightarrow> string \<Rightarrow> nat option" where
  "index_byte c [] = None"
| "index_byte c (x # xs) = (if x = c then Some 0 else map_option Suc (index_byte c xs))"

definition last_index_byte :: "char \<Rightarrow> string \<Rightarrow> nat option" where
  "last_index_byte c s = map_option (\<lambda>i. length s - 1 - i) (index_byte c (rev s))"

text \<open>A white-space rune starts with a control character, a blank or a byte above 127.\<close>

definition plain_char :: "char \<Rightarrow> bool" where
  "plain_char c \<longleftrightarrow> 33 \<le> (of_char c :: nat) \<and> (of_char c :: nat) < 128"

lemma space_len_Nil [simp]: "space_len [] = 0"
  by (simp add: space_len_def space_runes_def)

lemma space_len_plain [simp]:
  assumes "plain_char c"
  shows "space_len (c # cs) = 0"
proof -
  have "\<not> prefix q (c # cs)" if "q \<in> set space_runes" for q
    using that assms by (auto simp: space_runes_def plain_char_def)
  then have "filter (\<lambda>q. prefix q (c # cs)) space_runes = []"
    by (simp add: filter_empty_conv)
  then show ?thesis by (simp only: space_len_def list.case)
qed

lemma space_len_blank [simp]: "space_len (CHR '' '' # s) = 1"
  by (simp add: space_len_def space_runes_def)

lemma fields_acc_plain:
  "list_all plain_char w \<Longrightarrow> fields_acc cur (w @ s) = fields_acc (cur @ w) s"
  by (induction w arbitrary: cur) simp_all

lemma fields_word_blank:
  assumes "list_all plain_char w" and "w \<noteq> []"
  shows "fields (w @ CHR '' '' # s) = w # fields s"
  using assms by (simp add: fields_def fields_acc_plain)

lemma fields_word:
  assumes "list_all plain_char w" and "w \<noteq> []"
  shows "fields w = [w]"
  using fields_acc_plain [of w "[]" "[]"] assms by (simp add: fields_def)

section \<open>Paths\<close>

definition is_abs :: "string \<Rightarrow> bool" where
  "is_abs p \<longleftrightarrow> prefix ''/'' p"

fun clean_comps :: "bool \<Rightarrow> string list \<Rightarrow> string list \<Rightarrow> string list" where
  \<comment> \<open>the components kept so far, innermost first, and the ones still to read\<close>
  "clean_comps rooted kept [] = rev kept"
| "clean_comps rooted kept (c # cs) =
     (if c = [] \<or> c = ''.'' then clean_comps rooted kept cs
      else if c = ''..'' then
        (case kept of
           k # ks \<Rightarrow> if k = ''..'' then clean_comps rooted (c # kept) cs
                     else clean_comps rooted ks cs
         | [] \<Rightarrow> clean_comps rooted (if rooted then [] else [c]) cs)
      else clean_comps rooted (c # kept) cs)"

definition path_clean :: "string \<Rightarrow> string" where
  "path_clean p =
     (let rooted = is_abs p; cs = clean_comps rooted [] (split_on CHR ''/'' p)
      in if rooted then CHR ''/'' # join ''/'' cs
         else if cs = [] then ''.'' else join ''/'' cs)"

fun path_join :: "string list \<Rightarrow> string" where
  "path_join [] = []"
| "path_join (e # es) = (if e = [] then path_join es else path_clean (join ''/'' (e # es)))"

definition path_dir :: "string \<Rightarrow> string" where
  "path_dir p = (case last_index_byte CHR ''/'' p of
     None \<Rightarrow> path_clean [] | Some i \<Rightarrow> path_clean (take (Suc i) p))"

definition path_base :: "string \<Rightarrow> string" where
  "path_base p =
     (if p = [] then ''.''
      else let q = rev (dropWhile (\<lambda>x. x = CHR ''/'') (rev p));
               b = rev (takeWhile (\<lambda>x. x \<noteq> CHR ''/'') (rev q))
           in if b = [] then ''/'' else b)"

definition path_abs :: "string res \<Rightarrow> string \<Rightarrow> string res" where
  \<comment> \<open>the first argument is what \<open>os.Getwd\<close> returns\<close>
  "path_abs wd p = (if is_abs p then Inr (path_clean p) else
     (case wd of Inl e \<Rightarrow> Inl e | Inr d \<Rightarrow> Inr (path_join [d, p])))"

text \<open>A plain path component, and the paths that are already clean.\<close>

definition plain_comp :: "string \<Rightarrow> bool" where
  "plain_comp c \<longleftrightarrow> c \<noteq> [] \<and> c \<noteq> ''.'' \<and> c \<noteq> ''..'' \<and> CHR ''/'' \<notin> set c"

definition abs_path :: "string list \<Rightarrow> string" where
  "abs_path cs = CHR ''/'' # join ''/'' cs"

declare plain_comp_def [path_simps] abs_path_def [path_simps]

lemma clean_comps_plain:
  "list_all plain_comp cs \<Longrightarrow> clean_comps b ks cs = rev ks @ cs"
  by (induction cs arbitrary: ks) (auto simp: plain_comp_def)

lemma split_on_abs_path:
  assumes "list_all plain_comp cs" and "cs \<noteq> []"
  shows "split_on CHR ''/'' (abs_path cs) = [] # cs"
  using assms by (simp add: abs_path_def split_on_join list_all_iff plain_comp_def)

lemma path_clean_abs_path:
  assumes "list_all plain_comp cs"
  shows "path_clean (abs_path cs) = abs_path cs"
proof (cases "cs = []")
  case True
  then show ?thesis by (simp add: path_clean_def abs_path_def is_abs_def)
next
  case False
  have "is_abs (abs_path cs)"
    by (simp add: is_abs_def abs_path_def)
  with False assms show ?thesis
    by (simp add: path_clean_def split_on_abs_path clean_comps_plain) (simp add: abs_path_def)
qed

lemma join_snoc: "cs \<noteq> [] \<Longrightarrow> join sep (cs @ [c]) = join sep cs @ sep @ c"
proof (induction cs)
  case (Cons a cs)
  then show ?case by (cases "cs = []") (simp_all add: join_Cons)
qed simp

lemma abs_path_snoc: "cs \<noteq> [] \<Longrightarrow> abs_path (cs @ [c]) = abs_path cs @ CHR ''/'' # c"
  by (simp add: abs_path_def join_snoc)

lemma path_join_abs_path:
  assumes "list_all plain_comp cs" and "cs \<noteq> []" and "plain_comp c"
  shows "path_join [abs_path cs, c] = abs_path (cs @ [c])"
proof -
  have "path_join [abs_path cs, c] = path_clean (abs_path (cs @ [c]))"
    using assms by (simp add: abs_path_snoc) (simp add: abs_path_def)
  also have "\<dots> = abs_path (cs @ [c])"
    using assms by (intro path_clean_abs_path) simp
  finally show ?thesis .
qed

declare path_join.simps [simp del]

lemma index_byte_append: "c \<notin> set w \<Longrightarrow> index_byte c (w @ c # s) = Some (length w)"
  by (induction w) auto

lemma last_index_byte_append:
  "c \<notin> set w \<Longrightarrow> last_index_byte c (s @ c # w) = Some (length s)"
  by (simp add: last_index_byte_def index_byte_append)

lemma path_dir_abs_path:
  assumes "list_all plain_comp cs" and "cs \<noteq> []" and "plain_comp c"
  shows "path_dir (abs_path (cs @ [c])) = abs_path cs"
proof -
  have "CHR ''/'' \<notin> set c" using assms(3) by (simp add: plain_comp_def)
  then have "path_dir (abs_path (cs @ [c])) = path_clean (abs_path cs @ ''/'')"
    using assms(2) by (simp add: path_dir_def abs_path_snoc last_index_byte_append)
  also have "split_on CHR ''/'' (abs_path cs @ ''/'') = [] # cs @ [[]]"
    using assms split_on_join [of "cs @ [[]]" "CHR ''/''"]
    by (simp add: abs_path_def join_snoc list_all_iff plain_comp_def)
  then have "path_clean (abs_path cs @ ''/'') = abs_path cs"
  proof -
    assume sp: "split_on CHR ''/'' (abs_path cs @ ''/'') = [] # cs @ [[]]"
    have kept: "clean_comps b ks (cs @ [[]]) = rev ks @ cs" for b ks
      using assms(1) by (induction cs arbitrary: ks) (auto simp: plain_comp_def)
    show ?thesis
      by (simp add: path_clean_def sp kept) (simp add: abs_path_def is_abs_def)
  qed
  finally show ?thesis .
qed

section \<open>net.SplitHostPort\<close>

definition split_host_port :: "string \<Rightarrow> (string \<times> string) option" where
  "split_host_port hp =
     (case last_index_byte CHR '':'' hp of
        None \<Rightarrow> None
      | Some i \<Rightarrow>
          (let port = drop (Suc i) hp in
           if prefix ''['' hp then
             (case index_byte CHR '']'' hp of
                None \<Rightarrow> None
              | Some e \<Rightarrow>
                  if Suc e \<noteq> i then None
                  else if CHR ''['' \<in> set (drop 1 hp) then None
                  else if CHR '']'' \<in> set (drop (Suc e) hp) then None
                  else Some (take (e - 1) (drop 1 hp), port))
           else
             (let host = take i hp in
              if CHR '':'' \<in> set host then None
              else if CHR ''['' \<in> set hp \<or> CHR '']'' \<in> set hp then None
              else Some (host, port))))"

lemma split_host_port_no_colon: "CHR '':'' \<notin> set h \<Longrightarrow> split_host_port h = None"
proof -
  have none: "c \<notin> set s \<Longrightarrow> index_byte c s = None" for c s
    by (induction s) auto
  show "CHR '':'' \<notin> set h \<Longrightarrow> split_host_port h = None"
    by (simp add: split_host_port_def last_index_byte_def none)
qed

lemma split_host_port_plain:
  assumes "CHR '':'' \<notin> set h" "CHR '':'' \<notin> set p"
    and "{CHR ''['', CHR '']''} \<inter> (set h \<union> set p) = {}"
  shows "split_host_port (h @ CHR '':'' # p) = Some (h, p)"
proof -
  have "last_index_byte CHR '':'' (h @ CHR '':'' # p) = Some (length h)"
    using assms(2) by (rule last_index_byte_append)
  moreover have "\<not> prefix ''['' (h @ CHR '':'' # p)"
    using assms(3) by (cases h) auto
  ultimately show ?thesis
    using assms by (simp add: split_host_port_def)
qed

end
