(* ===== verification/Go_Json.thy ===== *)
theory Go_Json
  imports Go_Text
begin

text \<open>
  JSON values as Go's \<open>any\<close> holds them, the accessors the program uses on them (type
  assertions with the failed case defaulted, \<open>str\<close>, \<open>orDefault\<close>, \<open>prefix\<close>,
  \<open>toStringList\<close> of run.go) and \<open>encoding/json\<close>'s \<open>Marshal\<close>: keys sorted, strings
  escaped byte by byte as Go does, HTML characters and invalid UTF-8 included.

  \<open>JInt\<close> is an integer the program itself puts in a map, \<open>JFloat\<close> a number that came
  from decoded JSON (always a float64).
\<close>

datatype json =
    JNull
  | JBool bool
  | JInt int
  | JFloat rat
  | JStr string
  | JArr "json list"
  | JObj "(string \<times> json) list"

section \<open>Accessors\<close>

fun as_obj :: "json \<Rightarrow> json amap" where
  \<comment> \<open>\<open>m, _ := v.(map[string]any)\<close>: a failed assertion gives the nil map, which reads as empty\<close>
  "as_obj (JObj m) = m"
| "as_obj _ = []"

fun as_arr :: "json \<Rightarrow> json list" where
  "as_arr (JArr xs) = xs"
| "as_arr _ = []"

fun as_str :: "json \<Rightarrow> string option" where
  "as_str (JStr s) = Some s"
| "as_str _ = None"

fun as_bool :: "json \<Rightarrow> bool" where
  "as_bool (JBool b) = b"
| "as_bool _ = False"

definition fld :: "json amap \<Rightarrow> string \<Rightarrow> json" where
  \<comment> \<open>\<open>m[k]\<close>: a missing key reads as nil\<close>
  "fld m k = (case map_of m k of None \<Rightarrow> JNull | Some v \<Rightarrow> v)"

definition str :: "json \<Rightarrow> string" where
  "str v = (case as_str v of None \<Rightarrow> [] | Some s \<Rightarrow> s)"

definition orDefault :: "string \<Rightarrow> string \<Rightarrow> string" where
  "orDefault s d = (if s = [] then d else s)"

definition prefix_n :: "string \<Rightarrow> nat \<Rightarrow> string" where
  "prefix_n s n = (if length s < n then s else take n s)"

fun toStringList :: "json \<Rightarrow> string list" where
  "toStringList (JArr xs) = List.map_filter as_str xs"
| "toStringList _ = []"

lemma str_JStr [simp]: "str (JStr s) = s"
  by (simp add: str_def)

lemma fld_aput: "fld (aput k v m) x = (if x = k then v else fld m x)"
  by (simp add: fld_def)

lemma length_prefix_n: "length (prefix_n s n) \<le> n"
  by (simp add: prefix_n_def)

lemma prefix_prefix_n: "prefix (prefix_n s n) s"
  by (simp add: prefix_n_def take_is_prefix)

section \<open>json.Marshal\<close>

text \<open>The length of a valid UTF-8 encoding of two to four bytes at the head, 0 if there is none.\<close>

definition utf8_spec :: "nat \<Rightarrow> (nat \<times> nat \<times> nat) option" where
  "utf8_spec n =
     (if 0xC2 \<le> n \<and> n \<le> 0xDF then Some (2, 0x80, 0xBF)
      else if n = 0xE0 then Some (3, 0xA0, 0xBF)
      else if n = 0xED then Some (3, 0x80, 0x9F)
      else if 0xE1 \<le> n \<and> n \<le> 0xEF then Some (3, 0x80, 0xBF)
      else if n = 0xF0 then Some (4, 0x90, 0xBF)
      else if 0xF1 \<le> n \<and> n \<le> 0xF3 then Some (4, 0x80, 0xBF)
      else if n = 0xF4 then Some (4, 0x80, 0x8F)
      else None)"

definition byte_in :: "nat \<Rightarrow> nat \<Rightarrow> char \<Rightarrow> bool" where
  "byte_in lo hi c \<longleftrightarrow> lo \<le> of_char c \<and> of_char c \<le> hi"

fun utf8_len :: "string \<Rightarrow> nat" where
  "utf8_len (a # b # r) =
     (case utf8_spec (of_char a) of
        None \<Rightarrow> 0
      | Some (k, lo, hi) \<Rightarrow>
          if byte_in lo hi b \<and> k - 2 \<le> length r \<and> list_all (byte_in 0x80 0xBF) (take (k - 2) r)
          then k else 0)"
| "utf8_len _ = 0"

definition hex2 :: "nat \<Rightarrow> string" where
  "hex2 n = [hex_digit (n div 16), hex_digit (n mod 16)]"

definition esc_ascii :: "char \<Rightarrow> string" where
  "esc_ascii c =
     (if c = CHR 0x22 \<or> c = CHR 0x5C then [CHR 0x5C, c]
      else if c = CHR 0x08 then [CHR 0x5C, CHR ''b'']
      else if c = CHR 0x0C then [CHR 0x5C, CHR ''f'']
      else if c = CHR 0x0A then [CHR 0x5C, CHR ''n'']
      else if c = CHR 0x0D then [CHR 0x5C, CHR ''r'']
      else if c = CHR 0x09 then [CHR 0x5C, CHR ''t'']
      else if (of_char c :: nat) < 32 \<or> c \<in> {CHR ''<'', CHR ''>'', CHR ''&''}
        then CHR 0x5C # ''u00'' @ hex2 (of_char c)
      else [c])"

function json_body :: "string \<Rightarrow> string" where
  "json_body [] = []"
| "json_body (c # cs) =
     (if (of_char c :: nat) < 128 then esc_ascii c @ json_body cs
      else let n = utf8_len (c # cs) in
        if n = 0 then CHR 0x5C # ''ufffd'' @ json_body cs
        else (if take n (c # cs) = [CHR 0xE2, CHR 0x80, CHR 0xA8] then CHR 0x5C # ''u2028''
              else if take n (c # cs) = [CHR 0xE2, CHR 0x80, CHR 0xA9] then CHR 0x5C # ''u2029''
              else take n (c # cs)) @ json_body (drop n (c # cs)))"
  by pat_completeness auto
termination
  by (relation "measure length") auto

declare json_body.simps(2) [simp del]

definition json_string :: "string \<Rightarrow> string" where
  "json_string s = CHR 0x22 # json_body s @ [CHR 0x22]"

fun marshal :: "golib \<Rightarrow> json \<Rightarrow> string" where
  "marshal g JNull = ''null''"
| "marshal g (JBool b) = (if b then ''true'' else ''false'')"
| "marshal g (JInt i) = itoa i"
| "marshal g (JFloat f) = g_fmt_float g f"
| "marshal g (JStr s) = json_string s"
| "marshal g (JArr xs) = ''['' @ join '','' (map (marshal g) xs) @ '']''"
| "marshal g (JObj m) =
     ''{'' @ join '',''
       (map (\<lambda>(k, v). json_string k @ '':'' @ v)
         (sort_key fst (map (\<lambda>(k, v). (k, marshal g v)) m))) @ ''}''"

section \<open>Searching a serialised value\<close>

text \<open>
  Some key or string of the value satisfies a predicate. For a needle free of JSON's
  structural characters, the serialisation contains the needle exactly where the body of
  one of its strings does: no match can straddle two strings.
\<close>

fun json_any :: "(string \<Rightarrow> bool) \<Rightarrow> json \<Rightarrow> bool" where
  "json_any P (JStr s) = P s"
| "json_any P (JArr xs) = list_ex (json_any P) xs"
| "json_any P (JObj m) = list_ex (\<lambda>(k, v). P k \<or> json_any P v) m"
| "json_any P _ = False"

fun no_float :: "json \<Rightarrow> bool" where
  "no_float (JFloat f) = False"
| "no_float (JArr xs) = list_all no_float xs"
| "no_float (JObj m) = list_all (\<lambda>(k, v). no_float v) m"
| "no_float _ = True"

definition needle_ok :: "string \<Rightarrow> bool" where
  "needle_ok n \<longleftrightarrow> CHR ''w'' \<in> set n \<and>
     set n \<inter> {CHR 0x22, CHR '','', CHR '':'', CHR ''{'', CHR ''}'', CHR ''['', CHR '']''} = {}"

lemma needle_okD:
  assumes "needle_ok n"
  shows "n \<noteq> []" "CHR ''w'' \<in> set n" "CHR 0x22 \<notin> set n" "CHR '','' \<notin> set n" "CHR '':'' \<notin> set n"
    "CHR ''{'' \<notin> set n" "CHR ''}'' \<notin> set n" "CHR ''['' \<notin> set n" "CHR '']'' \<notin> set n"
  using assms by (auto simp: needle_ok_def)

lemma sublist_join_comma:
  assumes "needle_ok n"
  shows "sublist n (join '','' ws) \<longleftrightarrow> (\<exists>w \<in> set ws. sublist n w)"
proof (induction ws)
  case Nil
  then show ?case using needle_okD [OF assms] by simp
next
  case (Cons w ws)
  then show ?case
    using needle_okD [OF assms] by (cases "ws = []") (simp_all add: join_Cons sublist_separator)
qed

lemma sublist_bracketed:
  "a \<notin> set n \<Longrightarrow> b \<notin> set n \<Longrightarrow> n \<noteq> [] \<Longrightarrow> sublist n (a # s @ [b]) \<longleftrightarrow> sublist n s"
  using sublist_separator_Cons [of a n "s @ [b]"] sublist_separator_snoc [of b n s] by simp

lemma sublist_json_string:
  "needle_ok n \<Longrightarrow> sublist n (json_string s) \<longleftrightarrow> sublist n (json_body s)"
  by (simp add: json_string_def sublist_bracketed needle_okD)

lemma w_not_itoa: "CHR ''w'' \<notin> set (itoa i)"
  using digit_chars_not [of "CHR ''w''"] by (auto simp: itoa_def is_digit_def)

lemma sublist_marshal_arr:
  "needle_ok n \<Longrightarrow> sublist n (marshal g (JArr xs)) \<longleftrightarrow> (\<exists>x \<in> set xs. sublist n (marshal g x))"
  using needle_okD [of n] sublist_bracketed [of "CHR ''[''" n "CHR '']''"]
  by (simp add: sublist_join_comma)

lemma sublist_marshal_obj:
  assumes "needle_ok n"
  shows "sublist n (marshal g (JObj m)) \<longleftrightarrow>
    (\<exists>(k, v) \<in> set m. sublist n (json_body k) \<or> sublist n (marshal g v))"
proof -
  have pair: "sublist n (json_string k @ CHR '':'' # v) \<longleftrightarrow> sublist n (json_body k) \<or> sublist n v" for k v
    using needle_okD [OF assms] assms by (simp add: sublist_separator sublist_json_string)
  have "sublist n (marshal g (JObj m)) \<longleftrightarrow>
      (\<exists>kv \<in> set (sort_key fst (map (\<lambda>(k, v). (k, marshal g v)) m)).
        sublist n (json_string (fst kv) @ CHR '':'' # snd kv))"
    using needle_okD [OF assms] assms sublist_bracketed [of "CHR ''{''" n "CHR ''}''"]
    by (simp add: sublist_join_comma split_def)
  also have "\<dots> \<longleftrightarrow> (\<exists>(k, v) \<in> set m. sublist n (json_body k) \<or> sublist n (marshal g v))"
    by (simp only: set_sort pair) (auto simp: split_def)
  finally show ?thesis .
qed

lemma sublist_marshal:
  assumes "needle_ok n"
  shows "no_float j \<Longrightarrow> sublist n (marshal g j) \<longleftrightarrow> json_any (\<lambda>s. sublist n (json_body s)) j"
proof (induction j)
  case (JArr xs)
  then show ?case
    using sublist_marshal_arr [OF assms] by (auto simp: list_ex_iff list_all_iff simp del: marshal.simps)
next
  case (JObj m)
  then show ?case
    using sublist_marshal_obj [OF assms]
    by (fastforce simp: list_ex_iff list_all_iff simp del: marshal.simps)
next
  case (JStr s)
  then show ?case using assms by (simp add: sublist_json_string)
next
  case (JInt i)
  then show ?case
    using not_sublist_absent [OF needle_okD(2) [OF assms] w_not_itoa] by simp
qed (use not_sublist_absent [OF needle_okD(2) [OF assms]] in auto)

section \<open>Plain characters are not escaped\<close>

lemma utf8_spec_bound: "utf8_spec n = Some (k, lo, hi) \<Longrightarrow> 2 \<le> k \<and> 128 \<le> lo"
  by (auto simp: utf8_spec_def split: if_splits)

lemma utf8_len_ascii_append:
  assumes "(of_char c :: nat) < 128"
  shows "utf8_len (x # a @ c # b) = utf8_len (x # a)"
proof (cases a)
  case Nil
  with assms show ?thesis
    by (auto simp: byte_in_def dest!: utf8_spec_bound split: option.splits prod.splits)
next
  case (Cons y r)
  have tail: "(m \<le> length (r @ c # b) \<and> list_all (byte_in 128 191) (take m (r @ c # b)))
      \<longleftrightarrow> (m \<le> length r \<and> list_all (byte_in 128 191) (take m r))" for m
  proof (cases "m \<le> length r")
    case False
    then have "take m (r @ c # b) = r @ c # take (m - length r - 1) b"
      by (simp add: take_Cons' split: nat.splits)
    with False assms have "\<not> list_all (byte_in 128 191) (take m (r @ c # b))"
      by (simp add: byte_in_def)
    with False show ?thesis by blast
  qed simp
  show ?thesis
    by (simp only: Cons append_Cons utf8_len.simps tail)
qed

lemma json_body_ascii:
  assumes "(of_char c :: nat) < 128"
  shows "json_body (a @ c # b) = json_body a @ esc_ascii c @ json_body b"
proof (induction a rule: json_body.induct)
  case 1
  with assms show ?case by (simp add: json_body.simps)
next
  case (2 x a)
  let ?n = "utf8_len (x # a)"
  have len: "?n \<le> length (x # a)"
    by (cases a) (auto split: option.splits dest: utf8_spec_bound)
  show ?case
  proof (cases "(of_char x :: nat) < 128 \<or> ?n = 0")
    case True
    with 2 assms show ?thesis
      by (auto simp: json_body.simps(2) utf8_len_ascii_append Let_def)
  next
    case False
    with len have "take ?n (x # a @ c # b) = take ?n (x # a)"
      and "drop ?n (x # a @ c # b) = drop ?n (x # a) @ c # b"
      using take_append [of ?n "x # a" "c # b"] drop_append [of ?n "x # a" "c # b"] by simp_all
    with False 2 assms show ?thesis
      by (simp add: json_body.simps(2) [of x] utf8_len_ascii_append Let_def)
  qed
qed

definition json_plain :: "char \<Rightarrow> bool" where
  "json_plain c \<longleftrightarrow> (of_char c :: nat) < 128 \<and> esc_ascii c = [c]"

lemma json_body_plain_append:
  "list_all json_plain w \<Longrightarrow> w \<noteq> [] \<Longrightarrow> json_body (a @ w @ b) = json_body a @ w @ json_body b"
proof (induction w arbitrary: a)
  case (Cons c w)
  then show ?case
    using json_body_ascii [of c a "w @ b"] json_body_ascii [of c a b]
      Cons.IH [of "[]"] by (cases "w = []") (auto simp: json_plain_def)
qed simp

text \<open>A string made of unescaped characters that occurs in a string occurs in its body.\<close>

lemma sublist_json_body:
  assumes "list_all json_plain n" and "n \<noteq> []" and "sublist n s"
  shows "sublist n (json_body s)"
  using assms json_body_plain_append [of n] by (auto simp: sublist_def)

section \<open>json.MarshalIndent with a two-blank indent\<close>

definition indent_nl :: "nat \<Rightarrow> string" where
  "indent_nl d = CHR 0x0A # replicate (2 * d) CHR '' ''"

fun marshal_indent :: "golib \<Rightarrow> nat \<Rightarrow> json \<Rightarrow> string" where
  "marshal_indent g d (JArr xs) =
     (if xs = [] then ''[]''
      else ''['' @ indent_nl (Suc d) @ join ('','' @ indent_nl (Suc d)) (map (marshal_indent g (Suc d)) xs) @
           indent_nl d @ '']'')"
| "marshal_indent g d (JObj m) =
     (if m = [] then ''{}''
      else ''{'' @ indent_nl (Suc d) @
        join ('','' @ indent_nl (Suc d))
          (map (\<lambda>(k, v). json_string k @ '': '' @ v)
            (sort_key fst (map (\<lambda>(k, v). (k, marshal_indent g (Suc d) v)) m))) @
        indent_nl d @ ''}'')"
| "marshal_indent g d v = marshal g v"

declare marshal_indent.simps [simp del]

end
