(* ===== verification/World.thy ===== *)
theory World
  imports Go_Json
begin

text \<open>
  The host the program runs on: a file system, a system-call counter and the list of
  externally visible effects, passed explicitly through every operation. What the host
  decides (which call fails and what a failed write leaves behind, names of temporary
  directories, random bytes, the clock, \<open>PATH\<close> lookups, what a peer answers on a socket,
  what a child process does) is a field of the record \<open>host\<close>, indexed by the counter, so
  theorems about the program hold for every behaviour of the host.

  A path string denotes what the file-system map says about it: the kernel's resolution of
  symbolic links and of \<open>..\<close> is not modelled.
\<close>

datatype node =
    FileN nat bytes   \<comment> \<open>mode bits, contents\<close>
  | DirN nat
  | SockN nat

datatype sysop =
    OpStat string
  | OpMkdirTemp string
  | OpMkdir string
  | OpReadDir string
  | OpReadFile string
  | OpWriteFile string
  | OpCreateExcl string
  | OpWrite string
  | OpClose string
  | OpChmod string
  | OpRemove string
  | OpRemoveAll string
  | OpListen string
  | OpPipe
  | OpSeek string

datatype fault = Fault gerr "node option"
  \<comment> \<open>the error, and what the failed call leaves at its path (None: the path is untouched)\<close>

datatype effect =
    Audit json              \<comment> \<open>an event for the audit socket\<close>
  | VaultCall json          \<comment> \<open>a request for the vault socket\<close>
  | Warn string             \<comment> \<open>a line on the program's own stderr\<close>
  | Spawn "string list"     \<comment> \<open>a child process started with this argv\<close>
  | Listen string           \<comment> \<open>the egress proxy or the bridge starts serving on a Unix socket\<close>
  | Unlisten string         \<comment> \<open>it stops\<close>
  | Kill int                \<comment> \<open>SIGKILL to a process\<close>

record world =
  fs :: "node amap"
  tick :: nat
  effects :: "effect list"

record child =
  c_stdout :: "bytes list"     \<comment> \<open>the chunks the copy goroutine writes, in order\<close>
  c_stderr :: "bytes list"
  c_exit :: "gerr + int"       \<comment> \<open>\<open>Inl\<close>: the child could not be run; \<open>Inr n\<close>: it exited with n\<close>
  c_deadline :: bool           \<comment> \<open>the context's deadline had passed when Run returned\<close>
  c_ms :: int                  \<comment> \<open>elapsed milliseconds\<close>
  c_fs :: "node amap"          \<comment> \<open>the file system afterwards\<close>

record host =
  h_fault :: "nat \<Rightarrow> sysop \<Rightarrow> fault option"
  h_tmp :: "nat \<Rightarrow> string \<Rightarrow> string"
  h_rand :: "nat \<Rightarrow> nat \<Rightarrow> bytes"
  h_now :: "nat \<Rightarrow> string"
  h_lookpath :: "string \<Rightarrow> string res"
  h_exe :: "string res"
  h_wd :: "string res"
  h_euid :: int
  h_disk_quota :: bool
  h_pid :: int
  h_procs :: "nat \<Rightarrow> (string \<times> bytes option) list"
    \<comment> \<open>the names under /proc, each with its cmdline when that can be read\<close>
  h_mkfs :: "nat \<Rightarrow> string list \<Rightarrow> gerr option"
  h_child :: "nat \<Rightarrow> string list \<Rightarrow> bytes list \<Rightarrow> world \<Rightarrow> child"
    \<comment> \<open>a child's behaviour from its argv, its inherited files and the world\<close>

section \<open>System calls\<close>

definition sys :: "host \<Rightarrow> sysop \<Rightarrow> world \<Rightarrow> fault option \<times> world" where
  "sys h op w = (h_fault h (tick w) op, w\<lparr>tick := Suc (tick w)\<rparr>)"

definition log_eff :: "effect \<Rightarrow> world \<Rightarrow> world" where
  "log_eff e w = w\<lparr>effects := effects w @ [e]\<rparr>"

definition put_node :: "string \<Rightarrow> node \<Rightarrow> world \<Rightarrow> world" where
  "put_node p n w = w\<lparr>fs := aput p n (fs w)\<rparr>"

definition leave :: "string \<Rightarrow> node option \<Rightarrow> world \<Rightarrow> world" where
  "leave p r w = (case r of None \<Rightarrow> w | Some n \<Rightarrow> put_node p n w)"

definition inside :: "string \<Rightarrow> string \<Rightarrow> bool" where
  "inside d p \<longleftrightarrow> p = d \<or> prefix (d @ ''/'') p"

definition drop_tree :: "string \<Rightarrow> world \<Rightarrow> world" where
  "drop_tree d w = w\<lparr>fs := filter (\<lambda>(p, n). \<not> inside d p) (fs w)\<rparr>"

definition child_names :: "string \<Rightarrow> node amap \<Rightarrow> string list" where
  "child_names d m =
     sort (remdups (filter (\<lambda>r. r \<noteq> [] \<and> CHR ''/'' \<notin> set r)
       (map (drop (length d + 1)) (filter (prefix (d @ ''/'')) (keys m)))))"

text \<open>\<open>os.Stat\<close>: the node, or an error.\<close>

definition os_stat :: "host \<Rightarrow> string \<Rightarrow> world \<Rightarrow> node res \<times> world" where
  "os_stat h p w = (case sys h (OpStat p) w of
     (Some (Fault e r), w') \<Rightarrow> (Inl e, w')
   | (None, w') \<Rightarrow> (case map_of (fs w') p of
       None \<Rightarrow> (Inl (''stat '' @ p @ '': no such file or directory''), w')
     | Some n \<Rightarrow> (Inr n, w')))"

definition os_exists :: "node amap \<Rightarrow> string \<Rightarrow> bool" where
  "os_exists m p \<longleftrightarrow> map_of m p \<noteq> None"

definition os_mkdir_temp :: "host \<Rightarrow> string \<Rightarrow> world \<Rightarrow> string res \<times> world" where
  "os_mkdir_temp h pat w =
     (let p = h_tmp h (tick w) pat in
      case sys h (OpMkdirTemp pat) w of
        (Some (Fault e r), w') \<Rightarrow> (Inl e, w')
      | (None, w') \<Rightarrow> (Inr p, put_node p (DirN 0x1C0) w'))"

definition os_write_file :: "host \<Rightarrow> string \<Rightarrow> bytes \<Rightarrow> nat \<Rightarrow> world \<Rightarrow> unit res \<times> world" where
  "os_write_file h p d mode w = (case sys h (OpWriteFile p) w of
     (Some (Fault e r), w') \<Rightarrow> (Inl e, leave p r w')
   | (None, w') \<Rightarrow>
       (Inr (), put_node p (FileN (case map_of (fs w') p of Some (FileN m _) \<Rightarrow> m | _ \<Rightarrow> mode) d) w'))"

definition os_read_file :: "host \<Rightarrow> string \<Rightarrow> world \<Rightarrow> bytes res \<times> world" where
  "os_read_file h p w = (case sys h (OpReadFile p) w of
     (Some (Fault e r), w') \<Rightarrow> (Inl e, w')
   | (None, w') \<Rightarrow> (case map_of (fs w') p of
       Some (FileN m d) \<Rightarrow> (Inr d, w')
     | _ \<Rightarrow> (Inl (''open '' @ p @ '': no such file or directory''), w')))"

definition os_read_dir :: "host \<Rightarrow> string \<Rightarrow> world \<Rightarrow> string list res \<times> world" where
  "os_read_dir h p w = (case sys h (OpReadDir p) w of
     (Some (Fault e r), w') \<Rightarrow> (Inl e, w')
   | (None, w') \<Rightarrow> (case map_of (fs w') p of
       Some (DirN m) \<Rightarrow> (Inr (child_names p (fs w')), w')
     | _ \<Rightarrow> (Inl (''open '' @ p @ '': no such file or directory''), w')))"

definition os_remove_all :: "host \<Rightarrow> string \<Rightarrow> world \<Rightarrow> unit res \<times> world" where
  "os_remove_all h p w = (case sys h (OpRemoveAll p) w of
     (Some (Fault e r), w') \<Rightarrow> (Inl e, w')
   | (None, w') \<Rightarrow> (Inr (), drop_tree p w'))"

definition os_remove :: "host \<Rightarrow> string \<Rightarrow> world \<Rightarrow> unit res \<times> world" where
  "os_remove h p w = (case sys h (OpRemove p) w of
     (Some (Fault e r), w') \<Rightarrow> (Inl e, w')
   | (None, w') \<Rightarrow> (Inr (), w'\<lparr>fs := AList.delete p (fs w')\<rparr>))"

definition os_mkdir_all :: "host \<Rightarrow> string \<Rightarrow> nat \<Rightarrow> world \<Rightarrow> unit res \<times> world" where
  "os_mkdir_all h p mode w = (case sys h (OpMkdir p) w of
     (Some (Fault e r), w1) \<Rightarrow> (Inl e, leave p r w1)
   | (None, w1) \<Rightarrow> (Inr (), if map_of (fs w1) p = None then put_node p (DirN mode) w1 else w1))"

text \<open>\<open>crypto/rand\<close> and the clock: a fresh draw at every use.\<close>

definition randHex :: "host \<Rightarrow> nat \<Rightarrow> world \<Rightarrow> string \<times> world" where
  "randHex h n w = (hex_encode (h_rand h (tick w) n), w\<lparr>tick := Suc (tick w)\<rparr>)"

definition now_rfc3339 :: "host \<Rightarrow> world \<Rightarrow> string \<times> world" where
  "now_rfc3339 h w = (h_now h (tick w), w\<lparr>tick := Suc (tick w)\<rparr>)"

section \<open>Frame facts\<close>

lemma sys_frame [simp]:
  "fst (sys h op w) = h_fault h (tick w) op"
  "fs (snd (sys h op w)) = fs w"
  "effects (snd (sys h op w)) = effects w"
  by (simp_all add: sys_def)

lemma effects_put_node [simp]: "effects (put_node p n w) = effects w"
  by (simp add: put_node_def)

lemma effects_leave [simp]: "effects (leave p r w) = effects w"
  by (simp add: leave_def split: option.splits)

lemma effects_drop_tree [simp]: "effects (drop_tree p w) = effects w"
  by (simp add: drop_tree_def)

lemma effects_log_eff [simp]: "effects (log_eff e w) = effects w @ [e]"
  by (simp add: log_eff_def)

lemma fs_log_eff [simp]: "fs (log_eff e w) = fs w"
  by (simp add: log_eff_def)

declare os_stat_def [fs_simps] os_mkdir_temp_def [fs_simps] os_write_file_def [fs_simps] os_read_file_def [fs_simps]
  os_read_dir_def [fs_simps] os_remove_all_def [fs_simps] os_remove_def [fs_simps] sys_def [fs_simps]

lemma os_effects [simp]:
  "effects (snd (os_stat h p w)) = effects w"
  "effects (snd (os_mkdir_temp h p w)) = effects w"
  "effects (snd (os_write_file h p d m w)) = effects w"
  "effects (snd (os_read_file h p w)) = effects w"
  "effects (snd (os_read_dir h p w)) = effects w"
  "effects (snd (os_remove_all h p w)) = effects w"
  "effects (snd (os_remove h p w)) = effects w"
  "effects (snd (randHex h n w)) = effects w"
  "effects (snd (now_rfc3339 h w)) = effects w"
  by (auto simp: fs_simps Let_def randHex_def now_rfc3339_def
      split: option.splits fault.splits node.splits)

lemma os_stat_fs [simp]: "fs (snd (os_stat h p w)) = fs w"
  by (auto simp: fs_simps split: option.splits fault.splits)

lemma os_read_fs [simp]:
  "fs (snd (os_read_file h p w)) = fs w"
  "fs (snd (os_read_dir h p w)) = fs w"
  "fs (snd (randHex h n w)) = fs w"
  "fs (snd (now_rfc3339 h w)) = fs w"
  by (auto simp: fs_simps randHex_def now_rfc3339_def split: option.splits fault.splits node.splits)

text \<open>The same facts for a call whose result is known.\<close>

lemma os_stat_D: "os_stat h p w = (r, w') \<Longrightarrow> fs w' = fs w \<and> effects w' = effects w"
  using os_stat_fs [of h p w] os_effects(1) [of h p w] by simp

lemma os_stat_Inr:
  "os_stat h p w = (Inr n, w') \<Longrightarrow> map_of (fs w) p = Some n \<and> fs w' = fs w \<and> effects w' = effects w"
  by (auto simp: os_stat_def sys_def split: option.splits fault.splits)

lemma os_read_D:
  "os_read_file h p w = (r, w') \<Longrightarrow> fs w' = fs w \<and> effects w' = effects w"
  "os_read_dir h p w = (q, w') \<Longrightarrow> fs w' = fs w \<and> effects w' = effects w"
  "randHex h n w = (s, w') \<Longrightarrow> fs w' = fs w \<and> effects w' = effects w"
  "now_rfc3339 h w = (t, w') \<Longrightarrow> fs w' = fs w \<and> effects w' = effects w"
  using os_read_fs os_effects by (metis snd_conv)+

lemma os_write_D:
  "os_mkdir_temp h p w = (r, w') \<Longrightarrow> effects w' = effects w"
  "os_write_file h p d m w = (q, w') \<Longrightarrow> effects w' = effects w"
  "os_remove_all h p w = (u, w') \<Longrightarrow> effects w' = effects w"
  "os_remove h p w = (v, w') \<Longrightarrow> effects w' = effects w"
  using os_effects by (metis snd_conv)+

lemma inside_refl [simp]: "inside d d"
  by (simp add: inside_def)

lemma inside_child [simp]: "inside d (d @ CHR ''/'' # c)"
  by (simp add: inside_def)

lemma map_of_drop_tree:
  "map_of (fs (drop_tree d w)) p = (if inside d p then None else map_of (fs w) p)"
proof -
  have "map_of (filter (\<lambda>(p, n). \<not> inside d p) m) p = (if inside d p then None else map_of m p)" for m
    by (induction m) auto
  from this [of "fs w"] show ?thesis by (simp add: drop_tree_def)
qed

lemma map_of_put_node: "map_of (fs (put_node p n w)) = (map_of (fs w))(p \<mapsto> n)"
  by (simp add: put_node_def)

lemma set_child_names:
  "r \<in> set (child_names d m) \<longleftrightarrow>
    r \<noteq> [] \<and> CHR ''/'' \<notin> set r \<and> d @ CHR ''/'' # r \<in> set (keys m)"
proof
  assume r: "r \<noteq> [] \<and> CHR ''/'' \<notin> set r \<and> d @ CHR ''/'' # r \<in> set (keys m)"
  then have "drop (length d + 1) (d @ CHR ''/'' # r)
      \<in> drop (length d + 1) ` set (filter (prefix (d @ ''/'')) (keys m))"
    by (intro imageI) simp
  with r show "r \<in> set (child_names d m)"
    by (simp add: child_names_def)
qed (auto simp: child_names_def prefix_def intro: rev_image_eqI)

text \<open>
  A Unix listener as the program sets one up: remove the path, listen, set the mode (ignoring
  a failure); closing the listener unlinks the socket.
\<close>

definition listen_unix :: "host \<Rightarrow> string \<Rightarrow> nat \<Rightarrow> world \<Rightarrow> unit res \<times> world" where
  "listen_unix h sock mode w =
     (let w1 = snd (os_remove h sock w) in
      case sys h (OpListen sock) w1 of
        (Some (Fault e r), w2) \<Rightarrow> (Inl e, leave sock r w2)
      | (None, w2) \<Rightarrow>
          (let w3 = put_node sock (SockN 0x1ED) w2;
               w4 = (case sys h (OpChmod sock) w3 of
                       (Some _, w') \<Rightarrow> w' | (None, w') \<Rightarrow> put_node sock (SockN mode) w')
           in (Inr (), log_eff (Listen sock) w4)))"

definition unlisten :: "string \<Rightarrow> world \<Rightarrow> world" where
  "unlisten sock w = log_eff (Unlisten sock) (w\<lparr>fs := AList.delete sock (fs w)\<rparr>)"

lemma map_of_unlisten: "map_of (fs (unlisten sock w)) q = (if q = sock then None else map_of (fs w) q)"
  by (simp add: unlisten_def AList.delete_conv')

lemma effects_unlisten [simp]: "effects (unlisten sock w) = effects w @ [Unlisten sock]"
  by (simp add: unlisten_def)

lemma fs_leave_other: "q \<noteq> p \<Longrightarrow> map_of (fs (leave p r w)) q = map_of (fs w) q"
  by (cases r) (simp_all add: leave_def map_of_put_node)

lemma listen_unix_D:
  assumes "listen_unix h sock mode w = (r, w')"
  shows "(q \<noteq> sock \<longrightarrow> map_of (fs w') q = map_of (fs w) q) \<and>
    effects w' = effects w @ (case r of Inl e \<Rightarrow> [] | Inr _ \<Rightarrow> [Listen sock])"
  using assms
  by (auto simp: listen_unix_def fs_simps Let_def map_of_put_node fs_leave_other AList.delete_conv'
      split: option.splits fault.splits)

lemma os_mkdir_all_D:
  assumes "os_mkdir_all h p m w = (r, w')"
  shows "effects w' = effects w \<and> (\<forall>q. q \<noteq> p \<longrightarrow> map_of (fs w') q = map_of (fs w) q)"
proof -
  have "map_of (fs (leave p x v)) q = map_of (fs v) q" if "q \<noteq> p" for q x v
    using that by (cases x) (simp_all add: leave_def map_of_put_node)
  then show ?thesis
    using assms by (auto simp: os_mkdir_all_def sys_def map_of_put_node split: option.splits fault.splits if_splits)
qed

lemma os_write_file_D:
  assumes "os_write_file h p d m w = (r, w')"
  shows "effects w' = effects w \<and> (\<forall>q. q \<noteq> p \<longrightarrow> map_of (fs w') q = map_of (fs w) q) \<and>
    (r = Inr () \<and> map_of (fs w) p = None \<longrightarrow> map_of (fs w') p = Some (FileN m d))"
proof -
  have "map_of (fs (leave p x v)) q = map_of (fs v) q" if "q \<noteq> p" for q x v
    using that by (cases x) (simp_all add: leave_def map_of_put_node)
  then show ?thesis
    using assms by (auto simp: os_write_file_def sys_def map_of_put_node split: option.splits fault.splits)
qed

lemma os_mkdir_temp_D:
  assumes "os_mkdir_temp h pat w = (r, w')"
  shows "effects w' = effects w \<and>
    (case r of Inl e \<Rightarrow> fs w' = fs w
     | Inr d \<Rightarrow> d = h_tmp h (tick w) pat \<and> map_of (fs w') = (map_of (fs w))(d \<mapsto> DirN 0x1C0))"
  using assms by (auto simp: os_mkdir_temp_def sys_def map_of_put_node Let_def split: option.splits fault.splits)

section \<open>Clean absolute paths\<close>

text \<open>The paths the host hands out for temporary directories: absolute and already clean.\<close>

definition clean_abs :: "string \<Rightarrow> bool" where
  "clean_abs d \<longleftrightarrow> (\<exists>cs. cs \<noteq> [] \<and> list_all plain_comp cs \<and> d = abs_path cs)"

lemma path_join_clean_abs:
  assumes "clean_abs d" and "plain_comp c"
  shows "path_join [d, c] = d @ CHR ''/'' # c"
  using assms path_join_abs_path abs_path_snoc unfolding clean_abs_def by metis

lemma clean_abs_neq_Nil: "clean_abs d \<Longrightarrow> d \<noteq> []"
  by (auto simp: clean_abs_def abs_path_def)

lemma plain_comp_names [simp]: "plain_comp ''payload.sh''" "plain_comp ''proxy.sock''"
  by (simp_all add: plain_comp_def)

lemma inside_child_inside: "inside (d @ CHR ''/'' # c) q \<Longrightarrow> inside d q \<and> q \<noteq> d"
  by (auto simp: inside_def prefix_def)

lemma os_remove_all_Inr:
  "os_remove_all h p w = (Inr u, w') \<Longrightarrow>
    (\<forall>q. map_of (fs w') q = (if inside p q then None else map_of (fs w) q)) \<and> effects w' = effects w"
proof -
  assume a: "os_remove_all h p w = (Inr u, w')"
  then have "w' = drop_tree p (w\<lparr>tick := Suc (tick w)\<rparr>)"
    by (auto simp: os_remove_all_def sys_def split: option.splits fault.splits)
  then show ?thesis by (simp add: map_of_drop_tree)
qed

section \<open>A sample host and library\<close>

text \<open>
  Concrete parameters for the witnesses: a host on which every call succeeds, and a library
  instance whose "signature" of a message under a key is the 64-byte block of the key's first
  byte; \<open>Ed25519\<close> itself is not modelled, only that verification accepts what signing made.
\<close>

definition sample_host :: host where
  "sample_host = \<lparr>
     h_fault = (\<lambda>n op. None),
     h_tmp = (\<lambda>n pat. ''/tmp/'' @ pat @ ''1''),
     h_rand = (\<lambda>n k. replicate k CHR ''A''),
     h_now = (\<lambda>n. ''2026-01-01T00:00:00Z''),
     h_lookpath = (\<lambda>b. Inr (''/usr/bin/'' @ b)),
     h_exe = Inr ''/opt/exec-sandbox'',
     h_wd = Inr ''/opt'',
     h_euid = 1000,
     h_disk_quota = True,
     h_pid = 4242,
     h_procs = (\<lambda>n. [(''1'', Some ''/sbin/init''), (''self'', None)]),
     h_mkfs = (\<lambda>n argv. None),
     h_child = (\<lambda>n argv files w. \<lparr>c_stdout = [''hi''], c_stderr = [], c_exit = Inr 0, c_deadline = False,
       c_ms = 5, c_fs = fs w\<rparr>)\<rparr>"

definition sample_lib :: golib where
  "sample_lib = \<lparr>
     g_upper = id, g_lower = id, g_quote = (\<lambda>s. CHR 0x22 # s @ [CHR 0x22]),
     g_float_ok = (\<lambda>s. s = ''0.5''), g_fmt_float = (\<lambda>f. ''0''), g_f2i = (\<lambda>f. - (2 ^ 63)),
     g_hex_err = (\<lambda>s. ''encoding/hex: invalid byte''),
     g_sha256 = (\<lambda>b. replicate 32 (if b = [] then CHR 0x00 else hd b)),
     g_pubkey = (\<lambda>k. take 32 k),
     g_sign = (\<lambda>k m. replicate 64 (if k = [] then CHR 0x00 else hd k)),
     g_verify = (\<lambda>k m s. s = replicate 64 (if k = [] then CHR 0x00 else hd k))\<rparr>"

definition bare_world :: world where
  "bare_world = \<lparr>fs = [(''/tmp'', DirN 0x1FF)], tick = 0, effects = []\<rparr>"

end
