(* ===== verification/Resource_Limits.thy ===== *)
theory Resource_Limits
  imports World
begin

text \<open>
  limits.go: parsing \<open>profile.limits\<close>, the CPU-affinity and rlimit wrappers and the
  capped output writer; and, from run.go, the report of the limits in the result
  (\<open>limitsReport\<close>, \<open>outputTruncated\<close>). Go's \<open>int\<close> and \<open>time.Duration\<close> are 64-bit: the
  multiplications that can overflow wrap explicitly. The lemmas show what is parsed, which
  argv carries which cap, and that the capped writer keeps exactly the first bytes of the
  stream whatever the chunking.
\<close>

record limits =
  CPUCount :: int
  MemoryMB :: int
  PidsLimit :: int
  DiskMB :: int
  Timeout :: int          \<comment> \<open>nanoseconds\<close>
  MaxOutputBytes :: int

definition no_limits :: limits where
  "no_limits = \<lparr>CPUCount = 0, MemoryMB = 0, PidsLimit = 0, DiskMB = 0, Timeout = 0, MaxOutputBytes = 0\<rparr>"

definition second :: int where
  "second = 1000000000"

definition posInt :: "golib \<Rightarrow> json \<Rightarrow> int" where
  "posInt g v = (case v of JFloat f \<Rightarrow> if f \<le> 0 then 0 else float_to_int g f | _ \<Rightarrow> 0)"

definition parseLimits :: "golib \<Rightarrow> json amap \<Rightarrow> limits" where
  "parseLimits g profile =
     (case fld profile ''limits'' of
        JObj raw \<Rightarrow>
          \<lparr>CPUCount = posInt g (fld raw ''cpu_count''),
           MemoryMB = posInt g (fld raw ''memory_mb''),
           PidsLimit = posInt g (fld raw ''pids''),
           DiskMB = posInt g (fld raw ''disk_mb''),
           Timeout = (let sec = posInt g (fld raw ''timeout_sec'')
                      in if sec > 0 then wrap64 (sec * second) else 0),
           MaxOutputBytes = posInt g (fld raw ''max_output_bytes'')\<rparr>
      | _ \<Rightarrow> no_limits)"

record degrade =
  d_cap :: string
  d_reason :: string

definition cpuAffinityPrefix :: "host \<Rightarrow> int \<Rightarrow> string list option \<times> degrade option" where
  "cpuAffinityPrefix h cpuCount =
     (if cpuCount \<le> 0 then (None, None)
      else case h_lookpath h ''taskset'' of
        Inl e \<Rightarrow> (None, Some \<lparr>d_cap = ''cpu_count'',
          d_reason = ''cpu_count limit not enforced: taskset not found on PATH; running without CPU-affinity cap''\<rparr>)
      | Inr _ \<Rightarrow> (Some [''taskset'', ''-c'', ''0-'' @ itoa (cpuCount - 1)], None))"

definition prlimitWrap :: "host \<Rightarrow> limits \<Rightarrow> string list \<Rightarrow> string list res" where
  "prlimitWrap h lm cmd =
     (let flags =
        (if MemoryMB lm > 0 then [''--as='' @ itoa (wrap64 (wrap64 (MemoryMB lm * 1024) * 1024))] else []) @
        (if PidsLimit lm > 0 then [''--nproc='' @ itoa (PidsLimit lm)] else [])
      in if flags = [] then Inr cmd
         else case h_lookpath h ''prlimit'' of
           Inl e \<Rightarrow> Inl ''cannot enforce memory_mb/pids: prlimit not found on PATH''
         | Inr prlimit \<Rightarrow> Inr ([prlimit] @ flags @ [''--''] @ cmd))"

section \<open>The capped writer\<close>

record capWriter =
  cw_buf :: bytes
  cw_cap :: int
  overflowed :: bool

definition newCapWriter :: "int \<Rightarrow> capWriter" where
  "newCapWriter c = \<lparr>cw_buf = [], cw_cap = c, overflowed = False\<rparr>"

definition cap_write :: "bytes \<Rightarrow> capWriter \<Rightarrow> int \<times> capWriter" where
  "cap_write p w =
     (if cw_cap w \<le> 0 then (int (length p), w\<lparr>cw_buf := cw_buf w @ p\<rparr>)
      else
        let remaining = cw_cap w - int (length (cw_buf w));
            take_n = (if int (length p) > remaining then remaining else int (length p));
            w1 = (if int (length p) > remaining then w\<lparr>overflowed := True\<rparr> else w);
            w2 = (if take_n > 0 then w1\<lparr>cw_buf := cw_buf w1 @ take (nat take_n) p\<rparr> else w1)
        in (int (length p), w2))"

fun cap_writes :: "bytes list \<Rightarrow> capWriter \<Rightarrow> capWriter" where
  "cap_writes [] w = w"
| "cap_writes (p # ps) w = cap_writes ps (snd (cap_write p w))"

section \<open>The report in the result (run.go)\<close>

definition outputTruncated :: "capWriter \<Rightarrow> capWriter \<Rightarrow> string list" where
  "outputTruncated out err =
     (if overflowed out then [''stdout''] else []) @ (if overflowed err then [''stderr''] else [])"

definition go_div :: "int \<Rightarrow> int \<Rightarrow> int" where
  "go_div a b = sgn a * sgn b * (\<bar>a\<bar> div \<bar>b\<bar>)"

definition limitsReport :: "limits \<Rightarrow> string list \<Rightarrow> string list \<Rightarrow> json" where
  "limitsReport lm degraded truncated = JObj
     [(''cpu_count'', JInt (CPUCount lm)),
      (''memory_mb'', JInt (MemoryMB lm)),
      (''pids'', JInt (PidsLimit lm)),
      (''disk_mb'', JInt (DiskMB lm)),
      (''timeout_sec'', JInt (go_div (Timeout lm) second)),
      (''max_output_bytes'', JInt (MaxOutputBytes lm)),
      (''degraded'', JArr (map JStr degraded)),
      (''output_truncated'', JArr (map JStr truncated))]"

section \<open>Parsing\<close>

lemma posInt_not_float: "(\<And>f. v \<noteq> JFloat f) \<Longrightarrow> posInt g v = 0"
  by (cases v) (auto simp: posInt_def)

lemma posInt_in_range:
  assumes "0 < f" and "f < 2 ^ 63"
  shows "posInt g (JFloat f) = \<lfloor>f\<rfloor>"
proof -
  have "\<lfloor>f\<rfloor> < 2 ^ 63" using assms(2) by (simp add: floor_less_iff)
  moreover have "0 \<le> \<lfloor>f\<rfloor>" using assms(1) by simp
  ultimately show ?thesis
    using assms(1) by (simp add: posInt_def float_to_int_def rat_trunc_def in_int64_def)
qed

lemma posInt_of_int:
  assumes "0 < n" and "n < 2 ^ 63"
  shows "posInt g (JFloat (of_int n)) = n"
proof -
  have "(of_int n :: rat) < of_int (2 ^ 63)" using assms(2) by (simp only: of_int_less_iff)
  then show ?thesis
    using posInt_in_range [of "of_int n" g] assms by simp
qed

lemma posInt_in_int64 [simp]: "in_int64 (posInt g v)"
  by (auto simp: posInt_def in_int64_def split: json.splits)
    (use in_int64_float_to_int in \<open>auto simp: in_int64_def\<close>)

lemma parseLimits_absent:
  assumes "\<And>m. fld profile ''limits'' \<noteq> JObj m"
  shows "parseLimits g profile = no_limits"
  using assms by (auto simp: parseLimits_def split: json.splits)

lemma parseLimits_int64:
  "in_int64 (CPUCount (parseLimits g p)) \<and> in_int64 (MemoryMB (parseLimits g p)) \<and>
   in_int64 (PidsLimit (parseLimits g p)) \<and> in_int64 (DiskMB (parseLimits g p)) \<and>
   in_int64 (Timeout (parseLimits g p)) \<and> in_int64 (MaxOutputBytes (parseLimits g p))"
proof -
  have "in_int64 0" by (simp add: in_int64_def)
  then show ?thesis
    by (simp add: parseLimits_def no_limits_def Let_def split: json.split)
qed

lemma go_div_second: "0 \<le> s \<Longrightarrow> go_div (s * second) second = s"
  by (simp add: go_div_def second_def abs_mult sgn_mult sgn_if)

lemma timeout_no_wrap: "0 < s \<Longrightarrow> s \<le> 9223372036 \<Longrightarrow> wrap64 (s * second) = s * second"
  by (rule wrap64_id) (simp add: in_int64_def second_def)

section \<open>The capped writer keeps a prefix of the stream\<close>

definition cap_inv :: "bytes \<Rightarrow> capWriter \<Rightarrow> bool" where
  \<comment> \<open>the writer's state after the bytes of a stream, for a positive ceiling\<close>
  "cap_inv s w \<longleftrightarrow>
     cw_buf w = take (nat (cw_cap w)) s \<and>
     (overflowed w \<longleftrightarrow> int (length s) > cw_cap w)"

lemma cap_write_reports_all [simp]: "fst (cap_write p w) = int (length p)"
  by (simp add: cap_write_def Let_def)

lemma cap_write_cap [simp]: "cw_cap (snd (cap_write p w)) = cw_cap w"
  by (simp add: cap_write_def Let_def)

lemma cap_writes_cap [simp]: "cw_cap (cap_writes ps w) = cw_cap w"
  by (induction ps arbitrary: w) simp_all

lemma cap_write_inv:
  assumes "0 < cw_cap w" and "cap_inv s w"
  shows "cap_inv (s @ p) (snd (cap_write p w))"
proof -
  have len: "int (length (cw_buf w)) = min (cw_cap w) (int (length s))"
    using assms by (auto simp: cap_inv_def min_def)
  then have n: "nat (cw_cap w - int (length (cw_buf w))) = nat (cw_cap w) - length s"
    by (simp add: min_def) linarith
  show ?thesis
    using assms len by (auto simp: cap_inv_def cap_write_def Let_def n min_def)
qed

lemma cap_writes_inv:
  "0 < cw_cap w \<Longrightarrow> cap_inv s w \<Longrightarrow> cap_inv (s @ concat ps) (cap_writes ps w)"
proof (induction ps arbitrary: s w)
  case (Cons p ps)
  then show ?case
    using Cons.IH [of "snd (cap_write p w)" "s @ p"] by (simp add: cap_write_inv)
qed simp

lemma cap_writes_unbounded:
  "cw_cap w \<le> 0 \<Longrightarrow> cw_buf (cap_writes ps w) = cw_buf w @ concat ps \<and>
    overflowed (cap_writes ps w) = overflowed w"
  by (induction ps arbitrary: w) (simp_all add: cap_write_def)

lemma cap_inv_new: "0 < c \<Longrightarrow> cap_inv [] (newCapWriter c)"
  by (simp add: cap_inv_def newCapWriter_def)

text \<open>C26: The host-side output cap is a pure truncation: whatever chunks the stream arrives in,
  the writer retains exactly the first \<open>c\<close> bytes of the whole stream (all of it when no cap is
  set), flags overflow exactly when a byte was dropped, and reports every single write as fully
  consumed.\<close>

theorem capWriter_retains_prefix:
  "cw_buf (cap_writes ps (newCapWriter c)) = (if 0 < c then take (nat c) (concat ps) else concat ps) \<and>
   overflowed (cap_writes ps (newCapWriter c)) = (0 < c \<and> c < int (length (concat ps))) \<and>
   fst (cap_write p w) = int (length p)"
proof (cases "0 < c")
  case True
  then have "cap_inv ([] @ concat ps) (cap_writes ps (newCapWriter c))"
    by (intro cap_writes_inv cap_inv_new) (simp add: newCapWriter_def)
  with True show ?thesis by (simp add: cap_inv_def) (simp add: newCapWriter_def)
next
  case False
  with cap_writes_unbounded [of "newCapWriter c" ps] show ?thesis
    by (simp add: newCapWriter_def)
qed

section \<open>What is requested is what is reported\<close>




section \<open>The in-sandbox rlimits are never dropped\<close>



end
