(* ===== verification/Backend.thy ===== *)
theory Backend
  imports Resource_Limits
begin

text \<open>
  The tier seam of run.go: what a \<open>Backend\<close> returns and the contract \<open>Run\<close> relies on, whichever
  backend it selected. A backend that prepared its run returns a \<open>prep\<close>: the argv, the clean-up to run
  afterwards, the degraded caps and, for each inherited descriptor (3, 4, \<dots>), the bytes a reader gets.

  The contract is the locale \<open>tier_backend\<close>; the theories of the three backends interpret it on their
  \<open>Argv\<close>, and the theory Runner proves its lemmas about \<open>Run\<close> inside it.
\<close>

record prep =
  p_argv :: "string list"
  p_cleanup :: "(host \<Rightarrow> world \<Rightarrow> world) option"
  p_degrades :: "degrade list"
  p_files :: "bytes list"

definition disk_degrade :: degrade where
  "disk_degrade = \<lparr>d_cap = ''disk_mb'', d_reason = ''disk_mb limit not enforced: writable-layer size quota unsupported on this host; running without disk quota''\<rparr>"

type_synonym backend_argv =
  "host \<Rightarrow> string \<Rightarrow> string \<Rightarrow> string \<Rightarrow> string list \<Rightarrow> string amap \<Rightarrow> (string \<times> string) list \<Rightarrow> limits \<Rightarrow>
   world \<Rightarrow> prep res \<times> world"

section \<open>The contract\<close>

text \<open>
  A backend may serve on sockets and kill its own left-overs, nothing else: it sends no audit event,
  asks the vault for nothing and starts no payload. Every socket it serves on is closed again, by the
  backend itself when it fails, by its clean-up when it succeeds.
\<close>

fun internal :: "effect \<Rightarrow> bool" where
  "internal (Listen s) = True"
| "internal (Unlisten s) = True"
| "internal (Kill n) = True"
| "internal _ = False"

definition balanced :: "effect list \<Rightarrow> bool" where
  "balanced es \<longleftrightarrow> (\<forall>s. count_list es (Listen s) = count_list es (Unlisten s))"

lemma balanced_Nil [simp]: "balanced []"
  by (simp add: balanced_def)

lemma balanced_append: "balanced xs \<Longrightarrow> balanced ys \<Longrightarrow> balanced (xs @ ys)"
  by (simp add: balanced_def)

lemma balanced_kill: "balanced (map Kill ks)"
proof -
  have "count_list (map Kill ks) (Listen s) = 0 \<and> count_list (map Kill ks) (Unlisten s) = 0" for s
    by (induction ks) simp_all
  then show ?thesis by (simp add: balanced_def)
qed

locale tier_backend =
  fixes Argv :: backend_argv
  assumes prepares: "Argv h scriptPath proxySock workdir fileReads env envCreds lm w = (r, w') \<Longrightarrow>
    \<exists>es. effects w' = effects w @ es \<and> list_all internal es \<and>
      (case r of Inl e \<Rightarrow> balanced es
       | Inr p \<Rightarrow> p_argv p \<noteq> [] \<and>
           (case p_cleanup p of None \<Rightarrow> balanced es
            | Some c \<Rightarrow> \<forall>v. \<exists>es'. effects (c h v) = effects v @ es' \<and> list_all internal es' \<and> balanced (es @ es')))"

text \<open>A backend without sockets meets the contract when its calls leave the log of effects alone.\<close>

lemma backend_quiet:
  assumes "\<And>h s q wd rs env cs lm w r w'. Argv h s q wd rs env cs lm w = (r, w') \<Longrightarrow>
      effects w' = effects w \<and> (case r of Inl e \<Rightarrow> True | Inr p \<Rightarrow> p_argv p \<noteq> [] \<and>
        (case p_cleanup p of None \<Rightarrow> True | Some c \<Rightarrow> \<forall>v. effects (c h v) = effects v))"
  shows "tier_backend Argv"
proof
  fix h s q wd rs env cs lm w r w'
  assume "Argv h s q wd rs env cs lm w = (r, w')"
  note a = assms [OF this]
  show "\<exists>es. effects w' = effects w @ es \<and> list_all internal es \<and>
      (case r of Inl e \<Rightarrow> balanced es
       | Inr p \<Rightarrow> p_argv p \<noteq> [] \<and>
           (case p_cleanup p of None \<Rightarrow> balanced es
            | Some c \<Rightarrow> \<forall>v. \<exists>es'. effects (c h v) = effects v @ es' \<and> list_all internal es' \<and> balanced (es @ es')))"
    by (rule exI [of _ "[]"]) (use a in \<open>simp split: sum.splits option.splits\<close>)
qed

end
