(* ===== verification/Creds.thy ===== *)
theory Creds
  imports World
begin

text \<open>
  Credential holders. The interface of a wipeable store of named secrets is the locale
  \<open>cred_store\<close>; \<open>listed_store\<close> adds the sorted listing of the names it holds. Both
  credential holders of the program provide them: \<open>EnvCredentials\<close> of envcreds.go, modelled
  here, and the credential map of \<open>EgressProxy\<close> (theory Proxy). Each method holds the
  holder's mutex for its whole body, so a method is one atomic step on the state.
\<close>

section \<open>The interface\<close>

locale cred_store =
  fixes invar :: "'s \<Rightarrow> bool"
    and look :: "'s \<Rightarrow> string \<Rightarrow> 'v option"
    and put :: "string \<Rightarrow> 'v \<Rightarrow> 's \<Rightarrow> 's"
    and wipe :: "'s \<Rightarrow> 's"
  assumes look_put: "look (put k v s) = (look s)(k \<mapsto> v)"
    and look_wipe: "look (wipe s) = Map.empty"
    and invar_put: "invar s \<Longrightarrow> invar (put k v s)"
    and invar_wipe: "invar (wipe s)"
begin

lemma look_puts: "look (fold (\<lambda>(k, v). put k v) kvs s) = look s ++ map_of (rev kvs)"
  by (induction kvs arbitrary: s) (auto simp: look_put map_add_def split: option.splits)

lemma invar_puts: "invar s \<Longrightarrow> invar (fold (\<lambda>(k, v). put k v) kvs s)"
  by (induction kvs arbitrary: s) (auto simp: invar_put)

lemma look_puts_wiped: "look (fold (\<lambda>(k, v). put k v) kvs (wipe s)) = map_of (rev kvs)"
  by (simp add: look_puts look_wipe)

lemma held_was_put:
  "look (fold (\<lambda>(k, v). put k v) kvs (wipe s)) k = Some v \<Longrightarrow> (k, v) \<in> set kvs"
  using map_of_SomeD [of "rev kvs" k v] by (simp add: look_puts_wiped)

lemma no_residue: "look (wipe (fold (\<lambda>(k, v). put k v) kvs s)) = Map.empty"
  by (rule look_wipe)

end

locale listed_store = cred_store invar look put wipe
  for invar :: "'s \<Rightarrow> bool" and look :: "'s \<Rightarrow> string \<Rightarrow> 'v option"
    and put :: "string \<Rightarrow> 'v \<Rightarrow> 's \<Rightarrow> 's" and wipe :: "'s \<Rightarrow> 's" +
  fixes names :: "'s \<Rightarrow> string list"
  assumes names_dom: "invar s \<Longrightarrow> set (names s) = dom (look s)"
    and names_strict: "invar s \<Longrightarrow> sorted (names s) \<and> distinct (names s)"
begin

lemma names_wipe: "names (wipe s) = []"
  using names_dom [OF invar_wipe, of s] by (simp add: look_wipe)

text \<open>The listing depends on what is held only, not on the order it was stored in.\<close>

lemma names_determined:
  assumes "invar s" "invar t" "look s = look t"
  shows "names s = names t"
proof -
  have "set (names s) = set (names t)"
    using assms by (simp add: names_dom)
  then show ?thesis
    using names_strict [OF assms(1)] names_strict [OF assms(2)] sorted_distinct_set_unique by blast
qed

lemma names_puts_perm:
  assumes "invar s" and "distinct (map fst kvs)" and "set kvs = set kvs'" and "distinct (map fst kvs')"
  shows "names (fold (\<lambda>(k, v). put k v) kvs s) = names (fold (\<lambda>(k, v). put k v) kvs' s)"
proof (rule names_determined)
  have "map_of (rev kvs) = map_of (rev kvs')"
    using assms(2-4) by (intro map_of_eqI) (auto simp: map_of_eq_Some_iff rev_map [symmetric])
  then show "look (fold (\<lambda>(k, v). put k v) kvs s) = look (fold (\<lambda>(k, v). put k v) kvs' s)"
    by (simp add: look_puts)
qed (simp_all add: assms invar_puts)

end

section \<open>envcreds.go\<close>

record EnvCredentials =
  vars :: "string amap"

definition NewEnvCredentials :: EnvCredentials where
  "NewEnvCredentials = \<lparr>vars = []\<rparr>"

definition env_Set :: "string \<Rightarrow> string \<Rightarrow> EnvCredentials \<Rightarrow> EnvCredentials" where
  "env_Set varName value e = e\<lparr>vars := aput varName value (vars e)\<rparr>"

definition pairs :: "EnvCredentials \<Rightarrow> (string \<times> string) list" where
  "pairs e = map (\<lambda>k. (k, case map_of (vars e) k of Some v \<Rightarrow> v | None \<Rightarrow> [])) (sorted_keys (vars e))"

definition env_empty :: "EnvCredentials \<Rightarrow> bool" where
  "env_empty e \<longleftrightarrow> length (vars e) = 0"

definition env_Wipe :: "EnvCredentials \<Rightarrow> EnvCredentials" where
  "env_Wipe e = e\<lparr>vars := []\<rparr>"

definition env_look :: "EnvCredentials \<Rightarrow> string \<Rightarrow> string option" where
  "env_look e k = map_of (vars e) k"

definition env_wf :: "EnvCredentials \<Rightarrow> bool" where
  "env_wf e \<longleftrightarrow> wf_map (vars e)"

lemma env_wf_New [simp]: "env_wf NewEnvCredentials"
  by (simp add: env_wf_def NewEnvCredentials_def)

lemma map_fst_pairs: "map fst (pairs e) = sorted_keys (vars e)"
  by (simp add: pairs_def comp_def)

interpretation envs: listed_store env_wf env_look env_Set env_Wipe "\<lambda>e. map fst (pairs e)"
proof unfold_locales
  show "env_look (env_Set k v s) = (env_look s)(k \<mapsto> v)" for k v s
    by (rule ext) (simp add: env_look_def env_Set_def)
  show "set (map fst (pairs s)) = dom (env_look s)" for s
    by (simp add: map_fst_pairs env_look_def dom_map_of_conv_image_fst dom_def [symmetric])
      (auto simp: env_look_def dom_def map_of_eq_None_iff image_iff)
qed (auto simp: env_look_def env_Wipe_def env_wf_def env_Set_def map_fst_pairs)

lemma set_pairs: "set (pairs e) = {(k, v). env_look e k = Some v}"
proof -
  have "set (sorted_keys (vars e)) = dom (map_of (vars e))"
    by (simp add: dom_map_of_conv_image_fst)
  then show ?thesis
    by (auto simp: pairs_def env_look_def image_iff simp del: set_sorted_keys split: option.splits)
qed

lemma pairs_Wipe [simp]: "pairs (env_Wipe e) = []"
  by (simp add: pairs_def env_Wipe_def sorted_keys_def)

lemma pairs_determined:
  assumes "env_wf a" "env_wf b" "env_look a = env_look b"
  shows "pairs a = pairs b"
proof -
  have "sorted_keys (vars a) = sorted_keys (vars b)"
    using envs.names_determined [OF assms] by (simp add: map_fst_pairs)
  moreover have "map_of (vars a) = map_of (vars b)"
    using assms(3) by (auto simp: env_look_def fun_eq_iff)
  ultimately show ?thesis by (simp add: pairs_def)
qed

lemma env_empty_pairs: "env_empty e \<longleftrightarrow> pairs e = []"
  by (simp add: env_empty_def pairs_def)

text \<open>The env-mode holder delivers exactly what was set and keeps nothing: after any sequence of
  Set calls on a fresh holder the delivered pairs are, in strictly increasing name order, each name
  with the last value set for it, whatever order the names were set in; and one Wipe leaves it empty.\<close>

theorem env_pairs_last_write:
  "set (pairs (fold (\<lambda>(k, v). env_Set k v) kvs NewEnvCredentials)) = {(k, v). map_of (rev kvs) k = Some v} \<and>
   sorted_wrt (<) (map fst (pairs (fold (\<lambda>(k, v). env_Set k v) kvs NewEnvCredentials))) \<and>
   env_empty (env_Wipe (fold (\<lambda>(k, v). env_Set k v) kvs NewEnvCredentials)) \<and>
   pairs (env_Wipe (fold (\<lambda>(k, v). env_Set k v) kvs NewEnvCredentials)) = []"
proof -
  let ?e = "fold (\<lambda>(k, v). env_Set k v) kvs NewEnvCredentials"
  have wf: "env_wf ?e" by (rule envs.invar_puts) simp
  have "env_look ?e = map_of (rev kvs)"
    using envs.look_puts_wiped [of kvs NewEnvCredentials]
    by (simp add: env_Wipe_def NewEnvCredentials_def)
  moreover have "sorted_wrt (<) (map fst (pairs ?e))"
    using envs.names_strict [OF wf] by (simp add: strict_sorted_iff)
  ultimately show ?thesis
    by (simp add: set_pairs env_empty_pairs)
qed

end
