(* ===== verification/Pins.thy ===== *)
theory Pins
  imports World
begin

text \<open>
  seccomp.go and fcartifacts.go: the loaders of the two pinned artifacts, the embedded Tier-1
  seccomp program and the guest kernel and root file system. The embedded blob and its pin are
  arguments; an open file handed to bubblewrap is the bytes a reader of the descriptor gets.
  The lemmas show that each loader succeeds only on an artifact whose digest is the pinned one.
\<close>

definition emdash :: string where
  "emdash = [CHR 0xE2, CHR 0x80, CHR 0x94]"

section \<open>The Tier-1 seccomp filter\<close>

definition parseSeccompPin :: "golib \<Rightarrow> string \<Rightarrow> string res" where
  "parseSeccompPin g pin =
     (case Go_Text.fields (trim_space pin) of
        [] \<Rightarrow> Inl ''empty pin''
      | f # _ \<Rightarrow>
         (let hexDigest = to_lower g f in
          if length hexDigest \<noteq> 64 then
            Inl (''expected 64-char sha256 hex, got '' @ itoa (int (length hexDigest)) @ '' chars'')
          else case hex_decode hexDigest of
            None \<Rightarrow> Inl (''non-hex pin: '' @ g_hex_err g hexDigest)
          | Some _ \<Rightarrow> Inr hexDigest))"

definition verifyTier1SeccompBytes :: "golib \<Rightarrow> bytes \<Rightarrow> string \<Rightarrow> unit res" where
  "verifyTier1SeccompBytes g blob pin =
     rbind (wrap_err ''seccomp: malformed pin: '' (parseSeccompPin g pin)) (\<lambda>want.
       (let got = hex_encode (g_sha256 g blob) in
        if got \<noteq> want then Inl (''seccomp: blob sha256 mismatch: have '' @ got @ '', pinned '' @ want)
        else Inr ()))"

definition loadTier1Seccomp :: "golib \<Rightarrow> bytes \<Rightarrow> string \<Rightarrow> host \<Rightarrow> world \<Rightarrow> bytes res \<times> world" where
  "loadTier1Seccomp g blob pin h w =
     (case parseSeccompPin g pin of
        Inl e \<Rightarrow> (Inl (''seccomp: malformed pin: '' @ e), w)
      | Inr want \<Rightarrow>
         (let got = hex_encode (g_sha256 g blob) in
          if got \<noteq> want then
            (Inl (''seccomp: blob sha256 mismatch: have '' @ got @ '', pinned '' @ want), w)
          else
           (let f = h_tmp h (tick w) ''tier1-seccomp-*.bpf'' in
            case sys h (OpCreateExcl f) w of
              (Some (Fault e r), w1) \<Rightarrow> (Inl (''seccomp: temp file: '' @ e), w1)
            | (None, w1) \<Rightarrow>
               (let w2 = snd (os_remove h f (put_node f (FileN 0x180 []) w1));
                    linked = map_of (fs w2) f \<noteq> None in
                case sys h (OpWrite f) w2 of
                  (Some (Fault e r), w3) \<Rightarrow>
                    (Inl (''seccomp: write blob: '' @ e), if linked then leave f r w3 else w3)
                | (None, w3) \<Rightarrow>
                   (let w4 = (if linked then put_node f (FileN 0x180 blob) w3 else w3) in
                    case sys h (OpSeek f) w4 of
                      (Some (Fault e r), w5) \<Rightarrow> (Inl (''seccomp: rewind blob: '' @ e), w5)
                    | (None, w5) \<Rightarrow> (Inr blob, w5))))))"

section \<open>The guest kernel and root file system\<close>

definition guestKernelRel :: string where "guestKernelRel = ''guest/kernel/vmlinux-6.1.176''"
definition guestKernelShaRel :: string where "guestKernelShaRel = ''guest/kernel/vmlinux.sha256''"
definition guestRootfsRel :: string where "guestRootfsRel = ''guest/rootfs/base.ext4''"
definition guestRootfsShaRel :: string where "guestRootfsShaRel = ''guest/rootfs/base.ext4.sha256''"

record guestArtifacts =
  kernelPath :: string
  rootfsPath :: string

definition guestArtifactRoots :: "host \<Rightarrow> string list" where
  "guestArtifactRoots h =
     (case h_exe h of Inr exe \<Rightarrow> [path_dir exe] | Inl _ \<Rightarrow> []) @
     (case h_wd h of Inr wd \<Rightarrow> [wd] | Inl _ \<Rightarrow> []) @ [''.'']"

fun first_existing :: "host \<Rightarrow> string \<Rightarrow> string list \<Rightarrow> world \<Rightarrow> string \<times> world" where
  "first_existing h rel [] w = ([], w)"
| "first_existing h rel (r # rs) w =
     (let p = path_join [r, rel] in
      case os_stat h p w of
        (Inr _, w1) \<Rightarrow> (p, w1)
      | (Inl _, w1) \<Rightarrow> first_existing h rel rs w1)"

definition resolveGuestArtifact :: "host \<Rightarrow> string \<Rightarrow> world \<Rightarrow> string \<times> world" where
  "resolveGuestArtifact h rel w = first_existing h rel (guestArtifactRoots h) w"

definition readPinnedDigest :: "golib \<Rightarrow> host \<Rightarrow> string \<Rightarrow> world \<Rightarrow> string res \<times> world" where
  "readPinnedDigest g h pinPath w = (case os_read_file h pinPath w of
     (Inl e, w1) \<Rightarrow> (Inl (''read pin '' @ pinPath @ '': '' @ e), w1)
   | (Inr raw, w1) \<Rightarrow> (case Go_Text.fields raw of
        [] \<Rightarrow> (Inl (''empty pin file '' @ pinPath @ '' '' @ emdash @ '' refusing to use an unpinned artifact''), w1)
      | f # _ \<Rightarrow> (Inr (to_lower g f), w1)))"

definition fileSHA256 :: "golib \<Rightarrow> host \<Rightarrow> string \<Rightarrow> world \<Rightarrow> string res \<times> world" where
  "fileSHA256 g h path w = (case os_read_file h path w of
     (Inl e, w1) \<Rightarrow> (Inl e, w1)
   | (Inr d, w1) \<Rightarrow> (Inr (hex_encode (g_sha256 g d)), w1))"

definition verifyPinnedDigest :: "golib \<Rightarrow> host \<Rightarrow> string \<Rightarrow> string \<Rightarrow> world \<Rightarrow> unit res \<times> world" where
  "verifyPinnedDigest g h artifactPath pinPath w =
     (if pinPath = [] then
        (Inl (''no pin file for '' @ artifactPath @ '' '' @ emdash @ '' refusing to use an unpinned artifact''), w)
      else case readPinnedDigest g h pinPath w of
        (Inl e, w1) \<Rightarrow> (Inl e, w1)
      | (Inr want, w1) \<Rightarrow> (case fileSHA256 g h artifactPath w1 of
          (Inl e, w2) \<Rightarrow> (Inl e, w2)
        | (Inr got, w2) \<Rightarrow>
           (if got \<noteq> want then
              Inl (''sha256 mismatch for '' @ artifactPath @ '': got '' @ got @ '', pinned '' @ want @
                   '' (tampered or wrong artifact '' @ emdash @ '' refusing to boot)'')
            else Inr (), w2)))"

definition loadGuestArtifacts :: "golib \<Rightarrow> host \<Rightarrow> world \<Rightarrow> guestArtifacts res \<times> world" where
  "loadGuestArtifacts g h w =
     (let (kernel, w1) = resolveGuestArtifact h guestKernelRel w in
      if kernel = [] then
        (Inl (''guest kernel not found ('' @ guestKernelRel @
              ''): pinned artifact missing '' @ emdash @ '' cannot boot Tier-3''), w1)
      else let (rootfs, w2) = resolveGuestArtifact h guestRootfsRel w1 in
      if rootfs = [] then
        (Inl (''guest rootfs not found ('' @ guestRootfsRel @
              ''): pinned artifact missing '' @ emdash @ '' cannot boot Tier-3''), w2)
      else let (kernelPin, w3) = resolveGuestArtifact h guestKernelShaRel w2 in
      case verifyPinnedDigest g h kernel kernelPin w3 of
        (Inl e, w4) \<Rightarrow> (Inl (''guest kernel verification failed: '' @ e), w4)
      | (Inr _, w4) \<Rightarrow>
         (let (rootfsPin, w5) = resolveGuestArtifact h guestRootfsShaRel w4 in
          case verifyPinnedDigest g h rootfs rootfsPin w5 of
            (Inl e, w6) \<Rightarrow> (Inl (''guest rootfs verification failed: '' @ e), w6)
          | (Inr _, w6) \<Rightarrow> (Inr \<lparr>kernelPath = kernel, rootfsPath = rootfs\<rparr>, w6)))"

section \<open>The pin format\<close>

text \<open>Trimming at the end stops at a plain character; white-space runes contain none.\<close>

lemma space_runes_not_plain: "q \<in> set space_runes \<Longrightarrow> c \<in> set q \<Longrightarrow> \<not> plain_char c"
  by (auto simp: space_runes_def plain_char_def)

lemma rspace_len_bound:
  assumes "plain_char c"
  shows "rspace_len (a @ c # b) \<le> length a"
proof (cases "filter (\<lambda>q. prefix (rev q) (a @ c # b)) space_runes")
  case Nil
  then show ?thesis by (simp add: rspace_len_def)
next
  case (Cons q qs)
  then have q: "q \<in> set space_runes" "prefix (rev q) (a @ c # b)"
    using list.set_intros(1) [of q qs] unfolding Cons [symmetric] set_filter by blast+
  have "length q \<le> length a"
  proof (rule ccontr)
    assume "\<not> length q \<le> length a"
    then have l: "length a < length (rev q)" by simp
    from q(2) obtain z where "a @ c # b = rev q @ z" by (auto simp: prefix_def)
    with l have "rev q ! length a = c" by (metis nth_append nth_append_length)
    with l have "c \<in> set q" by (metis nth_mem set_rev)
    with q(1) assms space_runes_not_plain show False by blast
  qed
  with Cons show ?thesis by (simp add: rspace_len_def)
qed

lemma trim_right_rev_plain:
  assumes "plain_char c"
  shows "\<exists>n. trim_right_rev (a @ c # b) = drop n a @ c # b"
proof (induction "length a" arbitrary: a rule: less_induct)
  case less
  let ?n = "rspace_len (a @ c # b)"
  show ?case
  proof (cases "?n = 0")
    case True
    then have "trim_right_rev (a @ c # b) = a @ c # b"
      by (subst trim_right_rev.simps) simp
    then show ?thesis by (intro exI [of _ 0]) simp
  next
    case False
    with rspace_len_bound [OF assms, of a b] have b: "0 < ?n" "?n \<le> length a" by auto
    then have "trim_right_rev (a @ c # b) = trim_right_rev (drop ?n a @ c # b)"
      by (subst trim_right_rev.simps) (simp add: Let_def)
    moreover obtain m where "trim_right_rev (drop ?n a @ c # b) = drop m (drop ?n a) @ c # b"
      using less [of "drop ?n a"] b by fastforce
    ultimately show ?thesis
      by (intro exI [of _ "m + ?n"]) (simp add: add.commute)
  qed
qed

lemma fields_trim_word:
  assumes "list_all plain_char w" and "w \<noteq> []"
  shows "\<exists>ws. Go_Text.fields (trim_space (w @ CHR '' '' # r)) = w # ws"
proof -
  obtain c cs where w: "w = c # cs" "plain_char c" using assms by (cases w) auto
  have left: "trim_left_space (w @ CHR '' '' # r) = w @ CHR '' '' # r"
    using w by (subst trim_left_space.simps) simp
  obtain v d where rv: "rev w = d # v" "plain_char d"
    using assms by (cases "rev w") (auto simp: list_all_iff)
  obtain n where n: "trim_right_rev (rev (w @ CHR '' '' # r)) = drop n (rev r @ '' '') @ rev w"
    using trim_right_rev_plain [OF rv(2), of "rev r @ '' ''" v] rv(1) by auto
  let ?s = "rev (drop n (rev r @ '' ''))"
  have t: "trim_space (w @ CHR '' '' # r) = w @ ?s"
    unfolding trim_space_def left n by simp
  have "?s = take (Suc (length r) - n) (CHR '' '' # r)"
    using rev_drop [of n "rev r @ '' ''"] by (simp del: take_append)
  then consider "?s = []" | s where "?s = CHR '' '' # s"
    by (cases "Suc (length r) - n") auto
  then show ?thesis
    by cases (use t fields_word [OF assms] fields_word_blank [OF assms] in simp_all)
qed

lemma hex_digit_plain: "n < 16 \<Longrightarrow> plain_char (hex_digit n)"
  by (simp add: hex_digit_def plain_char_def of_char_of)

lemma of_char_div_16: "(of_char (b::char) :: nat) div 16 < 16"
  by (rule less_mult_imp_div_less) (use of_char_less_256 [of b] in simp)

lemma plain_hex_encode: "list_all plain_char (hex_encode bs)"
  by (induction bs) (simp_all add: hex_digit_plain of_char_div_16)

lemma lower_hex_digit: "n < 16 \<Longrightarrow> lower_char (hex_digit n) = hex_digit n"
  by (auto simp: hex_digit_def lower_char_def of_char_of Let_def)

lemma to_lower_hex_encode: "to_lower g (hex_encode bs) = hex_encode bs"
proof -
  have "is_ascii (hex_encode bs)"
    using plain_hex_encode [of bs] by (auto simp: is_ascii_def list_all_iff plain_char_def)
  moreover have "map lower_char (hex_encode bs) = hex_encode bs"
    by (induction bs) (simp_all add: lower_hex_digit of_char_div_16)
  ultimately show ?thesis by (simp add: to_lower_def)
qed

lemma parseSeccompPin_line:
  assumes "length d = 32"
  shows "parseSeccompPin g (hex_encode d @ CHR '' '' # r) = Inr (hex_encode d)"
proof -
  have ne: "hex_encode d \<noteq> []"
    using assms length_hex_encode [of d] by (metis length_0_conv mult_eq_0_iff zero_neq_numeral)
  obtain ws where "Go_Text.fields (trim_space (hex_encode d @ CHR '' '' # r)) = hex_encode d # ws"
    using fields_trim_word [OF plain_hex_encode ne] by blast
  then show ?thesis
    using assms by (simp add: parseSeccompPin_def to_lower_hex_encode)
qed

section \<open>Both loaders are fail-fast\<close>

lemma os_remove_gone:
  "os_remove h f w = (Inr u, w') \<Longrightarrow> map_of (fs w') q = (if q = f then None else map_of (fs w) q)"
  by (auto simp: fs_simps AList.delete_conv' split: option.splits fault.splits)

lemma verifyTier1SeccompBytes_iff:
  "verifyTier1SeccompBytes g blob pin = Inr () \<longleftrightarrow>
    parseSeccompPin g pin = Inr (hex_encode (g_sha256 g blob))"
  by (cases "parseSeccompPin g pin") (auto simp: verifyTier1SeccompBytes_def Let_def)

lemma loadTier1Seccomp_Inr:
  "fst (loadTier1Seccomp g blob pin h w) = Inr f \<Longrightarrow> f = blob \<and> verifyTier1SeccompBytes g blob pin = Inr ()"
  unfolding verifyTier1SeccompBytes_iff
  by (auto simp: loadTier1Seccomp_def Let_def split: sum.splits if_splits prod.splits option.splits fault.splits)

lemma loadTier1Seccomp_effects: "effects (snd (loadTier1Seccomp g blob pin h w)) = effects w"
proof -
  have s: "sys h op v = (r, v') \<Longrightarrow> effects v' = effects v" for op v r v'
    by (auto simp: sys_def)
  show ?thesis
    by (auto simp: loadTier1Seccomp_def Let_def dest!: s
        split: sum.splits if_splits prod.splits option.splits fault.splits)
qed

text \<open>C21: The seccomp filter is the pinned one or there is none: the loader hands out a file exactly when
  the embedded blob's SHA-256 is the one the pin line names and the host calls succeed, the file then
  reads as exactly the blob, a mismatch makes no system call at all, the pure check agrees with the
  loader, and the committed sha256sum line of the blob is a pin that is accepted. Digests are 32
  bytes long.\<close>

theorem loadTier1Seccomp_fail_closed:
  assumes "\<forall>b. length (g_sha256 g b) = 32"
  shows "(verifyTier1SeccompBytes g blob pin = Inr () \<longleftrightarrow>
      parseSeccompPin g pin = Inr (hex_encode (g_sha256 g blob))) \<and>
    (\<forall>f. fst (loadTier1Seccomp g blob pin h w) = Inr f \<longrightarrow>
      f = blob \<and> verifyTier1SeccompBytes g blob pin = Inr ()) \<and>
    (verifyTier1SeccompBytes g blob pin \<noteq> Inr () \<longrightarrow> snd (loadTier1Seccomp g blob pin h w) = w) \<and>
    (verifyTier1SeccompBytes g blob pin = Inr () \<longrightarrow> (\<forall>n op. h_fault h n op = None) \<longrightarrow>
      fst (loadTier1Seccomp g blob pin h w) = Inr blob) \<and>
    verifyTier1SeccompBytes g blob (hex_encode (g_sha256 g blob) @ ''  tier1.bpf'' @ [CHR 0x0A]) = Inr ()"
proof (intro conjI)
  note check = verifyTier1SeccompBytes_iff [of g blob pin]
  show "verifyTier1SeccompBytes g blob pin = Inr () \<longleftrightarrow>
      parseSeccompPin g pin = Inr (hex_encode (g_sha256 g blob))" by (rule check)
  show "\<forall>f. fst (loadTier1Seccomp g blob pin h w) = Inr f \<longrightarrow>
      f = blob \<and> verifyTier1SeccompBytes g blob pin = Inr ()"
    using loadTier1Seccomp_Inr by blast
  show "verifyTier1SeccompBytes g blob pin \<noteq> Inr () \<longrightarrow> snd (loadTier1Seccomp g blob pin h w) = w"
    unfolding check by (auto simp: loadTier1Seccomp_def Let_def split: sum.splits)
  show "verifyTier1SeccompBytes g blob pin = Inr () \<longrightarrow> (\<forall>n op. h_fault h n op = None) \<longrightarrow>
      fst (loadTier1Seccomp g blob pin h w) = Inr blob"
    unfolding check by (auto simp: loadTier1Seccomp_def sys_def Let_def)
  show "verifyTier1SeccompBytes g blob (hex_encode (g_sha256 g blob) @ ''  tier1.bpf'' @ [CHR 0x0A]) = Inr ()"
    using parseSeccompPin_line [of "g_sha256 g blob" g "'' tier1.bpf'' @ [CHR 0x0A]"] assms
    by (simp add: verifyTier1SeccompBytes_def Let_def)
qed

lemma first_existing_D:
  assumes "first_existing h rel rs w = (p, w')"
  shows "fs w' = fs w \<and> effects w' = effects w \<and>
    (p \<noteq> [] \<longrightarrow> (\<exists>r \<in> set rs. p = path_join [r, rel]) \<and> map_of (fs w) p \<noteq> None)"
  using assms
proof (induction rs arbitrary: w)
  case (Cons r rs)
  obtain q w1 where st: "os_stat h (path_join [r, rel]) w = (q, w1)" by fastforce
  show ?case
  proof (cases q)
    case (Inl e)
    with Cons.prems st have "first_existing h rel rs w1 = (p, w')" by (simp add: Let_def)
    from Cons.IH [OF this] os_stat_D [OF st] show ?thesis by auto
  next
    case (Inr n)
    with Cons.prems st os_stat_Inr [of h _ w n w1] show ?thesis by auto
  qed
qed simp

lemma resolveGuestArtifact_D:
  "resolveGuestArtifact h rel w = (p, w') \<Longrightarrow> fs w' = fs w \<and> effects w' = effects w \<and>
    (p \<noteq> [] \<longrightarrow> (\<exists>r \<in> set (guestArtifactRoots h). p = path_join [r, rel]) \<and> map_of (fs w) p \<noteq> None)"
  unfolding resolveGuestArtifact_def by (rule first_existing_D)

definition pinned :: "golib \<Rightarrow> node amap \<Rightarrow> string \<Rightarrow> string \<Rightarrow> bool" where
  "pinned g m artifact pin \<longleftrightarrow> (\<exists>ma d mp raw f ws. map_of m artifact = Some (FileN ma d) \<and>
     map_of m pin = Some (FileN mp raw) \<and> Go_Text.fields raw = f # ws \<and>
     hex_encode (g_sha256 g d) = to_lower g f)"

lemma os_read_file_Inr:
  "os_read_file h p w = (Inr d, w') \<Longrightarrow> \<exists>m. map_of (fs w) p = Some (FileN m d)"
  by (auto simp: os_read_file_def sys_def split: option.splits fault.splits node.splits)

lemma verifyPinnedDigest_D:
  assumes "verifyPinnedDigest g h a p w = (r, w')"
  shows "fs w' = fs w \<and> effects w' = effects w \<and> (r = Inr () \<longrightarrow> p \<noteq> [] \<and> pinned g (fs w) a p)"
proof (cases "p = []")
  case False
  obtain q1 w1 where r1: "os_read_file h p w = (q1, w1)" by fastforce
  obtain q2 w2 where r2: "os_read_file h a w1 = (q2, w2)" by fastforce
  note D = os_read_D(1) [OF r1] os_read_D(1) [OF r2]
  show ?thesis
    using assms False D os_read_file_Inr [of h p w _ w1] os_read_file_Inr [of h a w1 _ w2]
    by (fastforce simp: verifyPinnedDigest_def readPinnedDigest_def fileSHA256_def r1 r2 pinned_def
        split: sum.splits list.splits if_splits)
qed (use assms in \<open>auto simp: verifyPinnedDigest_def\<close>)

lemma loadGuestArtifacts_D:
  assumes "loadGuestArtifacts g h w = (r, w')"
  shows "fs w' = fs w \<and> effects w' = effects w \<and>
    (\<forall>a. r = Inr a \<longrightarrow>
      (\<exists>x \<in> set (guestArtifactRoots h). kernelPath a = path_join [x, guestKernelRel]) \<and>
      (\<exists>x \<in> set (guestArtifactRoots h). rootfsPath a = path_join [x, guestRootfsRel]) \<and>
      (\<exists>x \<in> set (guestArtifactRoots h). pinned g (fs w) (kernelPath a) (path_join [x, guestKernelShaRel])) \<and>
      (\<exists>x \<in> set (guestArtifactRoots h). pinned g (fs w) (rootfsPath a) (path_join [x, guestRootfsShaRel])))"
proof -
  obtain kernel w1 where k: "resolveGuestArtifact h guestKernelRel w = (kernel, w1)" by fastforce
  obtain rootfs w2 where f: "resolveGuestArtifact h guestRootfsRel w1 = (rootfs, w2)" by fastforce
  obtain kpin w3 where kp: "resolveGuestArtifact h guestKernelShaRel w2 = (kpin, w3)" by fastforce
  obtain v w4 where v: "verifyPinnedDigest g h kernel kpin w3 = (v, w4)" by fastforce
  obtain fpin w5 where fp: "resolveGuestArtifact h guestRootfsShaRel w4 = (fpin, w5)" by fastforce
  obtain u w6 where u: "verifyPinnedDigest g h rootfs fpin w5 = (u, w6)" by fastforce
  have fr: "fs w1 = fs w" "fs w2 = fs w" "fs w3 = fs w" "fs w4 = fs w" "fs w5 = fs w" "fs w6 = fs w"
      "effects w1 = effects w" "effects w2 = effects w" "effects w4 = effects w" "effects w6 = effects w"
    using resolveGuestArtifact_D [OF k] resolveGuestArtifact_D [OF f] resolveGuestArtifact_D [OF kp]
      verifyPinnedDigest_D [OF v] resolveGuestArtifact_D [OF fp] verifyPinnedDigest_D [OF u] by simp_all
  note load = assms [unfolded loadGuestArtifacts_def Let_def k f kp prod.case v fp u]
  show ?thesis
  proof (cases "kernel = [] \<or> rootfs = []")
    case True
    with load have "r \<noteq> Inr a" "w' = w1 \<or> w' = w2" for a by (auto split: if_splits)
    then show ?thesis using fr by blast
  next
    case False
    then have l: "(case v of Inl e \<Rightarrow> (Inl (''guest kernel verification failed: '' @ e), w4)
        | Inr _ \<Rightarrow> case u of Inl e \<Rightarrow> (Inl (''guest rootfs verification failed: '' @ e), w6)
          | Inr _ \<Rightarrow> (Inr \<lparr>kernelPath = kernel, rootfsPath = rootfs\<rparr>, w6)) = (r, w')"
      using load by simp
    show ?thesis
    proof (cases "v = Inr () \<and> u = Inr ()")
      case True
      with l have "r = Inr \<lparr>kernelPath = kernel, rootfsPath = rootfs\<rparr>" "w' = w6" by auto
      moreover have pins: "kpin \<noteq> [] \<and> pinned g (fs w) kernel kpin" "fpin \<noteq> [] \<and> pinned g (fs w) rootfs fpin"
        using True verifyPinnedDigest_D [OF v] verifyPinnedDigest_D [OF u] fr by simp_all
      moreover have "\<exists>x \<in> set (guestArtifactRoots h). pinned g (fs w) kernel (path_join [x, guestKernelShaRel])"
          "\<exists>x \<in> set (guestArtifactRoots h). pinned g (fs w) rootfs (path_join [x, guestRootfsShaRel])"
        using pins resolveGuestArtifact_D [OF kp] resolveGuestArtifact_D [OF fp] by blast+
      moreover have "\<exists>x \<in> set (guestArtifactRoots h). kernel = path_join [x, guestKernelRel]"
          "\<exists>x \<in> set (guestArtifactRoots h). rootfs = path_join [x, guestRootfsRel]"
        using False resolveGuestArtifact_D [OF k] resolveGuestArtifact_D [OF f] by blast+
      ultimately show ?thesis
        using fr(6,10) by (simp only: sum.inject guestArtifacts.select_convs simp_thms)
    next
      case no: False
      have "r \<noteq> Inr a" "w' = w4 \<or> w' = w6" for a
        using l no by (auto split: sum.splits)
      then show ?thesis using fr by blast
    qed
  qed
qed


section \<open>Witnesses\<close>

lemma sample_sha: "length (g_sha256 sample_lib b) = 32"
  by (simp add: sample_lib_def)

lemma loadTier1Seccomp_fail_closed_witness:
  "fst (loadTier1Seccomp sample_lib ''bpf'' (hex_encode (replicate 32 CHR ''b'') @ ''  tier1.bpf'' @ [CHR 0x0A])
     sample_host bare_world) = Inr ''bpf''"
proof -
  let ?pin = "hex_encode (g_sha256 sample_lib ''bpf'') @ ''  tier1.bpf'' @ [CHR 0x0A]"
  have d: "g_sha256 sample_lib ''bpf'' = replicate 32 CHR ''b''" by (simp add: sample_lib_def)
  have calm: "\<forall>n op. h_fault sample_host n op = None" by (simp add: sample_host_def)
  have len: "\<forall>b. length (g_sha256 sample_lib b) = 32" using sample_sha by blast
  show ?thesis
    using loadTier1Seccomp_fail_closed [OF len, of "''bpf''" ?pin sample_host bare_world] calm
    unfolding d by blast
qed

definition guest_world :: "bytes \<Rightarrow> world" where
  "guest_world rootfs = \<lparr>fs =
     [(''/opt/guest/kernel/vmlinux-6.1.176'', FileN 0x1A4 ''kernel''),
      (''/opt/guest/kernel/vmlinux.sha256'', FileN 0x1A4 (hex_encode (replicate 32 CHR ''k'') @ ''  vmlinux'')),
      (''/opt/guest/rootfs/base.ext4'', FileN 0x1A4 rootfs),
      (''/opt/guest/rootfs/base.ext4.sha256'', FileN 0x1A4 (hex_encode (replicate 32 CHR ''r'') @ ''  base.ext4''))],
    tick = 0, effects = []\<rparr>"

lemma guest_paths:
  "path_join [''/opt'', guestKernelRel] = ''/opt/guest/kernel/vmlinux-6.1.176''"
  "path_join [''/opt'', guestKernelShaRel] = ''/opt/guest/kernel/vmlinux.sha256''"
  "path_join [''/opt'', guestRootfsRel] = ''/opt/guest/rootfs/base.ext4''"
  "path_join [''/opt'', guestRootfsShaRel] = ''/opt/guest/rootfs/base.ext4.sha256''"
  by (simp_all add: path_join.simps path_clean_def is_abs_def guestKernelRel_def guestKernelShaRel_def
      guestRootfsRel_def guestRootfsShaRel_def)

lemma sample_roots: "guestArtifactRoots sample_host = [''/opt'', ''/opt'', ''.'']"
  by (simp add: guestArtifactRoots_def sample_host_def path_dir_def last_index_byte_def path_clean_def is_abs_def)

lemma first_pin_word:
  "\<exists>ws. Go_Text.fields (hex_encode (replicate 32 c) @ '' '' @ r) = hex_encode (replicate 32 c) # ws"
proof -
  have "hex_encode (replicate 32 c) \<noteq> []"
    by (metis length_hex_encode length_replicate list.size(3) mult_eq_0_iff zero_neq_numeral)
  then show ?thesis using fields_word_blank [OF plain_hex_encode] by simp
qed

lemma guest_loads:
  assumes "\<And>q v. map_of (fs (guest_world ''rootfs'')) q = Some v \<Longrightarrow> map_of (fs w) q = Some v"
  shows "\<exists>w'. loadGuestArtifacts sample_lib sample_host w =
      (Inr \<lparr>kernelPath = ''/opt/guest/kernel/vmlinux-6.1.176'', rootfsPath = ''/opt/guest/rootfs/base.ext4''\<rparr>, w')"
proof -
  have calm: "h_fault sample_host n op = None" for n op by (simp add: sample_host_def)
  obtain ws where kf: "Go_Text.fields (hex_encode (replicate 32 CHR ''k'') @ '' '' @ '' vmlinux'') =
      hex_encode (replicate 32 CHR ''k'') # ws" using first_pin_word by blast
  obtain vs where rf: "Go_Text.fields (hex_encode (replicate 32 CHR ''r'') @ '' '' @ '' base.ext4'') =
      hex_encode (replicate 32 CHR ''r'') # vs" using first_pin_word by blast
  have sha: "g_sha256 sample_lib (c # r) = replicate 32 c" for c r by (simp add: sample_lib_def)
  have resolve: "resolveGuestArtifact sample_host rel w = (path_join [''/opt'', rel], w\<lparr>tick := Suc (tick w)\<rparr>)"
    if "map_of (fs w) (path_join [''/opt'', rel]) \<noteq> None" for rel w
    using that by (auto simp: resolveGuestArtifact_def sample_roots os_stat_def sys_def calm Let_def)
  have verify: "verifyPinnedDigest sample_lib sample_host a p w = (Inr (), w\<lparr>tick := Suc (Suc (tick w))\<rparr>)"
    if "map_of (fs w) a = Some (FileN m (c # r))" "p \<noteq> []" "map_of (fs w) p = Some (FileN m' raw)"
      "Go_Text.fields raw = hex_encode (replicate 32 c) # us" for a p w m c r m' raw us
    using that by (simp add: verifyPinnedDigest_def readPinnedDigest_def fileSHA256_def os_read_file_def
        sys_def calm to_lower_hex_encode sha)
  have here:
    "map_of (fs w) ''/opt/guest/kernel/vmlinux-6.1.176'' = Some (FileN 0x1A4 ''kernel'')"
    "map_of (fs w) ''/opt/guest/kernel/vmlinux.sha256'' = Some (FileN 0x1A4 (hex_encode (replicate 32 CHR ''k'') @ ''  vmlinux''))"
    "map_of (fs w) ''/opt/guest/rootfs/base.ext4'' = Some (FileN 0x1A4 ''rootfs'')"
    "map_of (fs w) ''/opt/guest/rootfs/base.ext4.sha256'' = Some (FileN 0x1A4 (hex_encode (replicate 32 CHR ''r'') @ ''  base.ext4''))"
    by (rule assms, simp add: guest_world_def)+
  show ?thesis
    using kf rf
    by (simp add: loadGuestArtifacts_def resolve guest_paths here
        verify [where c = "CHR ''k''"] verify [where c = "CHR ''r''"])
qed


end
