(* ===== verification/Bwrap.thy ===== *)
theory Bwrap
  imports Backend Creds Pins
begin

text \<open>
  The Tier-1 backend of run.go: the environment pairs, the bubblewrap argument vector, the
  environment pipe behind \<open>--args\<close> and \<open>bubblewrapBackend.Argv\<close>, which meets the contract
  \<open>tier_backend\<close> of theory Backend.

  bubblewrap itself is not modelled; \<open>parse_opts\<close> states how its manual says an argument vector
  is read (options with a fixed number of operands, then the command), which is what makes
  statements about injected options possible.
\<close>

record embedded =
  tier1SeccompBlob :: bytes
  tier1SeccompPin :: string

section \<open>The environment\<close>

definition envSetenvPairs :: "string amap \<Rightarrow> (string \<times> string) list" where
  "envSetenvPairs env =
     (''PATH'', case map_of env ''PATH'' of Some p \<Rightarrow> p | None \<Rightarrow> ''/usr/bin:/bin'') #
     map (\<lambda>k. (k, the (map_of env k))) (sort (filter (\<lambda>k. k \<noteq> ''PATH'') (keys env)))"

definition envList :: "string amap \<Rightarrow> string list" where
  "envList env = map (\<lambda>(k, v). k @ ''='' @ v) (envSetenvPairs env)"

definition setenv_args :: "(string \<times> string) list \<Rightarrow> string list" where
  "setenv_args kvs = concat (map (\<lambda>(k, v). [''--setenv'', k, v]) kvs)"

definition env_pipe_args :: "string amap \<Rightarrow> (string \<times> string) list \<Rightarrow> string list" where
  "env_pipe_args env envCreds = [''--clearenv''] @ setenv_args (envSetenvPairs env) @ setenv_args envCreds"

definition NUL :: string where
  "NUL = [CHR 0x00]"

definition bwrapEnvArgsPipe ::
  "host \<Rightarrow> string amap \<Rightarrow> (string \<times> string) list \<Rightarrow> world \<Rightarrow> bytes res \<times> world" where
  "bwrapEnvArgsPipe h env envCreds w = (case sys h OpPipe w of
     (Some (Fault e r), w1) \<Rightarrow> (Inl e, w1)
   | (None, w1) \<Rightarrow> (Inr (join NUL (env_pipe_args env envCreds) @ NUL), w1))"

section \<open>The argument vector\<close>

fun system_binds :: "host \<Rightarrow> string list \<Rightarrow> world \<Rightarrow> string list \<times> world" where
  "system_binds h [] w = ([], w)"
| "system_binds h (d # ds) w =
     (let (r, w1) = os_stat h d w; (rest_args, w2) = system_binds h ds w1
      in ((case r of Inr _ \<Rightarrow> [''--ro-bind'', d, d] | Inl _ \<Rightarrow> []) @ rest_args, w2))"

definition bwrapArgv ::
  "host \<Rightarrow> string \<Rightarrow> string \<Rightarrow> string \<Rightarrow> string list \<Rightarrow> string amap \<Rightarrow> int \<Rightarrow> string list \<Rightarrow> int \<Rightarrow> int \<Rightarrow>
   world \<Rightarrow> string list \<times> world" where
  "bwrapArgv h scriptPath proxySock workdir fileReads env diskBytes finalCmd envCredsFD seccompFD w =
     (let argv = [''bwrap'', ''--seccomp'', itoa seccompFD,
            ''--ro-bind'', ''/usr'', ''/usr'', ''--ro-bind'', ''/etc'', ''/etc'',
            ''--proc'', ''/proc'', ''--dev'', ''/dev''];
          argv = argv @ (if diskBytes > 0 then [''--size'', itoa diskBytes, ''--tmpfs'', ''/tmp'']
                         else [''--tmpfs'', ''/tmp'']);
          argv = argv @ [''--ro-bind'', scriptPath, ''/payload.sh'', ''--bind'', proxySock, ''/proxy.sock'',
            ''--unshare-all'', ''--die-with-parent''];
          argv = argv @ (if envCredsFD \<ge> 0 then [''--args'', itoa envCredsFD]
                         else [''--clearenv''] @ setenv_args (envSetenvPairs env));
          (binds, w1) = system_binds h [''/bin'', ''/lib'', ''/lib64'', ''/sbin''] w;
          argv = argv @ binds @ concat (map (\<lambda>p. [''--ro-bind'', p, p]) fileReads);
          argv = argv @ (if workdir \<noteq> [] then [''--bind'', workdir, ''/work'', ''--chdir'', ''/work''] else [])
      in (argv @ finalCmd, w1))"

definition add_affinity :: "host \<Rightarrow> int \<Rightarrow> string list \<Rightarrow> degrade list \<Rightarrow> string list \<times> degrade list" where
  "add_affinity h cpuCount argv degrades = (case cpuAffinityPrefix h cpuCount of
     (_, Some d) \<Rightarrow> (argv, degrades @ [d])
   | (Some pre, None) \<Rightarrow> (pre @ argv, degrades)
   | (None, None) \<Rightarrow> (argv, degrades))"

definition bubblewrap_Argv ::
  "golib \<Rightarrow> embedded \<Rightarrow> host \<Rightarrow> string \<Rightarrow> string \<Rightarrow> string \<Rightarrow> string list \<Rightarrow> string amap \<Rightarrow>
   (string \<times> string) list \<Rightarrow> limits \<Rightarrow> world \<Rightarrow> prep res \<times> world" where
  "bubblewrap_Argv g emb h scriptPath proxySock workdir fileReads env envCreds lm w =
     (let (diskBytes, degrades) =
            (if DiskMB lm > 0 then
               if h_disk_quota h then (wrap64 (wrap64 (DiskMB lm * 1024) * 1024), []) else (0, [disk_degrade])
             else (0, []))
      in case prlimitWrap h lm [''/usr/bin/sh'', ''/payload.sh''] of
        Inl e \<Rightarrow> (Inl e, w)
      | Inr inner \<Rightarrow> (case loadTier1Seccomp g (tier1SeccompBlob emb) (tier1SeccompPin emb) h w of
          (Inl e, w1) \<Rightarrow> (Inl e, w1)
        | (Inr seccompFile, w1) \<Rightarrow>
           (case (if envCreds \<noteq> [] then
                    (case bwrapEnvArgsPipe h env envCreds w1 of
                       (Inl e, w2) \<Rightarrow> (Inl e, w2)
                     | (Inr pr, w2) \<Rightarrow> (Inr ([seccompFile, pr], 4), w2))
                  else (Inr ([seccompFile], - 1), w1)) of
              (Inl e, w2) \<Rightarrow> (Inl e, w2)
            | (Inr (extraFiles, envCredsFD), w2) \<Rightarrow>
               (let (argv, w3) = bwrapArgv h scriptPath proxySock workdir fileReads env diskBytes inner
                      envCredsFD 3 w2;
                    (argv', degrades') = add_affinity h (CPUCount lm) argv degrades
                in (Inr \<lparr>p_argv = argv', p_cleanup = None, p_degrades = degrades',
                      p_files = extraFiles\<rparr>, w3)))))"

section \<open>How bubblewrap reads its arguments\<close>

datatype bopt =
    Seccomp string
  | RoBind string string
  | Bind string string
  | Proc string
  | Dev string
  | Size string
  | Tmpfs string
  | UnshareAll
  | ShareNet
  | DieWithParent
  | ArgsFD string
  | ClearEnv
  | SetEnv string string
  | Chdir string
  | Uid string
  | Gid string
  | DevBind string string

definition opt0 :: "string \<Rightarrow> bopt option" where
  "opt0 = map_of [(''--unshare-all'', UnshareAll), (''--share-net'', ShareNet),
     (''--die-with-parent'', DieWithParent), (''--clearenv'', ClearEnv)]"

definition opt1 :: "string \<Rightarrow> (string \<Rightarrow> bopt) option" where
  "opt1 = map_of [(''--seccomp'', Seccomp), (''--proc'', Proc), (''--dev'', Dev), (''--size'', Size),
     (''--tmpfs'', Tmpfs), (''--args'', ArgsFD), (''--chdir'', Chdir),
     (''--uid'', Uid), (''--gid'', Gid)]"

definition opt2 :: "string \<Rightarrow> (string \<Rightarrow> string \<Rightarrow> bopt) option" where
  "opt2 = map_of [(''--ro-bind'', RoBind), (''--bind'', Bind), (''--setenv'', SetEnv),
     (''--dev-bind'', DevBind)]"

definition cons_opt :: "bopt \<Rightarrow> (bopt list \<times> string list) option \<Rightarrow> (bopt list \<times> string list) option" where
  "cons_opt x r = map_option (\<lambda>(xs, cmd). (x # xs, cmd)) r"

fun parse_opts :: "string list \<Rightarrow> (bopt list \<times> string list) option" where
  "parse_opts [] = Some ([], [])"
| "parse_opts (a # r) =
     (if \<not> prefix ''-'' a then Some ([], a # r)
      else if a = ''--'' then Some ([], r)
      else case opt0 a of
        Some x \<Rightarrow> cons_opt x (parse_opts r)
      | None \<Rightarrow> (case opt1 a of
          Some f \<Rightarrow> (case r of x # r' \<Rightarrow> cons_opt (f x) (parse_opts r') | [] \<Rightarrow> None)
        | None \<Rightarrow> (case opt2 a of
            Some f \<Rightarrow> (case r of x # y # r' \<Rightarrow> cons_opt (f x y) (parse_opts r') | _ \<Rightarrow> None)
          | None \<Rightarrow> None)))"

fun render :: "bopt \<Rightarrow> string list" where
  "render (Seccomp n) = [''--seccomp'', n]"
| "render (RoBind s d) = [''--ro-bind'', s, d]"
| "render (Bind s d) = [''--bind'', s, d]"
| "render (Proc d) = [''--proc'', d]"
| "render (Dev d) = [''--dev'', d]"
| "render (Size n) = [''--size'', n]"
| "render (Tmpfs d) = [''--tmpfs'', d]"
| "render UnshareAll = [''--unshare-all'']"
| "render ShareNet = [''--share-net'']"
| "render DieWithParent = [''--die-with-parent'']"
| "render (ArgsFD n) = [''--args'', n]"
| "render ClearEnv = [''--clearenv'']"
| "render (SetEnv k v) = [''--setenv'', k, v]"
| "render (Chdir d) = [''--chdir'', d]"
| "render (Uid n) = [''--uid'', n]"
| "render (Gid n) = [''--gid'', n]"
| "render (DevBind s d) = [''--dev-bind'', s, d]"

definition is_cmd :: "string list \<Rightarrow> bool" where
  "is_cmd cmd \<longleftrightarrow> (case cmd of [] \<Rightarrow> True | c # _ \<Rightarrow> \<not> prefix ''-'' c)"

lemma parse_opts_cmd: "is_cmd cmd \<Longrightarrow> parse_opts cmd = Some ([], cmd)"
  by (cases cmd) (simp_all add: is_cmd_def)

lemma parse_opts_render:
  "parse_opts (render x @ r) = cons_opt x (parse_opts r)"
  by (cases x) (simp_all add: opt0_def opt1_def opt2_def)

lemma parse_opts_renders:
  assumes "is_cmd cmd"
  shows "parse_opts (concat (map render xs) @ cmd) = Some (xs, cmd)"
proof (induction xs)
  case (Cons x xs)
  then show ?case
    using parse_opts_render [of x "concat (map render xs) @ cmd"] by (simp add: cons_opt_def)
qed (simp add: parse_opts_cmd assms)

text \<open>
  The descriptor named by \<open>--args\<close> carries NUL-terminated arguments read in its place; \<open>eff\<close> is
  the option list bubblewrap acts on, \<open>run_env\<close> the environment its options leave.
\<close>

definition read_args :: "bytes \<Rightarrow> bopt list option" where
  "read_args d = (case parse_opts (butlast (split_on CHR 0x00 d)) of
     Some (xs, []) \<Rightarrow> Some xs | _ \<Rightarrow> None)"

fun eff :: "bytes list \<Rightarrow> bopt list \<Rightarrow> bopt list option" where
  "eff files [] = Some []"
| "eff files (x # xs) = (case (case x of
      ArgsFD n \<Rightarrow> (case atoi n of
          Some fd \<Rightarrow> if 3 \<le> fd \<and> nat fd - 3 < length files then read_args (files ! (nat fd - 3)) else None
        | None \<Rightarrow> None)
    | _ \<Rightarrow> Some [x]) of
     None \<Rightarrow> None
   | Some ys \<Rightarrow> map_option ((@) ys) (eff files xs))"

fun env_step :: "bopt \<Rightarrow> (string \<rightharpoonup> string) \<Rightarrow> (string \<rightharpoonup> string)" where
  "env_step ClearEnv m = Map.empty"
| "env_step (SetEnv k v) m = m(k \<mapsto> v)"
| "env_step _ m = m"

definition run_env :: "bopt list \<Rightarrow> (string \<rightharpoonup> string) \<Rightarrow> (string \<rightharpoonup> string)" where
  "run_env xs m = fold env_step xs m"

definition binds :: "bopt list \<Rightarrow> (string \<times> string) set" where
  "binds xs = {(s, d). Bind s d \<in> set xs}"

definition no_nul :: "(string \<times> string) list \<Rightarrow> bool" where
  "no_nul kvs \<longleftrightarrow> list_all (\<lambda>(k, v). CHR 0x00 \<notin> set k \<and> CHR 0x00 \<notin> set v) kvs"

definition setenv_opts :: "(string \<times> string) list \<Rightarrow> bopt list" where
  "setenv_opts kvs = map (\<lambda>(k, v). SetEnv k v) kvs"

lemma setenv_args_render: "setenv_args kvs = concat (map render (setenv_opts kvs))"
  by (induction kvs) (auto simp: setenv_args_def setenv_opts_def)

lemma set_setenv_opts: "set (setenv_opts kvs) = (\<lambda>(k, v). SetEnv k v) ` set kvs"
  by (auto simp: setenv_opts_def)

lemma run_env_setenv: "run_env (setenv_opts kvs) m = m ++ map_of (rev kvs)"
  by (induction kvs arbitrary: m)
    (auto simp: run_env_def setenv_opts_def map_add_def fun_eq_iff split: option.splits)

lemma map_of_rev_distinct: "distinct (map fst xs) \<Longrightarrow> map_of (rev xs) = map_of xs"
  by (induction xs) (auto simp: map_add_upd_left dom_map_of_conv_image_fst)

lemma map_of_restrict:
  "map_of (map (\<lambda>k. (k, f k)) ks) x = (if x \<in> set ks then Some (f x) else None)"
  by (induction ks) auto

lemma envSetenvPairs_map:
  assumes "wf_map env"
  shows "distinct (map fst (envSetenvPairs env)) \<and>
    map_of (envSetenvPairs env) = [''PATH'' \<mapsto> ''/usr/bin:/bin''] ++ map_of env"
proof
  let ?ks = "sort (filter (\<lambda>k. k \<noteq> ''PATH'') (keys env))"
  show "distinct (map fst (envSetenvPairs env))"
    using assms by (auto simp: envSetenvPairs_def wf_map_def comp_def)
  show "map_of (envSetenvPairs env) = [''PATH'' \<mapsto> ''/usr/bin:/bin''] ++ map_of env"
  proof
    fix x
    show "map_of (envSetenvPairs env) x = ([''PATH'' \<mapsto> ''/usr/bin:/bin''] ++ map_of env) x"
    proof (cases "x = ''PATH''")
      case False
      have "x \<in> set ?ks \<longleftrightarrow> map_of env x \<noteq> None"
        using False by (auto simp: map_of_eq_None_iff)
      with False show ?thesis
        by (auto simp: envSetenvPairs_def map_of_restrict map_add_def split: option.splits)
    qed (simp add: envSetenvPairs_def map_add_def split: option.splits)
  qed
qed

lemma no_nul_envSetenvPairs:
  assumes "no_nul env"
  shows "no_nul (envSetenvPairs env)"
proof -
  have v: "map_of env k = Some x \<Longrightarrow> CHR 0x00 \<notin> set x" for k x
    using assms by (auto simp: no_nul_def list_all_iff dest!: map_of_SomeD)
  have k: "k \<in> set (keys env) \<Longrightarrow> CHR 0x00 \<notin> set k" for k
    using assms by (auto simp: no_nul_def list_all_iff)
  have d: "k \<in> set (keys env) \<Longrightarrow> \<exists>x. map_of env k = Some x" for k
    using map_of_eq_None_iff [of env k] by (cases "map_of env k") auto
  show ?thesis
    using v k d by (fastforce simp: no_nul_def envSetenvPairs_def list_all_iff split: option.splits)
qed

lemma read_args_pipe:
  assumes "no_nul env" and "no_nul envCreds"
  shows "read_args (join NUL (env_pipe_args env envCreds) @ NUL) =
    Some (ClearEnv # setenv_opts (envSetenvPairs env) @ setenv_opts envCreds)"
proof -
  let ?as = "env_pipe_args env envCreds"
  let ?xs = "ClearEnv # setenv_opts (envSetenvPairs env) @ setenv_opts envCreds"
  have r: "?as = concat (map render ?xs)"
    by (simp add: env_pipe_args_def setenv_args_render)
  have n: "no_nul kvs \<Longrightarrow> \<forall>a \<in> set (setenv_args kvs). CHR 0x00 \<notin> set a" for kvs
    by (auto simp: no_nul_def setenv_args_def list_all_iff)
  have "\<forall>a \<in> set ?as. CHR 0x00 \<notin> set a"
    using n [OF assms(2)] n [OF no_nul_envSetenvPairs [OF assms(1)]]
    unfolding env_pipe_args_def by auto
  then have "split_on CHR 0x00 (join NUL (?as @ [[]])) = ?as @ [[]]"
    unfolding NUL_def by (intro split_on_join) auto
  moreover have "join NUL (?as @ [[]]) = join NUL ?as @ NUL"
    using join_snoc [of ?as NUL "[]"] by (simp add: env_pipe_args_def)
  ultimately have "butlast (split_on CHR 0x00 (join NUL ?as @ NUL)) = ?as"
    by simp
  then show ?thesis
    using parse_opts_renders [of "[]" ?xs] r by (simp only: read_args_def) (simp add: is_cmd_def)
qed

lemma eff_append: "eff files (xs @ ys) =
    (case eff files xs of None \<Rightarrow> None | Some as \<Rightarrow> map_option ((@) as) (eff files ys))"
  by (induction xs) (auto simp: option.map_comp comp_def map_option_case split: option.splits)

definition plain_opt :: "bopt \<Rightarrow> bool" where
  "plain_opt x \<longleftrightarrow> (\<forall>n. x \<noteq> ArgsFD n)"

lemma eff_plain: "list_all plain_opt xs \<Longrightarrow> eff files xs = Some xs"
  by (induction xs) (auto simp: plain_opt_def split: bopt.splits)

lemma plain_setenv: "list_all plain_opt (setenv_opts kvs)"
  by (auto simp: setenv_opts_def list_all_iff plain_opt_def)

section \<open>What the argument vector says\<close>

definition head_opts :: "string \<Rightarrow> string \<Rightarrow> int \<Rightarrow> int \<Rightarrow> bopt list" where
  "head_opts scriptPath proxySock diskBytes seccompFD =
     [Seccomp (itoa seccompFD), RoBind ''/usr'' ''/usr'', RoBind ''/etc'' ''/etc'', Proc ''/proc'', Dev ''/dev''] @
     (if diskBytes > 0 then [Size (itoa diskBytes)] else []) @ [Tmpfs ''/tmp''] @
     [RoBind scriptPath ''/payload.sh'', Bind proxySock ''/proxy.sock'', UnshareAll, DieWithParent]"

definition tail_opts :: "string list \<Rightarrow> string list \<Rightarrow> string \<Rightarrow> bopt list" where
  "tail_opts dirs fileReads workdir =
     map (\<lambda>d. RoBind d d) (dirs @ fileReads) @
     (if workdir \<noteq> [] then [Bind workdir ''/work'', Chdir ''/work''] else [])"

lemma system_binds_render:
  assumes "system_binds h ds w = (as, w')"
  shows "\<exists>dirs. as = concat (map render (map (\<lambda>d. RoBind d d) dirs)) \<and> set dirs \<subseteq> set ds \<and>
    fs w' = fs w \<and> effects w' = effects w"
  using assms
proof (induction ds arbitrary: w as w')
  case Nil
  then show ?case by (intro exI [of _ "[]"]) simp
next
  case (Cons d ds)
  obtain r w1 where st: "os_stat h d w = (r, w1)" by fastforce
  obtain bs w2 where sb: "system_binds h ds w1 = (bs, w2)" by fastforce
  from Cons.IH [OF sb] obtain dirs where ih: "bs = concat (map render (map (\<lambda>d. RoBind d d) dirs))"
      "set dirs \<subseteq> set ds" "fs w2 = fs w1" "effects w2 = effects w1" by blast
  show ?case
    using Cons.prems ih os_stat_D [OF st]
    by (intro exI [of _ "(case r of Inr _ \<Rightarrow> [d] | Inl _ \<Rightarrow> []) @ dirs"])
      (auto simp: st sb Let_def split: sum.splits)
qed

lemma bwrapArgv_render:
  assumes "bwrapArgv h scriptPath proxySock workdir fileReads env diskBytes finalCmd envFD secFD w = (argv, w')"
  shows "\<exists>dirs. argv = ''bwrap'' # concat (map render
      (head_opts scriptPath proxySock diskBytes secFD @
       (if envFD \<ge> 0 then [ArgsFD (itoa envFD)] else ClearEnv # setenv_opts (envSetenvPairs env)) @
       tail_opts dirs fileReads workdir)) @ finalCmd \<and>
    set dirs \<subseteq> {''/bin'', ''/lib'', ''/lib64'', ''/sbin''} \<and> fs w' = fs w \<and> effects w' = effects w"
proof -
  obtain bs w1 where sb: "system_binds h [''/bin'', ''/lib'', ''/lib64'', ''/sbin''] w = (bs, w1)" by fastforce
  from system_binds_render [OF sb] obtain dirs where d: "bs = concat (map render (map (\<lambda>d. RoBind d d) dirs))"
      "set dirs \<subseteq> {''/bin'', ''/lib'', ''/lib64'', ''/sbin''}" "fs w1 = fs w" "effects w1 = effects w"
    by auto
  have reads: "concat (map (\<lambda>p. [''--ro-bind'', p, p]) fileReads) =
      concat (map render (map (\<lambda>d. RoBind d d) fileReads))"
    by (simp add: comp_def)
  show ?thesis
    using assms d reads
    by (intro exI [of _ dirs])
      (auto simp: bwrapArgv_def sb Let_def head_opts_def tail_opts_def setenv_args_render simp del: map_map
        system_binds.simps)
qed

lemma bubblewrap_Argv_D:
  assumes "bubblewrap_Argv g emb h scriptPath proxySock workdir fileReads env envCreds lm w = (Inr p, w')"
  obtains pre inner files fd dirs disk where
    "p_argv p = pre @ ''bwrap'' # concat (map render (head_opts scriptPath proxySock disk 3 @
       (if fd \<ge> 0 then [ArgsFD (itoa fd)] else ClearEnv # setenv_opts (envSetenvPairs env)) @
       tail_opts dirs fileReads workdir)) @ inner"
    and "prlimitWrap h lm [''/usr/bin/sh'', ''/payload.sh''] = Inr inner"
    and "set dirs \<subseteq> {''/bin'', ''/lib'', ''/lib64'', ''/sbin''}"
    and "p_files p = files" and "p_cleanup p = None"
    and "(files, fd) = (if envCreds = [] then ([tier1SeccompBlob emb], - 1)
       else ([tier1SeccompBlob emb, join NUL (env_pipe_args env envCreds) @ NUL], 4))"
    and "verifyTier1SeccompBytes g (tier1SeccompBlob emb) (tier1SeccompPin emb) = Inr ()"
    and "fst (add_affinity h (CPUCount lm) [] []) = pre"
proof -
  obtain disk degrades where dd: "(if DiskMB lm > 0 then
      if h_disk_quota h then (wrap64 (wrap64 (DiskMB lm * 1024) * 1024), []) else (0, [disk_degrade])
      else (0, [])) = (disk, degrades)" by fastforce
  from assms obtain inner where inner: "prlimitWrap h lm [''/usr/bin/sh'', ''/payload.sh''] = Inr inner"
    by (auto simp: bubblewrap_Argv_def dd split: sum.splits)
  from assms inner obtain sec w1 where sec: "loadTier1Seccomp g (tier1SeccompBlob emb) (tier1SeccompPin emb) h w = (Inr sec, w1)"
    by (auto simp: bubblewrap_Argv_def dd split: sum.splits prod.splits)
  note blob = loadTier1Seccomp_Inr [of g "tier1SeccompBlob emb" "tier1SeccompPin emb" h w sec] sec
  let ?files = "if envCreds = [] then [tier1SeccompBlob emb]
      else [tier1SeccompBlob emb, join NUL (env_pipe_args env envCreds) @ NUL]"
  let ?fd = "if envCreds = [] then - 1 else 4 :: int"
  from assms inner sec blob obtain w2 argv w3 where
    argv: "bwrapArgv h scriptPath proxySock workdir fileReads env disk inner ?fd 3 w2 = (argv, w3)"
    and p: "p_argv p = fst (add_affinity h (CPUCount lm) argv degrades)" "p_files p = ?files" "p_cleanup p = None"
    by (auto simp: bubblewrap_Argv_def dd bwrapEnvArgsPipe_def Let_def
        split: sum.splits prod.splits if_splits option.splits fault.splits)
  have pre: "fst (add_affinity h c xs ds) = fst (add_affinity h c [] []) @ xs" for c xs ds
    by (auto simp: add_affinity_def split: prod.splits option.splits)
  from bwrapArgv_render [OF argv] obtain dirs where dirs:
      "argv = ''bwrap'' # concat (map render (head_opts scriptPath proxySock disk 3 @
       (if ?fd \<ge> 0 then [ArgsFD (itoa ?fd)] else ClearEnv # setenv_opts (envSetenvPairs env)) @
       tail_opts dirs fileReads workdir)) @ inner"
      "set dirs \<subseteq> {''/bin'', ''/lib'', ''/lib64'', ''/sbin''}" by blast
  have a: "p_argv p = fst (add_affinity h (CPUCount lm) [] []) @ argv"
    using p(1) pre [of "CPUCount lm" argv degrades] by (rule trans)
  show thesis
  proof (rule that [of "fst (add_affinity h (CPUCount lm) [] [])" disk ?fd dirs inner ?files])
    show "verifyTier1SeccompBytes g (tier1SeccompBlob emb) (tier1SeccompPin emb) = Inr ()"
      using blob by simp
    show "p_argv p = fst (add_affinity h (CPUCount lm) [] []) @ ''bwrap'' # concat (map render (head_opts scriptPath proxySock disk 3 @
       (if ?fd \<ge> 0 then [ArgsFD (itoa ?fd)] else ClearEnv # setenv_opts (envSetenvPairs env)) @
       tail_opts dirs fileReads workdir)) @ inner"
      using a unfolding dirs(1) .
  qed (use inner dirs(2) p in simp_all)
qed

lemma prlimitWrap_is_cmd:
  assumes "prlimitWrap h lm cmd = Inr inner" and "is_cmd cmd"
    and "\<forall>b q. h_lookpath h b = Inr q \<longrightarrow> \<not> prefix ''-'' q"
  shows "is_cmd inner"
proof -
  have "is_cmd (q # r)" if "h_lookpath h b = Inr q" for b q r
    using assms(3) that by (simp add: is_cmd_def)
  then show ?thesis
    using assms(1,2) by (auto simp: prlimitWrap_def Let_def split: if_splits sum.splits)
qed

lemma run_env_append: "run_env (xs @ ys) m = run_env ys (run_env xs m)"
  by (simp add: run_env_def)

lemma run_env_ClearEnv: "run_env (ClearEnv # xs) m = run_env xs Map.empty"
  by (simp add: run_env_def)

definition env_free :: "bopt \<Rightarrow> bool" where
  "env_free x \<longleftrightarrow> x \<noteq> ClearEnv \<and> (\<forall>k v. x \<noteq> SetEnv k v)"

lemma run_env_free: "list_all env_free xs \<Longrightarrow> run_env xs m = m"
proof (induction xs)
  case (Cons x xs)
  then show ?case by (cases x) (simp_all add: run_env_def env_free_def)
qed (simp add: run_env_def)

lemma head_tail_free:
  "list_all env_free (head_opts a b c d)" "list_all env_free (tail_opts x y z)"
  "list_all plain_opt (head_opts a b c d)" "list_all plain_opt (tail_opts x y z)"
  by (auto simp: head_opts_def tail_opts_def env_free_def plain_opt_def list_all_iff)

lemma ro_binds:
  "RoBind s d \<in> set (head_opts a b c e) \<longleftrightarrow>
    (s, d) \<in> {(a, ''/payload.sh''), (''/usr'', ''/usr''), (''/etc'', ''/etc'')}"
  "RoBind s d \<in> set (tail_opts dirs reads wd) \<longleftrightarrow> s = d \<and> d \<in> set dirs \<union> set reads"
  by (auto simp: head_opts_def tail_opts_def)

lemma atoi_4: "atoi (itoa 4) = Some 4"
  by (rule atoi_itoa) (simp add: in_int64_def)

lemma eff_argv:
  assumes "envCreds = [] \<or> no_nul env \<and> no_nul envCreds"
    and "(files, fd) = (if envCreds = [] then ([blob], - 1)
       else ([blob, join NUL (env_pipe_args env envCreds) @ NUL], 4 :: int))"
  shows "eff files (head_opts a b c d @
       (if fd \<ge> 0 then [ArgsFD (itoa fd)] else ClearEnv # setenv_opts (envSetenvPairs env)) @ tail_opts x y z) =
     Some (head_opts a b c d @ (ClearEnv # setenv_opts (envSetenvPairs env) @ setenv_opts envCreds) @ tail_opts x y z)"
proof -
  have "eff files (if fd \<ge> 0 then [ArgsFD (itoa fd)] else ClearEnv # setenv_opts (envSetenvPairs env)) =
      Some (ClearEnv # setenv_opts (envSetenvPairs env) @ setenv_opts envCreds)"
  proof (cases "envCreds = []")
    case True
    with assms(2) show ?thesis
      by (simp add: setenv_opts_def eff_plain [unfolded setenv_opts_def, OF plain_setenv [unfolded setenv_opts_def]])
  next
    case False
    with assms show ?thesis by (simp add: read_args_pipe atoi_4)
  qed
  then show ?thesis
    by (simp add: eff_append eff_plain head_tail_free)
qed

text \<open>The options bubblewrap acts on: the environment options in the place of the pipe, if there is one.\<close>

definition all_opts ::
  "string \<Rightarrow> string \<Rightarrow> int \<Rightarrow> string amap \<Rightarrow> (string \<times> string) list \<Rightarrow> string list \<Rightarrow> string list \<Rightarrow> string \<Rightarrow> bopt list" where
  "all_opts scriptPath proxySock disk env envCreds dirs fileReads workdir =
     head_opts scriptPath proxySock disk 3 @
     (ClearEnv # setenv_opts (envSetenvPairs env) @ setenv_opts envCreds) @ tail_opts dirs fileReads workdir"

lemma set_env_opts:
  "set (ClearEnv # setenv_opts E @ setenv_opts C) \<subseteq> insert ClearEnv (range (\<lambda>(k, v). SetEnv k v))"
  by (auto simp: set_setenv_opts)

lemma all_opts_confine:
  "UnshareAll \<in> set (all_opts scriptPath proxySock disk env envCreds dirs fileReads workdir)"
  "DieWithParent \<in> set (all_opts scriptPath proxySock disk env envCreds dirs fileReads workdir)"
  "Seccomp (itoa 3) \<in> set (all_opts scriptPath proxySock disk env envCreds dirs fileReads workdir)"
  "ShareNet \<notin> set (all_opts scriptPath proxySock disk env envCreds dirs fileReads workdir)"
  "binds (all_opts scriptPath proxySock disk env envCreds dirs fileReads workdir) =
    {(proxySock, ''/proxy.sock'')} \<union> (if workdir = [] then {} else {(workdir, ''/work'')})"
  using set_env_opts [of "envSetenvPairs env" envCreds]
  by (auto simp: all_opts_def binds_def head_opts_def tail_opts_def)

lemma all_opts_ro:
  assumes "set dirs \<subseteq> {''/bin'', ''/lib'', ''/lib64'', ''/sbin''}"
  shows "\<forall>s d. RoBind s d \<in> set (all_opts scriptPath proxySock disk env envCreds dirs fileReads workdir) \<longrightarrow>
    (s, d) = (scriptPath, ''/payload.sh'') \<or> s = d \<and> d \<in> set fileReads \<or>
    s = d \<and> d \<in> {''/usr'', ''/etc'', ''/bin'', ''/lib'', ''/lib64'', ''/sbin''}"
proof (intro allI impI)
  fix s d
  assume "RoBind s d \<in> set (all_opts scriptPath proxySock disk env envCreds dirs fileReads workdir)"
  moreover have "RoBind s d \<notin> set (ClearEnv # setenv_opts (envSetenvPairs env) @ setenv_opts envCreds)"
    by (auto simp: setenv_opts_def)
  ultimately have "RoBind s d \<in> set (head_opts scriptPath proxySock disk 3) \<or> RoBind s d \<in> set (tail_opts dirs fileReads workdir)"
    unfolding all_opts_def set_append by blast
  then have "(s, d) \<in> {(scriptPath, ''/payload.sh''), (''/usr'', ''/usr''), (''/etc'', ''/etc'')} \<or>
      s = d \<and> d \<in> set dirs \<union> set fileReads"
    unfolding ro_binds by argo
  moreover have "d \<in> set dirs \<Longrightarrow> d \<in> {''/bin'', ''/lib'', ''/lib64'', ''/sbin''}"
    by (rule subsetD [OF assms])
  ultimately show "(s, d) = (scriptPath, ''/payload.sh'') \<or> s = d \<and> d \<in> set fileReads \<or>
      s = d \<and> d \<in> {''/usr'', ''/etc'', ''/bin'', ''/lib'', ''/lib64'', ''/sbin''}"
    by (elim disjE insertE conjE UnE emptyE) simp_all
qed

lemma all_opts_env:
  assumes "wf_map env"
  shows "run_env (all_opts scriptPath proxySock disk env envCreds dirs fileReads workdir) m =
    [''PATH'' \<mapsto> ''/usr/bin:/bin''] ++ map_of env ++ map_of (rev envCreds)"
proof -
  have "run_env (all_opts scriptPath proxySock disk env envCreds dirs fileReads workdir) m =
      run_env (setenv_opts envCreds) (run_env (setenv_opts (envSetenvPairs env)) Map.empty)"
    by (simp add: all_opts_def run_env_append run_env_free head_tail_free run_env_ClearEnv)
  then show ?thesis
    using envSetenvPairs_map [OF assms] by (simp add: run_env_setenv map_of_rev_distinct)
qed

text \<open>C6: The Tier-1 spawn confines the payload: whatever paths, environment and credentials a run has,
  bubblewrap reads the vector the backend builds as exactly one option list followed by the (possibly
  prlimit-wrapped) payload shell. In it every namespace is unshared and the network never shared
  again, the only writable host paths are the proxy socket and the workdir, everything else is bound
  read-only, the seccomp filter is on descriptor 3, which reads as the blob that passed the pin check,
  and the payload's environment is exactly the default PATH overridden by run.env overridden by the
  injected credentials. (Names and values delivered through the pipe contain no NUL byte.)\<close>

theorem bubblewrap_confines:
  assumes "bubblewrap_Argv g emb h scriptPath proxySock workdir fileReads env envCreds lm w = (Inr p, w')"
    and "\<forall>b q. h_lookpath h b = Inr q \<longrightarrow> \<not> prefix ''-'' q"
    and "envCreds = [] \<or> no_nul env \<and> no_nul envCreds" and "wf_map env"
  shows "\<exists>pre args opts inner acted. p_argv p = pre @ ''bwrap'' # args \<and>
    (pre = [] \<or> pre = [''taskset'', ''-c'', ''0-'' @ itoa (CPUCount lm - 1)]) \<and>
    parse_opts args = Some (opts, inner) \<and> eff (p_files p) opts = Some acted \<and>
    prlimitWrap h lm [''/usr/bin/sh'', ''/payload.sh''] = Inr inner \<and>
    UnshareAll \<in> set acted \<and> ShareNet \<notin> set acted \<and> DieWithParent \<in> set acted \<and>
    binds acted = {(proxySock, ''/proxy.sock'')} \<union> (if workdir = [] then {} else {(workdir, ''/work'')}) \<and>
    (\<forall>s d. RoBind s d \<in> set acted \<longrightarrow> (s, d) = (scriptPath, ''/payload.sh'') \<or> s = d \<and> d \<in> set fileReads \<or>
       s = d \<and> d \<in> {''/usr'', ''/etc'', ''/bin'', ''/lib'', ''/lib64'', ''/sbin''}) \<and>
    Seccomp (itoa 3) \<in> set acted \<and> p_files p ! 0 = tier1SeccompBlob emb \<and>
    verifyTier1SeccompBytes g (tier1SeccompBlob emb) (tier1SeccompPin emb) = Inr () \<and>
    run_env acted m = [''PATH'' \<mapsto> ''/usr/bin:/bin''] ++ map_of env ++ map_of (rev envCreds)"
proof -
  from assms(1) obtain pre inner files fd dirs disk where
    argv: "p_argv p = pre @ ''bwrap'' # concat (map render (head_opts scriptPath proxySock disk 3 @
       (if fd \<ge> 0 then [ArgsFD (itoa fd)] else ClearEnv # setenv_opts (envSetenvPairs env)) @
       tail_opts dirs fileReads workdir)) @ inner"
    and inner: "prlimitWrap h lm [''/usr/bin/sh'', ''/payload.sh''] = Inr inner"
    and dirs: "set dirs \<subseteq> {''/bin'', ''/lib'', ''/lib64'', ''/sbin''}"
    and files: "p_files p = files"
      "(files, fd) = (if envCreds = [] then ([tier1SeccompBlob emb], - 1)
       else ([tier1SeccompBlob emb, join NUL (env_pipe_args env envCreds) @ NUL], 4))"
    and pin: "verifyTier1SeccompBytes g (tier1SeccompBlob emb) (tier1SeccompPin emb) = Inr ()"
    and pre: "fst (add_affinity h (CPUCount lm) [] []) = pre"
    by (rule bubblewrap_Argv_D)
  let ?opts = "head_opts scriptPath proxySock disk 3 @
     (if fd \<ge> 0 then [ArgsFD (itoa fd)] else ClearEnv # setenv_opts (envSetenvPairs env)) @
     tail_opts dirs fileReads workdir"
  let ?all = "all_opts scriptPath proxySock disk env envCreds dirs fileReads workdir"
  have cmd: "is_cmd inner"
    by (rule prlimitWrap_is_cmd [OF inner _ assms(2)]) (simp add: is_cmd_def)
  have parsed: "parse_opts (concat (map render ?opts) @ inner) = Some (?opts, inner)"
    by (rule parse_opts_renders [OF cmd])
  have acted: "eff (p_files p) ?opts = Some ?all"
    using eff_argv [OF assms(3) files(2)] files(1) by (simp add: all_opts_def)
  have pres: "pre = [] \<or> pre = [''taskset'', ''-c'', ''0-'' @ itoa (CPUCount lm - 1)]"
    using pre by (auto simp: add_affinity_def cpuAffinityPrefix_def split: if_splits sum.splits)
  have blob: "p_files p ! 0 = tier1SeccompBlob emb"
    using files by (auto split: if_splits)
  show ?thesis
    by (rule exI [of _ pre], rule exI [of _ "concat (map render ?opts) @ inner"], rule exI [of _ ?opts],
        rule exI [of _ inner], rule exI [of _ ?all],
        intro conjI argv pres parsed acted inner all_opts_confine all_opts_ro [OF dirs] blob pin all_opts_env [OF assms(4)])
qed

text \<open>C15: No environment value reaches the command line once a credential is delivered: with env-mode
  credentials present, two preparations that differ only in run.env and in the credentials' names and
  values fail alike or build the same argument vector, so /proc/pid/cmdline reveals neither.\<close>

theorem bubblewrap_argv_hides_env:
  assumes "envCreds \<noteq> []" and "envCreds' \<noteq> []"
  shows "map_sum id p_argv (fst (bubblewrap_Argv g emb h scriptPath proxySock workdir fileReads env envCreds lm w)) =
    map_sum id p_argv (fst (bubblewrap_Argv g emb h scriptPath proxySock workdir fileReads env' envCreds' lm w))"
proof -
  have pipe: "map_sum id (\<lambda>_. ()) (fst (bwrapEnvArgsPipe h env envCreds w)) =
        map_sum id (\<lambda>_. ()) (fst (bwrapEnvArgsPipe h env' envCreds' w))"
      "snd (bwrapEnvArgsPipe h env envCreds w) = snd (bwrapEnvArgsPipe h env' envCreds' w)" for w
    by (auto simp: bwrapEnvArgsPipe_def split: prod.splits option.splits fault.splits)
  have argv: "bwrapArgv h s ps wd fr env db fc 4 sf w = bwrapArgv h s ps wd fr env' db fc 4 sf w"
    for s ps wd fr db fc sf w
    by (simp add: bwrapArgv_def)
  obtain disk degrades where dd: "(if DiskMB lm > 0 then
      if h_disk_quota h then (wrap64 (wrap64 (DiskMB lm * 1024) * 1024), []) else (0, [disk_degrade])
      else (0, [])) = (disk, degrades)" by fastforce
  obtain sec w1 where ld: "loadTier1Seccomp g (tier1SeccompBlob emb) (tier1SeccompPin emb) h w = (sec, w1)"
    by fastforce
  obtain r w2 where r: "bwrapEnvArgsPipe h env envCreds w1 = (r, w2)" by fastforce
  obtain r' where r': "bwrapEnvArgsPipe h env' envCreds' w1 = (r', w2)"
    using pipe(2) [of w1] r by (metis prod.collapse snd_conv)
  have rr: "map_sum id (\<lambda>_. ()) r = map_sum id (\<lambda>_. ()) r'"
    using pipe(1) [of w1] r r' by simp
  show ?thesis
    using assms rr
    by (cases r; cases r'; cases sec)
      (auto simp: bubblewrap_Argv_def dd ld r r' argv Let_def split: sum.splits prod.splits)
qed


section \<open>The tier contract\<close>

lemma sys_effects: "sys h op w = (r, w') \<Longrightarrow> fs w' = fs w \<and> effects w' = effects w"
  by (auto simp: sys_def)

lemma bubblewrap_Argv_effects:
  assumes "bubblewrap_Argv g emb h scriptPath proxySock workdir fileReads env envCreds lm w = (r, w')"
  shows "effects w' = effects w \<and> (\<forall>p. r = Inr p \<longrightarrow> p_argv p \<noteq> [] \<and> p_cleanup p = None)"
proof -
  have pipe: "effects w2 = effects w1" if "bwrapEnvArgsPipe h env envCreds w1 = (q, w2)" for q w1 w2
    using that sys_effects by (fastforce simp: bwrapEnvArgsPipe_def split: prod.splits option.splits fault.splits)
  have ld: "effects w2 = effects w1" if "loadTier1Seccomp g b pn h w1 = (q, w2)" for b pn q w1 w2
    using loadTier1Seccomp_effects [of g b pn h w1] that by simp
  have av: "effects w2 = effects w1 \<and> a \<noteq> []" if "bwrapArgv h s q wd rs e db fc ef sf w1 = (a, w2)" for s q wd rs e db fc ef sf w1 a w2
    using bwrapArgv_render [OF that] by auto
  have aff: "a \<noteq> [] \<Longrightarrow> add_affinity h c a ds = (b, ds') \<Longrightarrow> b \<noteq> []" for c a b ds ds'
    by (auto simp: add_affinity_def split: prod.splits option.splits)
  show ?thesis
    using assms
    by (fastforce simp: bubblewrap_Argv_def Let_def dest: pipe ld av aff split: prod.splits sum.splits if_splits)
qed

interpretation tier1: tier_backend "bubblewrap_Argv g emb" for g emb
  by (rule backend_quiet) (auto dest: bubblewrap_Argv_effects split: sum.splits)

section \<open>Witnesses\<close>

definition sample_embedded :: embedded where
  "sample_embedded = \<lparr>tier1SeccompBlob = ''bpf'',
     tier1SeccompPin = hex_encode (replicate 32 CHR ''b'') @ ''  tier1.bpf'' @ [CHR 0x0A]\<rparr>"

lemma sample_prepares:
  assumes "lm = no_limits \<or> lm = no_limits\<lparr>MemoryMB := 64\<rparr>"
  shows "\<exists>p w'. bubblewrap_Argv sample_lib sample_embedded sample_host s ps wd reads env creds lm w = (Inr p, w')"
proof -
  have pin: "parseSeccompPin sample_lib (tier1SeccompPin sample_embedded) = Inr (hex_encode (replicate 32 CHR ''b''))"
    using parseSeccompPin_line [of "replicate 32 CHR ''b''" sample_lib "'' tier1.bpf'' @ [CHR 0x0A]"]
    by (simp add: sample_embedded_def)
  have sha: "g_sha256 sample_lib (tier1SeccompBlob sample_embedded) = replicate 32 CHR ''b''"
    by (simp add: sample_lib_def sample_embedded_def)
  have calm: "h_fault sample_host n op = None" for n op by (simp add: sample_host_def)
  have look: "h_lookpath sample_host b = Inr (''/usr/bin/'' @ b)" for b by (simp add: sample_host_def)
  obtain f w1 where load: "loadTier1Seccomp sample_lib (tier1SeccompBlob sample_embedded)
      (tier1SeccompPin sample_embedded) sample_host w = (Inr f, w1)"
    by (simp add: loadTier1Seccomp_def pin sha sys_def calm Let_def)
  show ?thesis
    using assms
    by (elim disjE) (simp_all add: bubblewrap_Argv_def load prlimitWrap_def look no_limits_def bwrapEnvArgsPipe_def
        sys_def calm Let_def split: prod.splits)
qed

lemma bubblewrap_confines_witness:
  "\<exists>p w' acted. bubblewrap_Argv sample_lib sample_embedded sample_host ''/tmp/w/payload.sh'' ''/tmp/w/proxy.sock''
      ''/home/u'' [''/data''] [(''LANG'', ''C'')] [(''TOKEN'', ''s3'')] (no_limits\<lparr>MemoryMB := 64\<rparr>) bare_world = (Inr p, w') \<and>
    UnshareAll \<in> set acted \<and> ShareNet \<notin> set acted \<and> run_env acted Map.empty ''TOKEN'' = Some ''s3'' \<and>
    run_env acted Map.empty ''PATH'' = Some ''/usr/bin:/bin''"
proof -
  obtain p w' where r: "bubblewrap_Argv sample_lib sample_embedded sample_host ''/tmp/w/payload.sh'' ''/tmp/w/proxy.sock''
      ''/home/u'' [''/data''] [(''LANG'', ''C'')] [(''TOKEN'', ''s3'')] (no_limits\<lparr>MemoryMB := 64\<rparr>) bare_world = (Inr p, w')"
    using sample_prepares [of "no_limits\<lparr>MemoryMB := 64\<rparr>"] by blast
  have look: "\<forall>b q. h_lookpath sample_host b = Inr q \<longrightarrow> \<not> prefix ''-'' q"
    by (auto simp: sample_host_def)
  have nul: "[(''TOKEN'', ''s3'')] = [] \<or> no_nul [(''LANG'', ''C'')] \<and> no_nul [(''TOKEN'', ''s3'')]"
    by (simp add: no_nul_def)
  have wf: "wf_map [(''LANG'', ''C'')]" by (simp add: wf_map_def)
  obtain acted where a: "UnshareAll \<in> set acted" "ShareNet \<notin> set acted" "run_env acted Map.empty =
      [''PATH'' \<mapsto> ''/usr/bin:/bin''] ++ map_of [(''LANG'', ''C'')] ++ map_of (rev [(''TOKEN'', ''s3'')])"
    using bubblewrap_confines [OF r look nul wf, of Map.empty] by blast
  have "run_env acted Map.empty ''TOKEN'' = Some ''s3''" "run_env acted Map.empty ''PATH'' = Some ''/usr/bin:/bin''"
    by (simp_all add: a(3))
  with r a(1,2) show ?thesis by blast
qed

lemma bubblewrap_argv_hides_env_witness:
  "map_sum id p_argv (fst (bubblewrap_Argv sample_lib sample_embedded sample_host ''/p'' ''/q'' [] [] [(''LANG'', ''C'')]
      [(''TOKEN'', ''s3'')] no_limits bare_world)) =
   map_sum id p_argv (fst (bubblewrap_Argv sample_lib sample_embedded sample_host ''/p'' ''/q'' [] [] []
      [(''OTHER'', ''zz'')] no_limits bare_world))"
  by (rule bubblewrap_argv_hides_env) simp_all

end
