(* ===== verification/Gvisor.thy ===== *)
theory Gvisor
  imports Bwrap
begin

text \<open>
  The Tier-2 backend, gvisor.go: the OCI runtime specification as the JSON value the code builds
  and updates in place, its rendering by \<open>json.MarshalIndent\<close>, and \<open>gvisorBackend.Argv\<close>. runsc is
  not modelled; the lemmas are about the bundle it is given: mounts, namespaces, environment and
  resource limits, and about the argument vector.
\<close>

section \<open>The specification\<close>

definition mount :: "string \<Rightarrow> string \<Rightarrow> string \<Rightarrow> string list \<Rightarrow> json" where
  "mount dest typ src opts = JObj [(''destination'', JStr dest), (''type'', JStr typ), (''source'', JStr src),
     (''options'', JArr (map JStr opts))]"

fun system_mounts :: "host \<Rightarrow> string list \<Rightarrow> world \<Rightarrow> json list \<times> world" where
  "system_mounts h [] w = ([], w)"
| "system_mounts h (d # ds) w =
     (let (r, w1) = os_stat h d w; (ms, w2) = system_mounts h ds w1
      in ((case r of Inr _ \<Rightarrow> [mount d ''bind'' d [''ro'', ''rbind'']] | Inl _ \<Rightarrow> []) @ ms, w2))"

definition base_mounts :: "string \<Rightarrow> string \<Rightarrow> json list" where
  "base_mounts scriptPath proxySock =
     [JObj [(''destination'', JStr ''/proc''), (''type'', JStr ''proc''), (''source'', JStr ''proc'')],
      mount ''/dev'' ''tmpfs'' ''tmpfs'' [''nosuid'', ''strictatime'', ''mode=755'', ''size=65536k''],
      mount ''/tmp'' ''tmpfs'' ''tmpfs'' [''nosuid'', ''nodev''],
      mount ''/payload.sh'' ''bind'' scriptPath [''ro'', ''rbind''],
      mount ''/proxy.sock'' ''bind'' proxySock [''rbind'']]"

definition base_spec :: "json list \<Rightarrow> json amap" where
  "base_spec mounts =
     [(''ociVersion'', JStr ''1.0.0''),
      (''process'', JObj [(''terminal'', JBool False), (''user'', JObj [(''uid'', JInt 0), (''gid'', JInt 0)]),
         (''args'', JArr [JStr ''/usr/bin/sh'', JStr ''/payload.sh'']),
         (''env'', JArr [JStr ''PATH=/usr/bin:/bin'']), (''cwd'', JStr ''/'')]),
      (''root'', JObj [(''path'', JStr ''rootfs''), (''readonly'', JBool True)]),
      (''hostname'', JStr ''sandbox''),
      (''mounts'', JArr mounts),
      (''linux'', JObj [(''namespaces'', JArr (map (\<lambda>t. JObj [(''type'', JStr t)])
         [''pid'', ''ipc'', ''uts'', ''mount'', ''network'']))])]"

definition gvisorOCISpec :: "host \<Rightarrow> string \<Rightarrow> string \<Rightarrow> world \<Rightarrow> json amap \<times> world" where
  "gvisorOCISpec h scriptPath proxySock w =
     (let (ms, w1) = system_mounts h [''/usr'', ''/etc'', ''/bin'', ''/lib'', ''/lib64'', ''/sbin''] w
      in (base_spec (base_mounts scriptPath proxySock @ ms), w1))"

definition applyFileReadToOCISpec :: "string list \<Rightarrow> json amap \<Rightarrow> json amap" where
  "applyFileReadToOCISpec paths spec =
     (if paths = [] then spec
      else aput ''mounts'' (JArr (as_arr (fld spec ''mounts'') @
        map (\<lambda>p. mount p ''bind'' p [''ro'', ''rbind'']) paths)) spec)"

definition applyEnvToOCISpec :: "string amap \<Rightarrow> (string \<times> string) list \<Rightarrow> json amap \<Rightarrow> json amap" where
  "applyEnvToOCISpec env envCreds spec =
     (if env = [] \<and> envCreds = [] then spec
      else case fld spec ''process'' of
        JObj proc \<Rightarrow> aput ''process'' (JObj (aput ''env''
          (JArr (map JStr (envList env @ map (\<lambda>(k, v). k @ ''='' @ v) envCreds))) proc)) spec
      | _ \<Rightarrow> spec)"

definition applyWorkdirToOCISpec :: "string \<Rightarrow> json amap \<Rightarrow> json amap" where
  "applyWorkdirToOCISpec workdir spec =
     (if workdir = [] then spec
      else let spec' = aput ''mounts'' (JArr (as_arr (fld spec ''mounts'') @
             [mount ''/work'' ''bind'' workdir [''rbind'']])) spec
      in case fld spec' ''process'' of
        JObj proc \<Rightarrow> aput ''process'' (JObj (aput ''cwd'' (JStr ''/work'') proc)) spec'
      | _ \<Rightarrow> spec')"

fun size_first :: "string \<Rightarrow> string \<Rightarrow> json list \<Rightarrow> json list" where
  "size_first dst opt [] = []"
| "size_first dst opt (m # ms) =
     (if str (fld (as_obj m) ''destination'') \<noteq> dst then m # size_first dst opt ms
      else JObj (aput ''options'' (JArr (as_arr (fld (as_obj m) ''options'') @ [JStr opt])) (as_obj m)) # ms)"

definition applyTmpfsSize :: "string \<Rightarrow> int \<Rightarrow> json amap \<Rightarrow> json amap" where
  "applyTmpfsSize dst diskMB spec =
     aput ''mounts'' (JArr (size_first dst (''size='' @ itoa diskMB @ ''m'') (as_arr (fld spec ''mounts'')))) spec"

definition rlimit :: "string \<Rightarrow> int \<Rightarrow> json" where
  "rlimit typ n = JObj [(''type'', JStr typ), (''hard'', JInt n), (''soft'', JInt n)]"

definition oci_rlimits :: "limits \<Rightarrow> json list" where
  "oci_rlimits lm =
     (if MemoryMB lm > 0 then [rlimit ''RLIMIT_AS'' (MemoryMB lm * 1024 * 1024 mod 2 ^ 64)] else []) @
     (if PidsLimit lm > 0 then [rlimit ''RLIMIT_NPROC'' (PidsLimit lm)] else [])"

definition applyLimitsToOCISpec :: "host \<Rightarrow> limits \<Rightarrow> json amap \<Rightarrow> json amap \<times> degrade list" where
  "applyLimitsToOCISpec h lm spec =
     (let spec1 = (if oci_rlimits lm \<noteq> [] then
            (case fld spec ''process'' of
               JObj proc \<Rightarrow> aput ''process'' (JObj (aput ''rlimits'' (JArr (oci_rlimits lm)) proc)) spec
             | _ \<Rightarrow> spec) else spec)
      in if DiskMB lm > 0 then
           if h_disk_quota h then (applyTmpfsSize ''/tmp'' (DiskMB lm) spec1, []) else (spec1, [disk_degrade])
         else (spec1, []))"

section \<open>Preparing the bundle\<close>

definition gvisor_spec ::
  "host \<Rightarrow> string \<Rightarrow> string \<Rightarrow> string \<Rightarrow> string list \<Rightarrow> string amap \<Rightarrow> (string \<times> string) list \<Rightarrow> limits \<Rightarrow>
   world \<Rightarrow> (json amap \<times> degrade list) \<times> world" where
  "gvisor_spec h scriptPath proxySock workdir fileReads env envCreds lm w =
     (let (spec, w1) = gvisorOCISpec h scriptPath proxySock w;
          spec = applyFileReadToOCISpec fileReads spec;
          spec = applyEnvToOCISpec env envCreds spec;
          spec = applyWorkdirToOCISpec workdir spec
      in (applyLimitsToOCISpec h lm spec, w1))"

definition gvisor_Argv ::
  "golib \<Rightarrow> host \<Rightarrow> string \<Rightarrow> string \<Rightarrow> string \<Rightarrow> string list \<Rightarrow> string amap \<Rightarrow>
   (string \<times> string) list \<Rightarrow> limits \<Rightarrow> world \<Rightarrow> prep res \<times> world" where
  "gvisor_Argv g h scriptPath proxySock workdir fileReads env envCreds lm w =
     (case os_mkdir_temp h ''exec-sandbox-oci-'' w of
        (Inl e, w1) \<Rightarrow> (Inl e, w1)
      | (Inr bundle, w1) \<Rightarrow> (case os_mkdir_all h (path_join [bundle, ''rootfs'']) 0x1C0 w1 of
          (Inl e, w2) \<Rightarrow> (Inl e, snd (os_remove_all h bundle w2))
        | (Inr _, w2) \<Rightarrow>
           (let ((spec, degrades), w3) = gvisor_spec h scriptPath proxySock workdir fileReads env envCreds lm w2
            in case os_write_file h (path_join [bundle, ''config.json''])
                      (marshal_indent g 0 (JObj spec)) 0x180 w3 of
                 (Inl e, w4) \<Rightarrow> (Inl e, snd (os_remove_all h bundle w4))
               | (Inr _, w4) \<Rightarrow>
                  (let (cid, w5) = randHex h 6 w4;
                       argv = [''runsc'', ''--network=none'', ''--host-uds=open'', ''--ignore-cgroups''] @
                         (if h_euid h \<noteq> 0 then [''--rootless''] else []) @
                         [''run'', ''--bundle'', bundle, ''sbx-'' @ cid];
                       (argv', degrades') = add_affinity h (CPUCount lm) argv degrades
                   in (Inr \<lparr>p_argv = argv', p_cleanup = Some (\<lambda>h w. snd (os_remove_all h bundle w)),
                         p_degrades = degrades', p_files = []\<rparr>, w5)))))"

section \<open>Reading the specification back\<close>

definition m_str :: "json \<Rightarrow> string \<Rightarrow> string" where
  "m_str m k = str (fld (as_obj m) k)"

definition m_opts :: "json \<Rightarrow> string list" where
  "m_opts m = toStringList (fld (as_obj m) ''options'')"

definition writable_binds :: "json amap \<Rightarrow> (string \<times> string) set" where
  "writable_binds spec = {(m_str m ''source'', m_str m ''destination'') | m.
     m \<in> set (as_arr (fld spec ''mounts'')) \<and> m_str m ''type'' = ''bind'' \<and> ''ro'' \<notin> set (m_opts m)}"

definition readonly_binds :: "json amap \<Rightarrow> (string \<times> string) set" where
  "readonly_binds spec = {(m_str m ''source'', m_str m ''destination'') | m.
     m \<in> set (as_arr (fld spec ''mounts'')) \<and> m_str m ''type'' = ''bind'' \<and> ''ro'' \<in> set (m_opts m)}"

definition proc_fld :: "json amap \<Rightarrow> string \<Rightarrow> json" where
  "proc_fld spec k = fld (as_obj (fld spec ''process'')) k"

definition has_proc :: "json amap \<Rightarrow> bool" where
  "has_proc spec \<longleftrightarrow> (\<exists>p. fld spec ''process'' = JObj p)"

definition ro_mounts :: "string list \<Rightarrow> json list" where
  "ro_mounts ds = map (\<lambda>d. mount d ''bind'' d [''ro'', ''rbind'']) ds"

definition work_mounts :: "string \<Rightarrow> json list" where
  "work_mounts workdir = (if workdir = [] then [] else [mount ''/work'' ''bind'' workdir [''rbind'']])"

lemma fileRead_fields:
  "fld spec ''mounts'' = JArr ms \<Longrightarrow>
     fld (applyFileReadToOCISpec ps spec) ''mounts'' = JArr (ms @ ro_mounts ps)"
  "k \<noteq> ''mounts'' \<Longrightarrow> fld (applyFileReadToOCISpec ps spec) k = fld spec k"
  by (simp_all add: applyFileReadToOCISpec_def fld_aput ro_mounts_def)

lemma env_fields:
  assumes "has_proc spec"
  shows "k \<noteq> ''process'' \<Longrightarrow> fld (applyEnvToOCISpec env creds spec) k = fld spec k"
    "has_proc (applyEnvToOCISpec env creds spec)"
    "proc_fld (applyEnvToOCISpec env creds spec) x =
      (if x = ''env'' \<and> \<not> (env = [] \<and> creds = [])
       then JArr (map JStr (envList env @ map (\<lambda>(k, v). k @ ''='' @ v) creds)) else proc_fld spec x)"
  using assms by (auto simp: applyEnvToOCISpec_def has_proc_def proc_fld_def fld_aput)

lemma workdir_fields:
  assumes "has_proc spec" and "fld spec ''mounts'' = JArr ms"
  shows "fld (applyWorkdirToOCISpec wd spec) ''mounts'' = JArr (ms @ work_mounts wd)"
    "k \<noteq> ''process'' \<Longrightarrow> k \<noteq> ''mounts'' \<Longrightarrow> fld (applyWorkdirToOCISpec wd spec) k = fld spec k"
    "has_proc (applyWorkdirToOCISpec wd spec)"
    "proc_fld (applyWorkdirToOCISpec wd spec) x =
      (if x = ''cwd'' \<and> wd \<noteq> [] then JStr ''/work'' else proc_fld spec x)"
  using assms by (auto simp: applyWorkdirToOCISpec_def has_proc_def proc_fld_def fld_aput work_mounts_def Let_def)

definition sized_base :: "string \<Rightarrow> string \<Rightarrow> string list \<Rightarrow> json list" where
  \<comment> \<open>the base mounts, with further options on /tmp\<close>
  "sized_base s p opts =
     [JObj [(''destination'', JStr ''/proc''), (''type'', JStr ''proc''), (''source'', JStr ''proc'')],
      mount ''/dev'' ''tmpfs'' ''tmpfs'' [''nosuid'', ''strictatime'', ''mode=755'', ''size=65536k''],
      mount ''/tmp'' ''tmpfs'' ''tmpfs'' ([''nosuid'', ''nodev''] @ opts),
      mount ''/payload.sh'' ''bind'' s [''ro'', ''rbind''],
      mount ''/proxy.sock'' ''bind'' p [''rbind'']]"

definition tmp_opts :: "host \<Rightarrow> limits \<Rightarrow> string list" where
  "tmp_opts h lm = (if DiskMB lm > 0 \<and> h_disk_quota h then [''size='' @ itoa (DiskMB lm) @ ''m''] else [])"

lemma size_first_base: "size_first ''/tmp'' opt (base_mounts s p @ ms) = sized_base s p [opt] @ ms"
  by (simp add: base_mounts_def sized_base_def mount_def fld_def aput_def)

lemma base_sized: "base_mounts s p = sized_base s p []"
  by (simp add: base_mounts_def sized_base_def)

lemma limits_fields:
  assumes "has_proc spec" and "fld spec ''mounts'' = JArr (base_mounts s p @ ms)"
    and "applyLimitsToOCISpec h lm spec = (spec', degrades)"
  shows "fld spec' ''mounts'' = JArr (sized_base s p (tmp_opts h lm) @ ms)"
    "k \<noteq> ''process'' \<Longrightarrow> k \<noteq> ''mounts'' \<Longrightarrow> fld spec' k = fld spec k"
    "proc_fld spec' x = (if x = ''rlimits'' \<and> oci_rlimits lm \<noteq> [] then JArr (oci_rlimits lm) else proc_fld spec x)"
  using assms
  by (auto simp: applyLimitsToOCISpec_def applyTmpfsSize_def Let_def has_proc_def proc_fld_def fld_aput
      size_first_base [unfolded base_sized] tmp_opts_def base_sized split: if_splits)

lemma system_mounts_D:
  assumes "system_mounts h ds w = (ms, w')"
  shows "\<exists>dirs. ms = ro_mounts dirs \<and> set dirs \<subseteq> set ds \<and> fs w' = fs w \<and> effects w' = effects w"
  using assms
proof (induction ds arbitrary: w ms w')
  case Nil
  then show ?case by (intro exI [of _ "[]"]) (simp add: ro_mounts_def)
next
  case (Cons d ds)
  obtain r w1 where st: "os_stat h d w = (r, w1)" by fastforce
  obtain ns w2 where sb: "system_mounts h ds w1 = (ns, w2)" by fastforce
  from Cons.IH [OF sb] obtain dirs where ih: "ns = ro_mounts dirs" "set dirs \<subseteq> set ds"
      "fs w2 = fs w1" "effects w2 = effects w1" by blast
  show ?case
    using Cons.prems ih os_stat_D [OF st]
    by (intro exI [of _ "(case r of Inr _ \<Rightarrow> [d] | Inl _ \<Rightarrow> []) @ dirs"])
      (auto simp: st sb Let_def ro_mounts_def split: sum.splits)
qed

lemma base_spec_fields:
  "fld (base_spec ms) ''mounts'' = JArr ms" "has_proc (base_spec ms)"
  "fld (base_spec ms) ''root'' = JObj [(''path'', JStr ''rootfs''), (''readonly'', JBool True)]"
  "fld (base_spec ms) ''linux'' = JObj [(''namespaces'', JArr (map (\<lambda>t. JObj [(''type'', JStr t)])
     [''pid'', ''ipc'', ''uts'', ''mount'', ''network'']))]"
  "proc_fld (base_spec ms) ''env'' = JArr [JStr ''PATH=/usr/bin:/bin'']"
  "proc_fld (base_spec ms) ''args'' = JArr [JStr ''/usr/bin/sh'', JStr ''/payload.sh'']"
  "proc_fld (base_spec ms) ''cwd'' = JStr ''/''"
  "proc_fld (base_spec ms) ''rlimits'' = JNull"
  by (simp_all add: base_spec_def fld_def has_proc_def proc_fld_def)

lemma envList_Nil: "envList [] = [''PATH=/usr/bin:/bin'']"
  by (simp add: envList_def envSetenvPairs_def)

lemma gvisor_spec_fields:
  assumes "gvisor_spec h scriptPath proxySock workdir fileReads env envCreds lm w = ((spec, degrades), w')"
  shows "\<exists>dirs. set dirs \<subseteq> {''/usr'', ''/etc'', ''/bin'', ''/lib'', ''/lib64'', ''/sbin''} \<and>
      fld spec ''mounts'' = JArr (sized_base scriptPath proxySock (tmp_opts h lm) @
        ro_mounts (dirs @ fileReads) @ work_mounts workdir)"
    and "fld spec ''root'' = JObj [(''path'', JStr ''rootfs''), (''readonly'', JBool True)]"
    and "fld spec ''linux'' = JObj [(''namespaces'', JArr (map (\<lambda>t. JObj [(''type'', JStr t)])
     [''pid'', ''ipc'', ''uts'', ''mount'', ''network'']))]"
    and "proc_fld spec ''env'' = JArr (map JStr (envList env @ map (\<lambda>(k, v). k @ ''='' @ v) envCreds))"
    and "proc_fld spec ''args'' = JArr [JStr ''/usr/bin/sh'', JStr ''/payload.sh'']"
    and "proc_fld spec ''cwd'' = JStr (if workdir = [] then ''/'' else ''/work'')"
    and "proc_fld spec ''rlimits'' = (if oci_rlimits lm = [] then JNull else JArr (oci_rlimits lm))"
    and "fs w' = fs w" and "effects w' = effects w"
proof -
  obtain ms w1 where sm: "system_mounts h [''/usr'', ''/etc'', ''/bin'', ''/lib'', ''/lib64'', ''/sbin''] w = (ms, w1)"
    by fastforce
  from system_mounts_D [OF sm] obtain dirs where d: "ms = ro_mounts dirs"
      "set dirs \<subseteq> {''/usr'', ''/etc'', ''/bin'', ''/lib'', ''/lib64'', ''/sbin''}" "fs w1 = fs w" "effects w1 = effects w"
    by auto
  let ?s0 = "base_spec (base_mounts scriptPath proxySock @ ms)"
  let ?s1 = "applyFileReadToOCISpec fileReads ?s0"
  let ?s2 = "applyEnvToOCISpec env envCreds ?s1"
  let ?s3 = "applyWorkdirToOCISpec workdir ?s2"
  have lim: "applyLimitsToOCISpec h lm ?s3 = (spec, degrades)" and w': "w' = w1"
    using assms by (simp_all add: gvisor_spec_def gvisorOCISpec_def sm Let_def del: system_mounts.simps)
  have m1: "fld ?s1 ''mounts'' = JArr (base_mounts scriptPath proxySock @ ms @ ro_mounts fileReads)"
    using fileRead_fields(1) [OF base_spec_fields(1)] by simp
  have p1: "has_proc ?s1"
    using base_spec_fields(2) by (simp add: has_proc_def fileRead_fields(2))
  have m2: "fld ?s2 ''mounts'' = JArr (base_mounts scriptPath proxySock @ ms @ ro_mounts fileReads)"
    using m1 by (simp add: env_fields [OF p1])
  note p2 = env_fields(2) [OF p1]
  have m3: "fld ?s3 ''mounts'' = JArr (base_mounts scriptPath proxySock @ ms @ ro_mounts fileReads @ work_mounts workdir)"
    using workdir_fields(1) [OF p2 m2] by simp
  note L = limits_fields [OF workdir_fields(3) [OF p2 m2] m3 lim]
  have pf: "proc_fld ?s1 x = proc_fld ?s0 x" for x
    by (simp add: proc_fld_def fileRead_fields(2))
  note P = L(3) workdir_fields(4) [OF p2 m2] env_fields(3) [OF p1] pf base_spec_fields
  show "\<exists>dirs. set dirs \<subseteq> {''/usr'', ''/etc'', ''/bin'', ''/lib'', ''/lib64'', ''/sbin''} \<and>
      fld spec ''mounts'' = JArr (sized_base scriptPath proxySock (tmp_opts h lm) @
        ro_mounts (dirs @ fileReads) @ work_mounts workdir)"
    using L(1) d by (intro exI [of _ dirs]) (simp add: ro_mounts_def)
  have o: "k \<noteq> ''process'' \<Longrightarrow> k \<noteq> ''mounts'' \<Longrightarrow> fld spec k = fld ?s0 k" for k
    by (simp add: L(2) workdir_fields(2) [OF p2 m2] env_fields(1) [OF p1] fileRead_fields(2))
  show "fld spec ''root'' = JObj [(''path'', JStr ''rootfs''), (''readonly'', JBool True)]"
    "fld spec ''linux'' = JObj [(''namespaces'', JArr (map (\<lambda>t. JObj [(''type'', JStr t)])
     [''pid'', ''ipc'', ''uts'', ''mount'', ''network'']))]"
    using o by (simp_all add: base_spec_fields)
  show "proc_fld spec ''env'' = JArr (map JStr (envList env @ map (\<lambda>(k, v). k @ ''='' @ v) envCreds))"
  proof -
    have "proc_fld spec ''env'' = proc_fld ?s2 ''env''"
      by (simp add: L(3) workdir_fields(4) [OF p2 m2])
    then show ?thesis
      using env_fields(3) [OF p1, of env envCreds "''env''"]
      by (cases "env = [] \<and> envCreds = []") (simp_all add: pf base_spec_fields envList_Nil)
  qed
  show "proc_fld spec ''args'' = JArr [JStr ''/usr/bin/sh'', JStr ''/payload.sh'']"
    "proc_fld spec ''cwd'' = JStr (if workdir = [] then ''/'' else ''/work'')"
    "proc_fld spec ''rlimits'' = (if oci_rlimits lm = [] then JNull else JArr (oci_rlimits lm))"
    by (simp_all add: P)
  show "fs w' = fs w" "effects w' = effects w" using d w' by simp_all
qed

section \<open>The bundle confines the payload\<close>

lemma mount_view [simp]:
  "m_str (mount d t s opts) ''type'' = t" "m_str (mount d t s opts) ''source'' = s"
  "m_str (mount d t s opts) ''destination'' = d" "m_opts (mount d t s opts) = opts"
proof -
  have "List.map_filter as_str (map JStr opts) = opts"
    by (induction opts) (simp_all add: List.map_filter_simps)
  then show "m_opts (mount d t s opts) = opts"
    by (simp add: m_opts_def mount_def fld_def)
qed (simp_all add: m_str_def mount_def fld_def)

definition is_writable :: "json \<Rightarrow> bool" where
  "is_writable m \<longleftrightarrow> m_str m ''type'' = ''bind'' \<and> ''ro'' \<notin> set (m_opts m)"

definition is_readonly :: "json \<Rightarrow> bool" where
  "is_readonly m \<longleftrightarrow> m_str m ''type'' = ''bind'' \<and> ''ro'' \<in> set (m_opts m)"

definition bind_pair :: "json \<Rightarrow> string \<times> string" where
  "bind_pair m = (m_str m ''source'', m_str m ''destination'')"

lemma binds_filter:
  assumes "fld spec ''mounts'' = JArr ms"
  shows "writable_binds spec = set (map bind_pair (filter is_writable ms))"
    "readonly_binds spec = set (map bind_pair (filter is_readonly ms))"
  using assms
  by (auto simp: writable_binds_def readonly_binds_def bind_pair_def is_writable_def is_readonly_def)

lemma filter_ro_mounts:
  "filter is_writable (ro_mounts ds) = []" "map bind_pair (filter is_readonly (ro_mounts ds)) = map (\<lambda>d. (d, d)) ds"
  by (induction ds) (simp_all add: ro_mounts_def is_writable_def is_readonly_def bind_pair_def)

lemma filter_work_mounts:
  "map bind_pair (filter is_writable (work_mounts wd)) = (if wd = [] then [] else [(wd, ''/work'')])"
  "filter is_readonly (work_mounts wd) = []"
  by (simp_all add: work_mounts_def is_writable_def is_readonly_def bind_pair_def)

lemma filter_sized_base:
  "map bind_pair (filter is_writable (sized_base s p opts)) = [(p, ''/proxy.sock'')]"
  "map bind_pair (filter is_readonly (sized_base s p opts)) = [(s, ''/payload.sh'')]"
proof -
  have proc: "m_str (JObj [(''destination'', JStr ''/proc''), (''type'', JStr ''proc''), (''source'', JStr ''proc'')]) ''type'' = ''proc''"
    by (simp add: m_str_def fld_def)
  show "map bind_pair (filter is_writable (sized_base s p opts)) = [(p, ''/proxy.sock'')]"
    "map bind_pair (filter is_readonly (sized_base s p opts)) = [(s, ''/payload.sh'')]"
    by (simp_all add: sized_base_def is_writable_def is_readonly_def proc bind_pair_def)
qed

lemma bundle_paths:
  assumes "clean_abs d"
  shows "path_join [d, ''rootfs''] = d @ ''/rootfs''" "path_join [d, ''config.json''] = d @ ''/config.json''"
  using path_join_clean_abs [OF assms, of "''rootfs''"] path_join_clean_abs [OF assms, of "''config.json''"]
  by (simp_all add: plain_comp_def)

lemma gvisor_Argv_D:
  assumes "gvisor_Argv g h scriptPath proxySock workdir fileReads env envCreds lm w = (Inr p, w')"
    and "bundle = h_tmp h (tick w) ''exec-sandbox-oci-''" and "clean_abs bundle"
    and "map_of (fs w) (bundle @ ''/config.json'') = None"
  obtains spec degrades w2 w3 cid where
    "gvisor_spec h scriptPath proxySock workdir fileReads env envCreds lm w2 = ((spec, degrades), w3)"
    and "map_of (fs w') (bundle @ ''/config.json'') = Some (FileN 0x180 (marshal_indent g 0 (JObj spec)))"
    and "p_files p = []" and "effects w' = effects w"
    and "p_argv p = fst (add_affinity h (CPUCount lm) ([''runsc'', ''--network=none'', ''--host-uds=open'', ''--ignore-cgroups''] @
       (if h_euid h \<noteq> 0 then [''--rootless''] else []) @ [''run'', ''--bundle'', bundle, ''sbx-'' @ cid]) degrades)"
proof -
  from assms(1,2) obtain w1 w2 u spec degrades w3 v w4 cid where
    mk: "os_mkdir_temp h ''exec-sandbox-oci-'' w = (Inr bundle, w1)"
    and ro: "os_mkdir_all h (path_join [bundle, ''rootfs'']) 0x1C0 w1 = (Inr u, w2)"
    and sp: "gvisor_spec h scriptPath proxySock workdir fileReads env envCreds lm w2 = ((spec, degrades), w3)"
    and wr: "os_write_file h (path_join [bundle, ''config.json'']) (marshal_indent g 0 (JObj spec)) 0x180 w3 = (Inr v, w4)"
    and rn: "randHex h 6 w4 = (cid, w')"
    and pa: "p_argv p = fst (add_affinity h (CPUCount lm) ([''runsc'', ''--network=none'', ''--host-uds=open'', ''--ignore-cgroups''] @
       (if h_euid h \<noteq> 0 then [''--rootless''] else []) @ [''run'', ''--bundle'', bundle, ''sbx-'' @ cid]) degrades)"
    and pf: "p_files p = []"
    by (auto simp: gvisor_Argv_def Let_def dest: os_mkdir_temp_D split: sum.splits prod.splits)
  note paths = bundle_paths [OF assms(3)]
  have "map_of (fs w3) (bundle @ ''/config.json'') = None"
    using os_mkdir_temp_D [OF mk] os_mkdir_all_D [OF ro] gvisor_spec_fields(8) [OF sp] assms(4) paths by simp
  then have cfg: "map_of (fs w') (bundle @ ''/config.json'') = Some (FileN 0x180 (marshal_indent g 0 (JObj spec)))"
    using os_write_file_D [OF wr] os_read_D(3) [OF rn] paths by simp
  have "effects w' = effects w"
    using os_mkdir_temp_D [OF mk] os_mkdir_all_D [OF ro] gvisor_spec_fields(9) [OF sp] os_write_file_D [OF wr]
      os_read_D(3) [OF rn] by simp
  then show thesis by (rule that [OF sp cfg pf _ pa])
qed


section \<open>The argument vector hides the environment, and nothing is left behind\<close>

lemma gvisor_spec_frame:
  "snd (gvisor_spec h s p wd reads env creds lm w) = snd (gvisor_spec h s p wd reads env' creds' lm w)"
  "snd (fst (gvisor_spec h s p wd reads env creds lm w)) = snd (fst (gvisor_spec h s p wd reads env' creds' lm w))"
  by (simp_all add: gvisor_spec_def Let_def applyLimitsToOCISpec_def split: prod.splits)

lemma os_write_file_data:
  "fst (os_write_file h p d m w) = fst (os_write_file h p d' m w)"
  "tick (snd (os_write_file h p d m w)) = tick (snd (os_write_file h p d' m w))"
proof -
  have "tick (leave q r v) = tick v" for q r v
    by (cases r) (simp_all add: leave_def put_node_def)
  then show "fst (os_write_file h p d m w) = fst (os_write_file h p d' m w)"
    "tick (snd (os_write_file h p d m w)) = tick (snd (os_write_file h p d' m w))"
    by (simp_all add: os_write_file_def sys_def put_node_def split: option.splits fault.splits)
qed

text \<open>C16: The runsc command line never depends on the environment: two Tier-2 preparations that differ
  only in run.env and in the env-mode credentials fail with the same error or build the same argument
  vector; the values are in config.json only.\<close>

theorem gvisor_argv_hides_env:
  "map_sum id p_argv (fst (gvisor_Argv g h scriptPath proxySock workdir fileReads env envCreds lm w)) =
   map_sum id p_argv (fst (gvisor_Argv g h scriptPath proxySock workdir fileReads env' envCreds' lm w))"
proof -
  obtain b w1 where mk: "os_mkdir_temp h ''exec-sandbox-oci-'' w = (b, w1)" by fastforce
  show ?thesis
  proof (cases b)
    case (Inr bdl)
    obtain u w2 where ro: "os_mkdir_all h (path_join [bdl, ''rootfs'']) 0x1C0 w1 = (u, w2)" by fastforce
    obtain spec degrades w3 where sp: "gvisor_spec h scriptPath proxySock workdir fileReads env envCreds lm w2 = ((spec, degrades), w3)"
      by (metis prod.collapse)
    obtain spec' where sp': "gvisor_spec h scriptPath proxySock workdir fileReads env' envCreds' lm w2 = ((spec', degrades), w3)"
      using gvisor_spec_frame [of h scriptPath proxySock workdir fileReads env envCreds lm w2 env' envCreds'] sp
      by (metis prod.collapse fst_conv snd_conv)
    let ?c = "path_join [bdl, ''config.json'']"
    obtain v w4 where wr: "os_write_file h ?c (marshal_indent g 0 (JObj spec)) 0x180 w3 = (v, w4)" by fastforce
    obtain w4' where wr': "os_write_file h ?c (marshal_indent g 0 (JObj spec')) 0x180 w3 = (v, w4')" "tick w4' = tick w4"
      using os_write_file_data [of h ?c "marshal_indent g 0 (JObj spec)" "0x180" w3 "marshal_indent g 0 (JObj spec')"] wr
      by (metis prod.collapse fst_conv snd_conv)
    show ?thesis
      by (cases u; cases v)
        (simp_all add: gvisor_Argv_def mk Inr ro sp sp' wr wr'(1) randHex_def wr'(2) split: prod.splits)
  qed (simp add: gvisor_Argv_def mk)
qed

lemma gvisor_Argv_effects:
  assumes "gvisor_Argv g h scriptPath proxySock workdir fileReads env envCreds lm w = (r, w')"
  shows "effects w' = effects w \<and>
    (\<forall>p. r = Inr p \<longrightarrow> p_argv p \<noteq> [] \<and> (\<exists>d. p_cleanup p = Some (\<lambda>h w. snd (os_remove_all h d w))))"
proof -
  have aff: "fst (add_affinity h c a ds) \<noteq> []" if "a \<noteq> []" for c a ds
    using that by (auto simp: add_affinity_def split: prod.splits option.splits)
  obtain b w1 where mk: "os_mkdir_temp h ''exec-sandbox-oci-'' w = (b, w1)" by fastforce
  show ?thesis
  proof (cases b)
    case (Inl e)
    then show ?thesis using assms os_mkdir_temp_D [OF mk] by (auto simp: gvisor_Argv_def mk)
  next
    case (Inr d)
    obtain u w2 where ro: "os_mkdir_all h (path_join [d, ''rootfs'']) 0x1C0 w1 = (u, w2)" by fastforce
    obtain spec degrades w3 where sp: "gvisor_spec h scriptPath proxySock workdir fileReads env envCreds lm w2 = ((spec, degrades), w3)"
      by (metis prod.collapse)
    obtain v w4 where wr: "os_write_file h (path_join [d, ''config.json'']) (marshal_indent g 0 (JObj spec)) 0x180 w3 = (v, w4)"
      by fastforce
    obtain cid w5 where rd: "randHex h 6 w4 = (cid, w5)" by fastforce
    let ?av = "[''runsc'', ''--network=none'', ''--host-uds=open'', ''--ignore-cgroups''] @
        (if h_euid h \<noteq> 0 then [''--rootless''] else []) @ [''run'', ''--bundle'', d, ''sbx-'' @ cid]"
    have eff: "effects w2 = effects w" "effects w4 = effects w" "effects w5 = effects w"
      using os_mkdir_temp_D [OF mk] os_mkdir_all_D [OF ro] gvisor_spec_fields(9) [OF sp] os_write_D(2) [OF wr]
        os_read_D(3) [OF rd] by simp_all
    have "effects w' = effects w \<and> (\<forall>p. r = Inr p \<longrightarrow> p_argv p = fst (add_affinity h (CPUCount lm) ?av degrades) \<and>
        p_cleanup p = Some (\<lambda>h w. snd (os_remove_all h d w)))"
      using assms eff by (cases u; cases v) (auto simp: gvisor_Argv_def mk Inr ro sp wr rd Let_def split: prod.splits)
    then show ?thesis using aff [of ?av] by auto
  qed
qed

interpretation tier2: tier_backend "gvisor_Argv g" for g
  by (rule backend_quiet) (auto dest!: gvisor_Argv_effects split: sum.splits)

text \<open>C39: The bundle is always reclaimed: on a host whose removals succeed, a preparation that fails leaves
  the file system as it found it, and after one that succeeds the clean-up handed to the caller removes
  everything inside the bundle and nothing else.\<close>

theorem gvisor_bundle_reclaimed:
  assumes "gvisor_Argv g h scriptPath proxySock workdir fileReads env envCreds lm w = (r, w')"
    and "bundle = h_tmp h (tick w) ''exec-sandbox-oci-''" and "clean_abs bundle"
    and "\<forall>q. inside bundle q \<longrightarrow> map_of (fs w) q = None"
    and "\<forall>n q. h_fault h n (OpRemoveAll q) = None"
  shows "case r of Inl e \<Rightarrow> \<forall>q. map_of (fs w') q = map_of (fs w) q
    | Inr p \<Rightarrow> \<exists>c. p_cleanup p = Some c \<and> (\<forall>q v. map_of (fs (c h v)) q = (if inside bundle q then None else map_of (fs v) q))"
proof -
  note paths = bundle_paths [OF assms(3)]
  have ins: "inside bundle (bundle @ ''/rootfs'')" "inside bundle (bundle @ ''/config.json'')"
    by (simp_all add: inside_def prefix_def)
  have rm: "map_of (fs (snd (os_remove_all h bundle v))) q = (if inside bundle q then None else map_of (fs v) q)" for v q
    using assms(5) by (simp add: os_remove_all_def sys_def map_of_drop_tree)
  obtain b w1 where mk: "os_mkdir_temp h ''exec-sandbox-oci-'' w = (b, w1)" by fastforce
  show ?thesis
  proof (cases b)
    case (Inl e)
    then have "r = Inl e" "w' = w1" using assms(1) by (simp_all add: gvisor_Argv_def mk)
    then show ?thesis using os_mkdir_temp_D [OF mk] Inl by simp
  next
    case (Inr d)
    then have d: "d = bundle" "map_of (fs w1) = (map_of (fs w))(bundle \<mapsto> DirN 0x1C0)"
      using os_mkdir_temp_D [OF mk] assms(2) by simp_all
    obtain u w2 where ro: "os_mkdir_all h (path_join [bundle, ''rootfs'']) 0x1C0 w1 = (u, w2)" by fastforce
    obtain spec degrades w3 where sp: "gvisor_spec h scriptPath proxySock workdir fileReads env envCreds lm w2 = ((spec, degrades), w3)"
      by (metis prod.collapse)
    obtain v w4 where wr: "os_write_file h (path_join [bundle, ''config.json'']) (marshal_indent g 0 (JObj spec)) 0x180 w3 = (v, w4)"
      by fastforce
    have out: "map_of (fs w2) q = map_of (fs w) q" "map_of (fs w4) q = map_of (fs w) q" if "\<not> inside bundle q" for q
    proof -
      have "q \<noteq> bundle" "q \<noteq> bundle @ ''/rootfs''" "q \<noteq> bundle @ ''/config.json''" using that ins by auto
      then show "map_of (fs w2) q = map_of (fs w) q" "map_of (fs w4) q = map_of (fs w) q"
        using os_mkdir_all_D [OF ro] os_write_file_D [OF wr] gvisor_spec_fields(8) [OF sp] d(2) paths by simp_all
    qed
    show ?thesis
    proof (cases "u = Inr () \<and> v = Inr ()")
      case True
      then obtain p where "r = Inr p" "p_cleanup p = Some (\<lambda>h w. snd (os_remove_all h bundle w))"
        using assms(1) Inr d by (auto simp: gvisor_Argv_def mk ro sp wr split: prod.splits)
      then show ?thesis using rm by simp
    next
      case False
      then obtain e where "r = Inl e" "w' = snd (os_remove_all h bundle w2) \<or> w' = snd (os_remove_all h bundle w4)"
        using assms(1) Inr d by (cases u; cases v) (auto simp: gvisor_Argv_def mk ro sp wr split: prod.splits)
      then show ?thesis using rm out assms(4) by auto
    qed
  qed
qed

section \<open>Witnesses\<close>

lemma sample_bundle: "h_tmp sample_host n ''exec-sandbox-oci-'' = ''/tmp/exec-sandbox-oci-1''"
  by (simp add: sample_host_def)

lemma sample_bundle_clean: "clean_abs ''/tmp/exec-sandbox-oci-1''"
  unfolding clean_abs_def
  by (rule exI [of _ "[''tmp'', ''exec-sandbox-oci-1'']"]) (simp add: path_simps)

lemma sample_gvisor_prepares:
  "\<exists>p w'. gvisor_Argv sample_lib sample_host s ps wd reads env creds lm bare_world = (Inr p, w')"
proof -
  have calm: "h_fault sample_host n op = None" for n op by (simp add: sample_host_def)
  show ?thesis
    by (simp add: gvisor_Argv_def os_mkdir_temp_def os_mkdir_all_def os_write_file_def sys_def calm Let_def
        split: prod.splits)
qed


lemma gvisor_bundle_reclaimed_witness:
  "\<exists>p w' c. gvisor_Argv sample_lib sample_host ''/s'' ''/p'' [] [] [] [] no_limits bare_world = (Inr p, w') \<and>
    p_cleanup p = Some c \<and> map_of (fs (c sample_host w')) ''/tmp/exec-sandbox-oci-1/config.json'' = None"
proof -
  let ?b = "''/tmp/exec-sandbox-oci-1''"
  obtain p w' where r: "gvisor_Argv sample_lib sample_host ''/s'' ''/p'' [] [] [] [] no_limits bare_world = (Inr p, w')"
    using sample_gvisor_prepares by blast
  have b: "?b = h_tmp sample_host (tick bare_world) ''exec-sandbox-oci-''" by (simp add: sample_bundle)
  have none: "\<forall>q. inside ?b q \<longrightarrow> map_of (fs bare_world) q = None"
    by (auto simp: bare_world_def inside_def prefix_def)
  have calm: "\<forall>n q. h_fault sample_host n (OpRemoveAll q) = None" by (simp add: sample_host_def)
  have ins: "inside ?b ''/tmp/exec-sandbox-oci-1/config.json''" by (simp add: inside_def prefix_def)
  from gvisor_bundle_reclaimed [OF r b sample_bundle_clean none calm] obtain c where
    c: "p_cleanup p = Some c" "\<forall>q v. map_of (fs (c sample_host v)) q = (if inside ?b q then None else map_of (fs v) q)"
    unfolding sum.case by blast
  from c(2) ins have "map_of (fs (c sample_host w')) ''/tmp/exec-sandbox-oci-1/config.json'' = None" by presburger
  with r c(1) show ?thesis by blast
qed

end
