(* ===== verification/Vsock.thy ===== *)
theory Vsock
  imports World
begin

text \<open>
  vsockbridge.go, vsockshim.go and the guest's shim (guest/rootfs/shim/main.go): the byte relays
  between the payload's /proxy.sock and the host's egress proxy. Each relay server keeps the set
  of its live connections and a closed flag behind a mutex; its goroutines (the accept loop, one per
  connection, and \<open>Stop\<close>) interleave, which is the step relation \<open>rstep\<close> over the
  server's own operations. The interface of those operations is the locale \<open>relay_server\<close>, proved
  once and interpreted for the host bridge and for the guest shim.

  A connection is a number; \<open>net.Conn.Close\<close> puts it into the set of closed ones.
\<close>

section \<open>The host bridge and the guest shim\<close>

type_synonym conn = nat

record vsockBridge =
  b_listen :: string
  b_proxySock :: string
  b_conns :: "conn set"
  b_closed :: bool

record guestShim =
  s_listen :: string
  s_conns :: "conn set"
  s_closed :: bool

definition startVsockBridge :: "golib \<Rightarrow> host \<Rightarrow> string \<Rightarrow> string \<Rightarrow> world \<Rightarrow> vsockBridge res \<times> world" where
  "startVsockBridge g h vsockUDS proxySock w = (case listen_unix h vsockUDS 0x180 w of
     (Inl e, w1) \<Rightarrow> (Inl (''vsock bridge listen '' @ g_quote g vsockUDS @ '': '' @ e), w1)
   | (Inr _, w1) \<Rightarrow> (Inr \<lparr>b_listen = vsockUDS, b_proxySock = proxySock, b_conns = {}, b_closed = False\<rparr>, w1))"

text \<open>\<open>Stop\<close> as the host sees it, when it has returned: the listening socket is gone.\<close>

definition bridge_Stop :: "vsockBridge \<Rightarrow> world \<Rightarrow> world" where
  "bridge_Stop b w = unlisten (b_listen b) w"

definition startGuestShim :: "golib \<Rightarrow> host \<Rightarrow> string \<Rightarrow> world \<Rightarrow> guestShim res \<times> world" where
  "startGuestShim g h proxySock w = (case listen_unix h proxySock 0x180 w of
     (Inl e, w1) \<Rightarrow> (Inl (''guest shim listen '' @ g_quote g proxySock @ '': '' @ e), w1)
   | (Inr _, w1) \<Rightarrow> (Inr \<lparr>s_listen = proxySock, s_conns = {}, s_closed = False\<rparr>, w1))"

text \<open>The critical sections: \<open>track\<close>, \<open>untrack\<close> and the locked part of \<open>Stop\<close>.\<close>

definition bridge_track :: "conn \<Rightarrow> vsockBridge \<times> conn set \<Rightarrow> vsockBridge \<times> conn set" where
  "bridge_track c x = (case x of (b, shut) \<Rightarrow>
     if b_closed b then (b, insert c shut) else (b\<lparr>b_conns := insert c (b_conns b)\<rparr>, shut))"

definition bridge_untrack :: "conn \<Rightarrow> vsockBridge \<Rightarrow> vsockBridge" where
  "bridge_untrack c b = b\<lparr>b_conns := b_conns b - {c}\<rparr>"

definition bridge_mark :: "vsockBridge \<times> conn set \<Rightarrow> vsockBridge \<times> conn set" where
  "bridge_mark x = (case x of (b, shut) \<Rightarrow> (b\<lparr>b_closed := True\<rparr>, shut \<union> b_conns b))"

definition shim_track :: "conn \<Rightarrow> guestShim \<times> conn set \<Rightarrow> guestShim \<times> conn set" where
  "shim_track c x = (case x of (s, shut) \<Rightarrow>
     if s_closed s then (s, insert c shut) else (s\<lparr>s_conns := insert c (s_conns s)\<rparr>, shut))"

definition shim_untrack :: "conn \<Rightarrow> guestShim \<Rightarrow> guestShim" where
  "shim_untrack c s = s\<lparr>s_conns := s_conns s - {c}\<rparr>"

definition shim_mark :: "guestShim \<times> conn set \<Rightarrow> guestShim \<times> conn set" where
  "shim_mark x = (case x of (s, shut) \<Rightarrow> (s\<lparr>s_closed := True\<rparr>, shut \<union> s_conns s))"

section \<open>The goroutines\<close>

text \<open>
  What a connection's goroutine is doing: dialling the other side, or pumping. \<open>Stop\<close> has four
  stages: not called, connections marked and closed, listener closed, returned from its wait.
\<close>

datatype goroutine = Dialling | Pumping conn

datatype stop_stage = NotStopped | Marked | ListenerClosed | Returned

text \<open>The stages are ordered by progress.\<close>

primrec stage_no :: "stop_stage \<Rightarrow> nat" where
  "stage_no NotStopped = 0"
| "stage_no Marked = 1"
| "stage_no ListenerClosed = 2"
| "stage_no Returned = 3"

lemma stage_no_inject: "stage_no s = stage_no t \<Longrightarrow> s = t"
  by (cases s; cases t) simp_all

instantiation stop_stage :: linorder
begin

definition less_eq_stop_stage :: "stop_stage \<Rightarrow> stop_stage \<Rightarrow> bool" where
  "less_eq_stop_stage s t \<longleftrightarrow> stage_no s \<le> stage_no t"

definition less_stop_stage :: "stop_stage \<Rightarrow> stop_stage \<Rightarrow> bool" where
  "less_stop_stage s t \<longleftrightarrow> stage_no s < stage_no t"

instance
  by standard (auto simp: less_eq_stop_stage_def less_stop_stage_def stage_no_inject)

end

record 's rsys =
  srv :: 's
  shut :: "conn set"                \<comment> \<open>connections closed on our side\<close>
  opened :: "conn set"              \<comment> \<open>every connection accepted or dialled so far\<close>
  accepting :: bool                 \<comment> \<open>the accept loop has not returned\<close>
  gor :: "(conn \<times> goroutine) set"  \<comment> \<open>the running goroutines, by accepted connection\<close>
  stop :: stop_stage

definition rinit :: "'s \<Rightarrow> 's rsys" where
  "rinit s = \<lparr>srv = s, shut = {}, opened = {}, accepting = True, gor = {}, stop = NotStopped\<rparr>"

inductive rstep :: "(conn \<Rightarrow> 's \<times> conn set \<Rightarrow> 's \<times> conn set) \<Rightarrow> (conn \<Rightarrow> 's \<Rightarrow> 's) \<Rightarrow>
    ('s \<times> conn set \<Rightarrow> 's \<times> conn set) \<Rightarrow> 's rsys \<Rightarrow> 's rsys \<Rightarrow> bool" for track untrack mark where
  accept: "accepting x \<Longrightarrow> stop x \<in> {NotStopped, Marked} \<Longrightarrow> c \<notin> opened x \<Longrightarrow>
     (s', sh') = track c (srv x, shut x) \<Longrightarrow>
     rstep track untrack mark x (x\<lparr>srv := s', shut := sh', opened := insert c (opened x),
       gor := insert (c, Dialling) (gor x)\<rparr>)"
| loop_ends: "accepting x \<Longrightarrow> stop x = ListenerClosed \<Longrightarrow> rstep track untrack mark x (x\<lparr>accepting := False\<rparr>)"
| dial_fails: "(c, Dialling) \<in> gor x \<Longrightarrow>
     rstep track untrack mark x (x\<lparr>srv := untrack c (srv x), shut := insert c (shut x),
       gor := gor x - {(c, Dialling)}\<rparr>)"
| dialled: "(c, Dialling) \<in> gor x \<Longrightarrow> p \<notin> opened x \<Longrightarrow>
     (s', sh') = track p (srv x, shut x) \<Longrightarrow>
     rstep track untrack mark x (x\<lparr>srv := s', shut := sh', opened := insert p (opened x),
       gor := insert (c, Pumping p) (gor x - {(c, Dialling)})\<rparr>)"
| pump_ends: "(c, Pumping p) \<in> gor x \<Longrightarrow>
     rstep track untrack mark x (x\<lparr>srv := untrack c (untrack p (srv x)), shut := insert c (insert p (shut x)),
       gor := gor x - {(c, Pumping p)}\<rparr>)"
| mark_all: "stop x = NotStopped \<Longrightarrow> (s', sh') = mark (srv x, shut x) \<Longrightarrow>
     rstep track untrack mark x (x\<lparr>srv := s', shut := sh', stop := Marked\<rparr>)"
| close_listener: "stop x = Marked \<Longrightarrow> rstep track untrack mark x (x\<lparr>stop := ListenerClosed\<rparr>)"
| returns: "stop x = ListenerClosed \<Longrightarrow> \<not> accepting x \<Longrightarrow> gor x = {} \<Longrightarrow>
     rstep track untrack mark x (x\<lparr>stop := Returned\<rparr>)"

inductive_cases rstepE: "rstep track untrack mark x y"

text \<open>\<open>Stop\<close> only advances, and once it has been called no connection is reopened.\<close>

lemma rstep_stop_mono: "rstep track untrack mark x y \<Longrightarrow> stop x \<le> stop y"
  by (erule rstepE) (simp_all add: less_eq_stop_stage_def)

lemma rsteps_stop_mono: "(rstep track untrack mark)\<^sup>*\<^sup>* x y \<Longrightarrow> stop x \<le> stop y"
  by (induction rule: rtranclp_induct) (auto intro: order_trans rstep_stop_mono)

lemma stopped_le: "NotStopped < s \<longleftrightarrow> s \<noteq> NotStopped"
  by (cases s) (simp_all add: less_stop_stage_def)

text \<open>The connections a goroutine will close when it ends.\<close>

definition owned :: "(conn \<times> goroutine) set \<Rightarrow> conn \<Rightarrow> bool" where
  "owned g c \<longleftrightarrow> (\<exists>q r. (q, r) \<in> g \<and> (c = q \<or> r = Pumping c))"

lemma owned_insert: "owned (insert (q, r) g) c \<longleftrightarrow> owned g c \<or> c = q \<or> r = Pumping c"
  by (auto simp: owned_def)

lemma owned_remove:
  "owned g c \<Longrightarrow> c \<noteq> q \<Longrightarrow> owned (g - {(q, Dialling)}) c"
  "owned g c \<Longrightarrow> c \<noteq> q \<Longrightarrow> c \<noteq> p \<Longrightarrow> owned (g - {(q, Pumping p)}) c"
  by (auto simp: owned_def)

section \<open>The interface of a relay server\<close>

locale relay_server =
  fixes conns :: "'s \<Rightarrow> conn set"
    and closed :: "'s \<Rightarrow> bool"
    and track :: "conn \<Rightarrow> 's \<times> conn set \<Rightarrow> 's \<times> conn set"
    and untrack :: "conn \<Rightarrow> 's \<Rightarrow> 's"
    and mark :: "'s \<times> conn set \<Rightarrow> 's \<times> conn set"
  assumes track_open: "\<not> closed s \<Longrightarrow>
      conns (fst (track c (s, sh))) = insert c (conns s) \<and> snd (track c (s, sh)) = sh \<and> \<not> closed (fst (track c (s, sh)))"
    and track_closed: "closed s \<Longrightarrow> track c (s, sh) = (s, insert c sh)"
    and conns_untrack: "conns (untrack c s) = conns s - {c}"
    and closed_untrack: "closed (untrack c s) = closed s"
    and mark_closes: "closed (fst (mark (s, sh))) \<and> snd (mark (s, sh)) = sh \<union> conns s"
begin

definition good :: "'s rsys \<Rightarrow> bool" where
  "good x \<longleftrightarrow> closed (srv x) = (stop x \<noteq> NotStopped) \<and>
     (closed (srv x) \<longrightarrow> opened x \<subseteq> shut x) \<and>
     (\<not> closed (srv x) \<longrightarrow> opened x - shut x \<subseteq> conns (srv x)) \<and>
     (\<forall>c \<in> opened x - shut x. owned (gor x) c) \<and>
     (stop x = Returned \<longrightarrow> \<not> accepting x \<and> gor x = {}) \<and> finite (gor x) \<and> finite (opened x)"

lemma good_init: "\<not> closed s \<Longrightarrow> good (rinit s)"
  by (simp add: good_def rinit_def)

lemma track_cases:
  assumes "(s', sh') = track c (s, sh)"
  shows "closed s' = closed s \<and>
    (if closed s then s' = s \<and> sh' = insert c sh else conns s' = insert c (conns s) \<and> sh' = sh)"
  using assms track_open [of s c sh] track_closed [of s c sh] by (auto simp: prod_eq_iff)

lemma good_step:
  assumes "rstep track untrack mark x y" and "good x"
  shows "good y"
  using assms
proof (cases rule: rstep.cases)
  case (accept c s' sh')
  then show ?thesis using assms(2) track_cases [OF accept(5)]
    by (auto simp: good_def owned_insert split: if_splits)
next
  case (dialled c p s' sh')
  have "owned (insert (c, Pumping p) (gor x - {(c, Dialling)})) d" if "owned (gor x) d" for d
    using that owned_remove(1) [of "gor x" d c] by (auto simp: owned_insert)
  with dialled show ?thesis using assms(2) track_cases [OF dialled(4)]
    by (auto simp: good_def owned_insert split: if_splits)
next
  case (mark_all s' sh')
  then show ?thesis using assms(2) mark_closes [of "srv x" "shut x"]
    by (auto simp: good_def prod_eq_iff)
qed (auto simp: good_def conns_untrack closed_untrack owned_remove)

lemma good_reachable:
  assumes "(rstep track untrack mark)\<^sup>*\<^sup>* (rinit s) x" and "\<not> closed s"
  shows "good x"
  using assms by (induction rule: rtranclp_induct) (auto intro: good_init good_step)

lemma stopped_leaves_nothing:
  assumes "(rstep track untrack mark)\<^sup>*\<^sup>* (rinit s) x" and "\<not> closed s"
  shows "(stop x \<noteq> NotStopped \<longrightarrow> opened x \<subseteq> shut x) \<and>
    (stop x = Returned \<longrightarrow> \<not> accepting x \<and> gor x = {})"
  using good_reachable [OF assms] by (auto simp: good_def)

text \<open>What \<open>Stop\<close> has closed stays closed, whatever the goroutines still do.\<close>

lemma stays_closed:
  assumes "(rstep track untrack mark)\<^sup>*\<^sup>* (rinit s) x" and "\<not> closed s" and "stop x \<noteq> NotStopped"
    and "(rstep track untrack mark)\<^sup>*\<^sup>* x y"
  shows "opened y \<subseteq> shut y"
proof -
  have "stop y \<noteq> NotStopped" using rsteps_stop_mono [OF assms(4)] assms(3) stopped_le by (metis leD)
  with stopped_leaves_nothing [OF rtranclp_trans [OF assms(1,4)] assms(2)] show ?thesis by simp
qed

text \<open>Once the listener is closed some run of the goroutines always lets \<open>Stop\<close> return.\<close>

lemma drains:
  assumes "finite (gor x)" and "stop x = ListenerClosed" and "\<not> accepting x"
  shows "\<exists>y. (rstep track untrack mark)\<^sup>*\<^sup>* x y \<and> stop y = Returned"
  using assms
proof (induction "gor x" arbitrary: x rule: finite_psubset_induct)
  case psubset
  show ?case
  proof (cases "gor x = {}")
    case True
    with psubset.prems returns [of x track untrack mark] show ?thesis
      by (intro exI [of _ "x\<lparr>stop := Returned\<rparr>"]) auto
  next
    case False
    then obtain c r where g: "(c, r) \<in> gor x" by auto
    obtain y where y: "rstep track untrack mark x y" "gor y = gor x - {(c, r)}" "stop y = stop x"
        "accepting y = accepting x"
    proof (cases r)
      case Dialling
      with g dial_fails [of c x track untrack mark] that show thesis by auto
    next
      case (Pumping p)
      with g pump_ends [of c p x track untrack mark] that show thesis by auto
    qed
    from y(2) g have "gor y \<subset> gor x" by auto
    with psubset y obtain z where "(rstep track untrack mark)\<^sup>*\<^sup>* y z" "stop z = Returned" by metis
    with y(1) show ?thesis by (meson converse_rtranclp_into_rtranclp)
  qed
qed

lemma stop_can_return:
  assumes "(rstep track untrack mark)\<^sup>*\<^sup>* (rinit s) x" and "\<not> closed s"
  shows "\<exists>y. (rstep track untrack mark)\<^sup>*\<^sup>* x y \<and> stop y = Returned"
proof -
  note g = good_reachable [OF assms]
  have lc: "\<exists>y. (rstep track untrack mark)\<^sup>*\<^sup>* x y \<and> stop y = Returned" if st: "stop x = ListenerClosed" "finite (gor x)" for x
  proof (cases "accepting x")
    case True
    then have "rstep track untrack mark x (x\<lparr>accepting := False\<rparr>)" using st by (intro loop_ends)
    moreover obtain y where "(rstep track untrack mark)\<^sup>*\<^sup>* (x\<lparr>accepting := False\<rparr>) y" "stop y = Returned"
      using drains [of "x\<lparr>accepting := False\<rparr>"] st by simp blast
    ultimately show ?thesis by (meson converse_rtranclp_into_rtranclp)
  qed (use st drains in blast)
  have mk: "\<exists>y. (rstep track untrack mark)\<^sup>*\<^sup>* x y \<and> stop y = Returned" if st: "stop x = Marked" "finite (gor x)" for x
  proof -
    have "rstep track untrack mark x (x\<lparr>stop := ListenerClosed\<rparr>)" using st by (intro close_listener)
    moreover obtain y where "(rstep track untrack mark)\<^sup>*\<^sup>* (x\<lparr>stop := ListenerClosed\<rparr>) y" "stop y = Returned"
      using lc [of "x\<lparr>stop := ListenerClosed\<rparr>"] st by simp blast
    ultimately show ?thesis by (meson converse_rtranclp_into_rtranclp)
  qed
  have ns: "\<exists>y. (rstep track untrack mark)\<^sup>*\<^sup>* x y \<and> stop y = Returned" if st: "stop x = NotStopped" "finite (gor x)" for x
  proof -
    obtain s' sh' where m: "(s', sh') = mark (srv x, shut x)" by (metis prod.collapse)
    then have "rstep track untrack mark x (x\<lparr>srv := s', shut := sh', stop := Marked\<rparr>)"
      using st by (intro mark_all)
    moreover obtain y where "(rstep track untrack mark)\<^sup>*\<^sup>* (x\<lparr>srv := s', shut := sh', stop := Marked\<rparr>) y" "stop y = Returned"
      using mk [of "x\<lparr>srv := s', shut := sh', stop := Marked\<rparr>"] st by simp blast
    ultimately show ?thesis by (meson converse_rtranclp_into_rtranclp)
  qed
  from g have "finite (gor x)" by (simp add: good_def)
  then show ?thesis
    using ns lc mk by (cases "stop x") auto
qed

end

interpretation bridge: relay_server b_conns b_closed bridge_track bridge_untrack bridge_mark
  by unfold_locales (simp_all add: bridge_track_def bridge_untrack_def bridge_mark_def)

interpretation shim: relay_server s_conns s_closed shim_track shim_untrack shim_mark
  by unfold_locales (simp_all add: shim_track_def shim_untrack_def shim_mark_def)

text \<open>The goroutines of the host bridge and of the guest shim.\<close>

definition bridge_step :: "vsockBridge rsys \<Rightarrow> vsockBridge rsys \<Rightarrow> bool" where
  "bridge_step = rstep bridge_track bridge_untrack bridge_mark"

definition shim_step :: "guestShim rsys \<Rightarrow> guestShim rsys \<Rightarrow> bool" where
  "shim_step = rstep shim_track shim_untrack shim_mark"


section \<open>The byte pump\<close>

text \<open>
  One direction of a relay: what the source has yet to deliver, what the destination got, whether the
  copy goroutine has finished (and half-closed the destination). The two directions are two goroutines;
  a schedule says whose turn it is, how much a read returns, and where a read or write fails.
\<close>

record stream =
  st_src :: bytes
  st_dst :: bytes
  st_done :: bool

datatype pev = Move bool nat | Fail bool   \<comment> \<open>True: from the first connection to the second\<close>

definition cp_move :: "nat \<Rightarrow> stream \<Rightarrow> stream" where
  "cp_move n s = (if st_done s then s
     else if st_src s = [] then s\<lparr>st_done := True\<rparr>
     else s\<lparr>st_src := drop (Suc n) (st_src s), st_dst := st_dst s @ take (Suc n) (st_src s)\<rparr>)"

fun pump_step :: "pev \<Rightarrow> stream \<times> stream \<Rightarrow> stream \<times> stream" where
  "pump_step (Move d n) (x, y) = (if d then (cp_move n x, y) else (x, cp_move n y))"
| "pump_step (Fail d) (x, y) = (if d then (x\<lparr>st_done := True\<rparr>, y) else (x, y\<lparr>st_done := True\<rparr>))"

definition new_stream :: "bytes \<Rightarrow> stream" where
  "new_stream a = \<lparr>st_src = a, st_dst = [], st_done = False\<rparr>"

definition pump :: "pev list \<Rightarrow> bytes \<Rightarrow> bytes \<Rightarrow> stream \<times> stream" where
  "pump evs a b = fold pump_step evs (new_stream a, new_stream b)"

text \<open>\<open>relay\<close> of the shim and of the guest's main package repeat \<open>pump\<close>'s text.\<close>

definition relay :: "pev list \<Rightarrow> bytes \<Rightarrow> bytes \<Rightarrow> stream \<times> stream" where
  "relay evs a b = fold pump_step evs (new_stream a, new_stream b)"

text \<open>
  The guest's dial of the host: raw system calls, each answered by \<open>vsock_os\<close>, on a descriptor that
  has to be closed on every path. The address is the memory of a \<open>sockaddrVM\<close>, in the byte order of the
  little-endian machines the shim is built for.
\<close>

definition hostCID :: "32 word" where "hostCID = 2"
definition proxyPort :: "32 word" where "proxyPort = 1024"
definition afVSOCK :: "16 word" where "afVSOCK = 40"

record sockaddrVM =
  sa_family :: "16 word"
  sa_reserved :: "16 word"
  sa_port :: "32 word"
  sa_cid :: "32 word"
  sa_zero :: bytes

definition le16 :: "16 word \<Rightarrow> bytes" where
  "le16 v = map (\<lambda>k. char_of (unat (drop_bit k v) mod 256)) [0, 8]"

definition le32 :: "32 word \<Rightarrow> bytes" where
  "le32 v = map (\<lambda>k. char_of (unat (drop_bit k v) mod 256)) [0, 8, 16, 24]"

definition sockaddr_memory :: "sockaddrVM \<Rightarrow> bytes" where
  "sockaddr_memory sa = le16 (sa_family sa) @ le16 (sa_reserved sa) @ le32 (sa_port sa) @ le32 (sa_cid sa) @ sa_zero sa"

record vsock_os =
  v_socket :: "int res"                       \<comment> \<open>socket(AF_VSOCK, SOCK_STREAM, 0)\<close>
  v_connect :: "int \<Rightarrow> bytes \<Rightarrow> gerr option"  \<comment> \<open>connect on a descriptor to the address in memory\<close>
  v_fileconn :: "int \<Rightarrow> int res"              \<comment> \<open>\<open>net.FileConn\<close>: a duplicate of the descriptor\<close>

datatype fd_op = FdOpen int | FdClose int

definition dialVsock :: "vsock_os \<Rightarrow> 32 word \<Rightarrow> 32 word \<Rightarrow> int res \<times> fd_op list" where
  "dialVsock v cid port = (case v_socket v of
     Inl e \<Rightarrow> (Inl e, [])
   | Inr fd \<Rightarrow>
      (let sa = \<lparr>sa_family = afVSOCK, sa_reserved = 0, sa_port = port, sa_cid = cid, sa_zero = replicate 4 CHR 0x00\<rparr> in
       case v_connect v fd (sockaddr_memory sa) of
         Some errno \<Rightarrow> (Inl errno, [FdOpen fd, FdClose fd])
       | None \<Rightarrow> (case v_fileconn v fd of
           Inl e \<Rightarrow> (Inl e, [FdOpen fd, FdClose fd])
         | Inr c \<Rightarrow> (Inr c, [FdOpen fd, FdOpen c, FdClose fd]))))"

text \<open>A connection in the guest's main package: a failed dial drops it.\<close>

definition guest_handle :: "vsock_os \<Rightarrow> pev list \<Rightarrow> bytes \<Rightarrow> bytes \<Rightarrow> stream \<times> stream" where
  "guest_handle v evs client up = (case fst (dialVsock v hostCID proxyPort) of
     Inl e \<Rightarrow> ((new_stream client)\<lparr>st_done := True\<rparr>, (new_stream up)\<lparr>st_done := True\<rparr>)
   | Inr _ \<Rightarrow> relay evs client up)"

text \<open>The guest's main: the socket path from the command line, a listener open to every guest user.\<close>

definition guest_main :: "host \<Rightarrow> string list \<Rightarrow> world \<Rightarrow> string res \<times> world" where
  "guest_main h args w =
     (let sockPath = (case args of _ # a # _ \<Rightarrow> if a \<noteq> [] then a else ''/proxy.sock'' | _ \<Rightarrow> ''/proxy.sock'')
      in case listen_unix h sockPath 0x1B6 w of
        (Inl e, w1) \<Rightarrow> (Inl (''guest-proxy-shim: listen '' @ sockPath @ '': '' @ e), w1)
      | (Inr _, w1) \<Rightarrow> (Inr sockPath, w1))"

definition intact :: "bytes \<Rightarrow> stream \<Rightarrow> bool" where
  "intact a s \<longleftrightarrow> st_dst s @ st_src s = a"

lemma cp_move_intact: "intact a s \<Longrightarrow> intact a (cp_move n s)"
  by (auto simp: intact_def cp_move_def)

lemma pump_step_intact:
  "intact a (fst z) \<Longrightarrow> intact b (snd z) \<Longrightarrow> intact a (fst (pump_step e z)) \<and> intact b (snd (pump_step e z))"
  by (cases z; cases e) (auto simp: cp_move_intact, auto simp: intact_def)

definition drained :: "pev list \<Rightarrow> stream \<times> stream \<Rightarrow> bool" where
  \<comment> \<open>a copy that finished without a failure has read everything\<close>
  "drained evs z \<longleftrightarrow> (Fail True \<notin> set evs \<longrightarrow> st_done (fst z) \<longrightarrow> st_src (fst z) = []) \<and>
     (Fail False \<notin> set evs \<longrightarrow> st_done (snd z) \<longrightarrow> st_src (snd z) = [])"

lemma pump_step_drained: "drained evs z \<Longrightarrow> drained (e # evs) (pump_step e z)"
  by (cases z; cases e) (auto simp: drained_def cp_move_def split: if_splits)

lemma fold_pump:
  assumes "intact a (fst z)" and "intact b (snd z)" and "drained ds z"
  shows "intact a (fst (fold pump_step evs z)) \<and> intact b (snd (fold pump_step evs z)) \<and>
    drained (rev evs @ ds) (fold pump_step evs z)"
  using assms
proof (induction evs arbitrary: z ds)
  case (Cons e evs)
  from Cons.IH [of "pump_step e z" "e # ds"] Cons.prems pump_step_intact [of a z b e] pump_step_drained [of ds z e]
  show ?case by simp
qed simp

lemma pump_facts:
  "intact a (fst (pump evs a b))" "intact b (snd (pump evs a b))"
  "Fail True \<notin> set evs \<Longrightarrow> st_done (fst (pump evs a b)) \<Longrightarrow> st_dst (fst (pump evs a b)) = a"
  "Fail False \<notin> set evs \<Longrightarrow> st_done (snd (pump evs a b)) \<Longrightarrow> st_dst (snd (pump evs a b)) = b"
proof -
  have "intact a (fst (new_stream a, new_stream b))" "intact b (snd (new_stream a, new_stream b))"
      "drained [] (new_stream a, new_stream b)"
    by (simp_all add: intact_def new_stream_def drained_def)
  from fold_pump [OF this, of evs] show "intact a (fst (pump evs a b))" "intact b (snd (pump evs a b))"
    "Fail True \<notin> set evs \<Longrightarrow> st_done (fst (pump evs a b)) \<Longrightarrow> st_dst (fst (pump evs a b)) = a"
    "Fail False \<notin> set evs \<Longrightarrow> st_done (snd (pump evs a b)) \<Longrightarrow> st_dst (snd (pump evs a b)) = b"
    by (auto simp: pump_def drained_def intact_def)
qed

lemma relay_pump: "relay = pump"
  by (simp add: fun_eq_iff relay_def pump_def)

text \<open>What the kernel reads at the address: 16 bytes, the host's context id and the proxy's port.\<close>

definition proxy_addr :: bytes where
  "proxy_addr = map char_of [40, 0, 0, 0, 0, 4, 0, 0, 2, 0, 0, 0, 0, 0, 0, 0 :: nat]"

lemma dial_addr:
  "sockaddr_memory \<lparr>sa_family = afVSOCK, sa_reserved = 0, sa_port = proxyPort, sa_cid = hostCID, sa_zero = replicate 4 CHR 0x00\<rparr> =
     proxy_addr"
  by (simp add: sockaddr_memory_def proxy_addr_def le16_def le32_def afVSOCK_def proxyPort_def hostCID_def) code_simp

text \<open>The socket of a dial is closed on every path; only the duplicate of a dial that succeeded is left open.\<close>

definition left_open :: "fd_op list \<Rightarrow> int list" where
  "left_open ops = fold (\<lambda>x fds. case x of FdOpen n \<Rightarrow> fds @ [n] | FdClose n \<Rightarrow> remove1 n fds) ops []"

lemma dialVsock_D:
  assumes "dialVsock v hostCID proxyPort = (r, ops)"
  shows "left_open ops = (case r of Inl e \<Rightarrow> [] | Inr c \<Rightarrow> [c])"
    and "r = Inr c \<Longrightarrow> \<exists>fd. v_socket v = Inr fd \<and> v_connect v fd proxy_addr = None \<and> v_fileconn v fd = Inr c"
  using assms by (auto simp: dialVsock_def left_open_def dial_addr split: sum.splits option.splits)

text \<open>C25: The vsock channel is a transparent wire: whatever the schedules and failures of the guest relay
  and of the host pump, the bytes the egress proxy receives are a prefix of the bytes the payload sent and
  the bytes the payload receives a prefix of what the proxy answered; when both copies of a direction end
  without a failure everything arrived; if the guest cannot reach the host nothing is delivered. The guest reaches
  it only by a connect to the host's context id on the bridge's port, and leaves no descriptor open but
  the connection itself.\<close>

theorem vsock_channel_transparent:
  assumes "guest_handle v gev request (st_dst (snd hz)) = gz" and "dialVsock v hostCID proxyPort = (dial, ops)"
    and "pump hev (st_dst (fst gz)) answer = hz"
  shows "prefix (st_dst (fst hz)) request \<and> prefix (st_dst (snd gz)) answer \<and>
    (dial = Inr c \<and> Fail True \<notin> set gev \<union> set hev \<and> st_done (fst gz) \<and> st_done (fst hz) \<longrightarrow> st_dst (fst hz) = request) \<and>
    (dial = Inr c \<and> Fail False \<notin> set gev \<union> set hev \<and> st_done (snd gz) \<and> st_done (snd hz) \<longrightarrow> st_dst (snd gz) = answer) \<and>
    (\<forall>e. dial = Inl e \<longrightarrow> st_dst (fst gz) = [] \<and> st_dst (snd gz) = []) \<and>
    (dial = Inr c \<longrightarrow> (\<exists>fd. v_socket v = Inr fd \<and> v_connect v fd proxy_addr = None)) \<and>
    left_open ops = (case dial of Inl e \<Rightarrow> [] | Inr c \<Rightarrow> [c])"
proof -
  have pre: "intact a s \<Longrightarrow> prefix (st_dst s) a" for a s
    by (auto simp: intact_def prefix_def)
  note H = pump_facts [where a = "st_dst (fst gz)" and evs = hev and b = answer, unfolded assms(3)]
  note D = dialVsock_D [OF assms(2)]
  show ?thesis
  proof (cases dial)
    case (Inl e)
    then have "st_dst (fst gz) = []" "st_dst (snd gz) = []"
      using assms(1,2) by (auto simp: guest_handle_def new_stream_def)
    then show ?thesis using Inl pre [OF H(1)] D(1) by simp
  next
    case (Inr u)
    then have g: "pump gev request (st_dst (snd hz)) = gz"
      using assms(1,2) by (simp add: guest_handle_def relay_pump)
    note G = pump_facts [where a = request and evs = gev and b = "st_dst (snd hz)", unfolded g]
    have "prefix (st_dst (fst hz)) request" "prefix (st_dst (snd gz)) answer"
      using pre [OF G(1)] pre [OF H(1)] pre [OF G(2)] pre [OF H(2)] prefix_order.trans by blast+
    then show ?thesis using G(3,4) H(3,4) Inr D by auto
  qed
qed

section \<open>The credential scan\<close>

record guestSurfaces =
  gs_env :: "string list"
  gs_args :: "string list"
  gs_stdout :: string
  gs_argv :: "string list"
  gs_result :: string

definition assertCredNotInGuest :: "golib \<Rightarrow> string \<Rightarrow> guestSurfaces \<Rightarrow> unit res" where
  "assertCredNotInGuest g credValue gs =
     (if credValue = [] then Inl ''F-002 (microVM): empty credValue is not a valid leak-scan input''
      else case filter (\<lambda>e. sublist credValue e) (gs_env gs) of
        e # _ \<Rightarrow> Inl (''F-002 (microVM): credential value found in guest env entry '' @ g_quote g e)
      | [] \<Rightarrow>
         if sublist credValue (join '' '' (gs_args gs)) then
           Inl (''F-002 (microVM): credential value found in guest args '' @ g_quote g (join '' '' (gs_args gs)))
         else if sublist credValue (gs_stdout gs) then Inl ''F-002 (microVM): credential value found in guest stdout''
         else if sublist credValue (join '' '' (gs_argv gs)) then
           Inl (''F-002 (microVM): credential value found in host spawn argv '' @ g_quote g (join '' '' (gs_argv gs)))
         else if sublist credValue (gs_result gs) then
           Inl ''F-002 (microVM): credential value found in returned result stdout''
         else Inr ())"

lemma sublist_join: "a \<in> set xs \<Longrightarrow> sublist a (join sep xs)"
proof (induction xs)
  case (Cons x xs)
  show ?case
  proof (cases "xs = []")
    case False
    then have j: "join sep (x # xs) = x @ sep @ join sep xs" by (rule join_Cons)
    show ?thesis
    proof (cases "a = x")
      case True
      then show ?thesis unfolding j by (intro prefix_imp_sublist) simp
    next
      case False
      then have "sublist a (join sep xs)" using Cons by simp
      then show ?thesis unfolding j append_assoc [symmetric] by (auto simp: sublist_def) (metis append.assoc)
    qed
  qed (use Cons in simp)
qed simp

text \<open>The leak scan misses nothing: assertCredNotInGuest accepts a set of surfaces only for a non-empty
  credential that occurs in none of them, not in any environment entry, argument or output, nor across
  the blank between two neighbouring arguments, and it rejects every surface set in which one occurs.\<close>

theorem assertCredNotInGuest_exact:
  "assertCredNotInGuest g cred gs = Inr () \<longleftrightarrow> cred \<noteq> [] \<and>
    (\<forall>s \<in> set (gs_env gs) \<union> set (gs_args gs) \<union> set (gs_argv gs) \<union>
        {gs_stdout gs, gs_result gs, join '' '' (gs_args gs), join '' '' (gs_argv gs)}. \<not> sublist cred s)"
proof -
  have mem: "sublist cred (join '' '' xs)" if "a \<in> set xs" "sublist cred a" for a xs
    using sublist_join [OF that(1), of "'' ''"] that(2) sublist_order.order_trans by blast
  have e: "filter (sublist cred) (gs_env gs) = [] \<longleftrightarrow> (\<forall>s \<in> set (gs_env gs). \<not> sublist cred s)"
    by (auto simp: filter_empty_conv)
  show ?thesis
  proof (cases "filter (sublist cred) (gs_env gs)")
    case Nil
    then show ?thesis using e mem by (auto simp: assertCredNotInGuest_def)
  next
    case (Cons x xs)
    then have "\<exists>s \<in> set (gs_env gs). sublist cred s" using e by auto
    with Cons show ?thesis by (auto simp: assertCredNotInGuest_def)
  qed
qed

section \<open>Witnesses\<close>


definition sample_vsock :: vsock_os where
  "sample_vsock = \<lparr>v_socket = Inr 7, v_connect = (\<lambda>fd a. if a = proxy_addr then None else Some ''connection refused''),
     v_fileconn = (\<lambda>fd. Inr 8)\<rparr>"

lemma vsock_channel_transparent_witness:
  "st_dst (fst (pump [Move True 9, Move False 9, Move True 0, Move False 0] ''GET'' ''200'')) = ''GET'' \<and>
   st_dst (snd (guest_handle sample_vsock [Move True 9, Move True 0, Move False 9, Move False 0] ''GET'' ''200'')) = ''200''"
proof -
  let ?h = "[Move True 9, Move False 9, Move True 0, Move False 0]"
  let ?g = "[Move True 9, Move True 0, Move False 9, Move False 0]"
  let ?gz = "guest_handle sample_vsock ?g ''GET'' ''200''"
  let ?hz = "pump ?h ''GET'' ''200''"
  have ends: "st_done (fst ?gz)" "st_done (fst ?hz)" "st_done (snd ?gz)" "st_done (snd ?hz)"
      "st_dst (fst ?gz) = ''GET''" "st_dst (snd ?hz) = ''200''"
    by (simp_all add: guest_handle_def dialVsock_def sample_vsock_def dial_addr relay_def pump_def cp_move_def new_stream_def)
  have g: "guest_handle sample_vsock ?g ''GET'' (st_dst (snd ?hz)) = ?gz" using ends by simp
  have h: "pump ?h (st_dst (fst ?gz)) ''200'' = ?hz" using ends by simp
  have d: "dialVsock sample_vsock hostCID proxyPort = (Inr 8, [FdOpen 7, FdOpen 8, FdClose 7])"
    by (simp add: dialVsock_def sample_vsock_def dial_addr)
  show ?thesis
    using vsock_channel_transparent [OF g d h, of 8] ends by simp
qed

lemma assertCredNotInGuest_exact_witness:
  "assertCredNotInGuest sample_lib ''s3'' \<lparr>gs_env = [''PATH=/bin''], gs_args = [''/usr/bin/sh'', ''/payload.sh''],
      gs_stdout = ''ok'', gs_argv = [''bwrap''], gs_result = ''ok''\<rparr> = Inr () \<and>
   assertCredNotInGuest sample_lib ''s3'' \<lparr>gs_env = [], gs_args = [], gs_stdout = ''leaks3!'', gs_argv = [],
      gs_result = []\<rparr> \<noteq> Inr ()"
  unfolding assertCredNotInGuest_exact by (simp add: sublist_code)

end
