(* ===== verification/Firecracker.thy ===== *)
theory Firecracker
  imports Bwrap Vsock
begin

unbundle bit_operations_syntax

text \<open>
  The Tier-3 backend, firecracker.go: the microVM configuration as the JSON value the code builds
  and extends in place, the ext4 drives, the copy-out and the reaping of orphans at teardown, the
  launcher's argument vector and \<open>firecrackerBackend.Argv\<close> with its clean-up on every error path.

  The ext4 image \<open>mkfs.ext4\<close> writes is an opaque file; whether the tool succeeds is the host's
  \<open>h_mkfs\<close>. \<open>debugfs\<close> is a child process of the host. Neither is recorded as a \<open>Spawn\<close>.
\<close>

section \<open>The microVM configuration\<close>

definition guestNprocBootArg :: string where "guestNprocBootArg = ''exec_sandbox.nproc''"
definition guestFileReadBootArg :: string where "guestFileReadBootArg = ''exec_sandbox.fileread''"
definition workDriveID :: string where "workDriveID = ''work''"
definition workGuestDev :: string where "workGuestDev = ''/dev/vdc''"
definition hostVsockPort :: int where "hostVsockPort = 1024"

lemma ports_agree: "hostVsockPort = uint proxyPort"
  by (simp add: hostVsockPort_def proxyPort_def)

definition boot_args :: "limits \<Rightarrow> string" where
  "boot_args lm =
     ''console=ttyS0 reboot=k panic=1 pci=off i8042.noaux i8042.nomux i8042.nopnp i8042.dumbkbd init=/sbin/init'' @
     (if PidsLimit lm > 0 then '' '' @ guestNprocBootArg @ ''='' @ itoa (PidsLimit lm) else [])"

definition drive :: "string \<Rightarrow> string \<Rightarrow> bool \<Rightarrow> bool \<Rightarrow> json" where
  "drive ident path is_root ro = JObj [(''drive_id'', JStr ident), (''path_on_host'', JStr path),
     (''is_root_device'', JBool is_root), (''is_read_only'', JBool ro)]"

definition firecrackerConfig :: "string \<Rightarrow> string \<Rightarrow> string \<Rightarrow> string \<Rightarrow> limits \<Rightarrow> json amap" where
  "firecrackerConfig kern rootfs scriptPath vsockUDS lm =
     [(''machine-config'', JObj [
         (''vcpu_count'', JInt (if CPUCount lm > 0 then CPUCount lm else 1)),
         (''mem_size_mib'', JInt (if MemoryMB lm > 0 then MemoryMB lm else 128)),
         (''smt'', JBool False), (''track_dirty_pages'', JBool False)]),
      (''boot-source'', JObj [(''kernel_image_path'', JStr kern), (''boot_args'', JStr (boot_args lm))]),
      (''drives'', JArr [drive ''rootfs'' rootfs True True]),
      (''vsock'', JObj [(''vsock_id'', JStr ''proxy''), (''guest_cid'', JInt 3), (''uds_path'', JStr vsockUDS)])]"

definition wiredFirecrackerConfig :: "string \<Rightarrow> string \<Rightarrow> string \<Rightarrow> string \<Rightarrow> string \<Rightarrow> limits \<Rightarrow> json amap" where
  "wiredFirecrackerConfig kern rootfs scriptPath vsockUDS proxySock lm =
     firecrackerConfig kern rootfs scriptPath vsockUDS lm"

definition add_drive :: "json \<Rightarrow> json amap \<Rightarrow> json amap" where
  "add_drive d cfg = aput ''drives'' (JArr (as_arr (fld cfg ''drives'') @ [d])) cfg"

definition addPayloadDrive :: "string \<Rightarrow> json amap \<Rightarrow> json amap" where
  "addPayloadDrive payloadDrive cfg = add_drive (drive ''payload'' payloadDrive False True) cfg"

definition addWorkdirDrive :: "string \<Rightarrow> json amap \<Rightarrow> json amap" where
  "addWorkdirDrive workImage cfg = add_drive (drive workDriveID workImage False False) cfg"

definition fileReadDriveID :: "nat \<Rightarrow> string" where
  "fileReadDriveID i = ''fileread_'' @ itoa (int i)"

text \<open>\<open>string(rune(n))\<close>: the UTF-8 encoding of a code point.\<close>

definition rune_string :: "nat \<Rightarrow> string" where
  "rune_string n =
     (let cont = (\<lambda>k. char_of (0x80 + n div k mod 64)) in
      if n < 0x80 then [char_of n]
      else if n < 0x800 then [char_of (0xC0 + n div 64), cont 1]
      else if 0xD800 \<le> n \<and> n \<le> 0xDFFF \<or> 0x10FFFF < n then [CHR 0xEF, CHR 0xBF, CHR 0xBD]
      else if n < 0x10000 then [char_of (0xE0 + n div 4096), cont 64, cont 1]
      else [char_of (0xF0 + n div 262144), cont 4096, cont 64, cont 1])"

definition fileReadGuestDev :: "nat \<Rightarrow> string" where
  "fileReadGuestDev i = ''/dev/vd'' @ rune_string (100 + i)"

fun driveHostPath :: "json list \<Rightarrow> string \<Rightarrow> string" where
  "driveHostPath [] ident = []"
| "driveHostPath (d # ds) ident =
     (if fld (as_obj d) ''drive_id'' = JStr ident then str (fld (as_obj d) ''path_on_host'')
      else driveHostPath ds ident)"

text \<open>The loop of \<open>validateDriveReadOnly\<close>, with the number of writable drives seen so far.\<close>

fun validate_drives :: "golib \<Rightarrow> string set \<Rightarrow> nat \<Rightarrow> json list \<Rightarrow> nat res" where
  "validate_drives g freadIDs writable [] = Inr writable"
| "validate_drives g freadIDs writable (d # ds) =
     (let ro = as_bool (fld (as_obj d) ''is_read_only''); ident = str (fld (as_obj d) ''drive_id'') in
      if \<not> ro \<and> ident \<noteq> workDriveID then
        Inl (''microVM config has a writable non-/work drive '' @ g_quote g ident @
             '' (is_read_only:false): only the /work surface may be writable (ADR 004/005, F-006/F-007)'')
      else if ident \<in> freadIDs \<and> \<not> ro then
        Inl (''microVM config presents FileRead drive '' @ g_quote g ident @
             '' WRITABLE (is_read_only:false): FileRead paths must be read-only (ADR 005 / F-007)'')
      else validate_drives g freadIDs (if ro then writable else Suc writable) ds)"

definition validateDriveReadOnly :: "golib \<Rightarrow> json amap \<Rightarrow> string list \<Rightarrow> unit res" where
  "validateDriveReadOnly g cfg fileReads =
     rbind (validate_drives g (fileReadDriveID ` {..<length fileReads}) 0 (as_arr (fld cfg ''drives'')))
       (\<lambda>writable. if writable > 1 then
          Inl (''microVM config has '' @ itoa (int writable) @ '' writable drives: /work must be the ONLY writable surface (F-006)'')
        else Inr ())"

definition nic_keys :: "string list" where
  "nic_keys = [''network-interface'', ''network-interfaces'', ''network_interface'', ''network_interfaces'']"

definition configHasNoNIC :: "golib \<Rightarrow> json amap \<Rightarrow> unit res" where
  "configHasNoNIC g cfg =
     (case filter (\<lambda>k. map_of cfg k \<noteq> None) nic_keys of
        k # _ \<Rightarrow> Inl (''microVM config contains forbidden NIC key '' @ g_quote g k @ '' (ADR 010 D2: no-NIC by omission)'')
      | [] \<Rightarrow>
         (if list_ex (\<lambda>needle. sublist needle (marshal g (JObj cfg))) [''network-interface'', ''network_interface''] then
            Inl ''microVM config JSON contains network-interface substring (ADR 010 D2)''
          else Inr ()))"

section \<open>Drives\<close>

definition payloadDriveFloorMB :: int where
  "payloadDriveFloorMB = 2"

definition payloadDriveSizeMB :: "int \<Rightarrow> int" where
  "payloadDriveSizeMB diskMB = (if diskMB > payloadDriveFloorMB then diskMB else payloadDriveFloorMB)"

definition run_mkfs :: "host \<Rightarrow> string \<Rightarrow> string list \<Rightarrow> string \<Rightarrow> world \<Rightarrow> unit res \<times> world" where
  "run_mkfs h msg argv out w = (case h_mkfs h (tick w) argv of
     Some e \<Rightarrow> (Inl (msg @ e), w\<lparr>tick := Suc (tick w)\<rparr>)
   | None \<Rightarrow> (Inr (), put_node out (FileN 0x1A4 []) (w\<lparr>tick := Suc (tick w)\<rparr>)))"

text \<open>A temporary directory removed again when the body returns.\<close>

definition with_staging :: "host \<Rightarrow> string \<Rightarrow> (string \<Rightarrow> world \<Rightarrow> 'a res \<times> world) \<Rightarrow> world \<Rightarrow> 'a res \<times> world" where
  "with_staging h pat body w = (case os_mkdir_temp h pat w of
     (Inl e, w1) \<Rightarrow> (Inl e, w1)
   | (Inr staging, w1) \<Rightarrow> (case body staging w1 of (r, w2) \<Rightarrow> (r, snd (os_remove_all h staging w2))))"

definition buildPayloadDrive :: "host \<Rightarrow> string \<Rightarrow> string \<Rightarrow> int \<Rightarrow> world \<Rightarrow> unit res \<times> world" where
  "buildPayloadDrive h scriptPath out diskMB w = (case h_lookpath h ''mkfs.ext4'' of
     Inl e \<Rightarrow> (Inl (''cannot build payload drive: mkfs.ext4 not found on PATH: '' @ e), w)
   | Inr mkfs \<Rightarrow> with_staging h ''exec-sandbox-fc-payload-'' (\<lambda>staging w1.
       (case os_read_file h scriptPath w1 of
          (Inl e, w2) \<Rightarrow> (Inl (''read payload '' @ scriptPath @ '': '' @ e), w2)
        | (Inr d, w2) \<Rightarrow> (case os_write_file h (path_join [staging, ''payload.sh'']) d 0x1A4 w2 of
            (Inl e, w3) \<Rightarrow> (Inl e, w3)
          | (Inr _, w3) \<Rightarrow> run_mkfs h ''mkfs.ext4 payload drive: ''
              [mkfs, ''-q'', ''-F'', ''-d'', staging, out, itoa (payloadDriveSizeMB diskMB) @ ''M''] out w3))) w)"

definition buildWorkdirDrive :: "host \<Rightarrow> string \<Rightarrow> string \<Rightarrow> int \<Rightarrow> world \<Rightarrow> unit res \<times> world" where
  "buildWorkdirDrive h workdir out diskMB w = (case h_lookpath h ''mkfs.ext4'' of
     Inl e \<Rightarrow> (Inl (''cannot build /work drive: mkfs.ext4 not found on PATH: '' @ e), w)
   | Inr mkfs \<Rightarrow> run_mkfs h ''mkfs.ext4 /work drive: ''
       [mkfs, ''-q'', ''-F'', ''-b'', ''1024'', ''-d'', workdir, out, itoa (payloadDriveSizeMB diskMB) @ ''M''] out w)"

text \<open>
  \<open>copyTree\<close> recurses on the names it reads; each level lengthens the destination path, so the host
  refuses the directory (ENAMETOOLONG) before the fuel of one unit per byte of PATH_MAX is used up.
\<close>

definition path_max :: nat where
  "path_max = 4096"

function (sequential) copyTree :: "nat \<Rightarrow> host \<Rightarrow> string \<Rightarrow> string \<Rightarrow> world \<Rightarrow> unit res \<times> world"
  and copy_entries :: "nat \<Rightarrow> host \<Rightarrow> string \<Rightarrow> string \<Rightarrow> string list \<Rightarrow> world \<Rightarrow> unit res \<times> world" where
  "copyTree 0 h src dst w = (Inl ''file name too long'', w)"
| "copyTree (Suc n) h src dst w = (case os_stat h src w of
     (Inl e, w1) \<Rightarrow> (Inl e, w1)
   | (Inr (DirN m), w1) \<Rightarrow> (case os_mkdir_all h dst (m AND 0x1FF OR 0x1C0) w1 of
        (Inl e, w2) \<Rightarrow> (Inl e, w2)
      | (Inr _, w2) \<Rightarrow> (case os_read_dir h src w2 of
          (Inl e, w3) \<Rightarrow> (Inl e, w3)
        | (Inr entries, w3) \<Rightarrow> copy_entries n h src dst entries w3))
   | (Inr info, w1) \<Rightarrow> (case os_read_file h src w1 of
        (Inl e, w2) \<Rightarrow> (Inl e, w2)
      | (Inr d, w2) \<Rightarrow> os_write_file h dst d ((case info of FileN m _ \<Rightarrow> m | DirN m \<Rightarrow> m | SockN m \<Rightarrow> m) AND 0x1FF) w2))"
| "copy_entries n h src dst [] w = (Inr (), w)"
| "copy_entries n h src dst (e # es) w = (case copyTree n h (path_join [src, e]) (path_join [dst, e]) w of
     (Inl err, w1) \<Rightarrow> (Inl err, w1)
   | (Inr _, w1) \<Rightarrow> copy_entries n h src dst es w1)"
  by pat_completeness auto
termination
  by (relation "measures [\<lambda>x. case x of Inl (n, _) \<Rightarrow> n | Inr (n, _) \<Rightarrow> n,
      \<lambda>x. case x of Inl _ \<Rightarrow> 0 | Inr (_, _, _, _, es, _) \<Rightarrow> Suc (length es)]") auto

definition stage_fileread :: "host \<Rightarrow> string \<Rightarrow> node \<Rightarrow> string \<Rightarrow> world \<Rightarrow> unit res \<times> world" where
  "stage_fileread h hostPath info staging w =
     (case info of
        DirN m \<Rightarrow> copyTree path_max h hostPath (path_join [staging, path_base hostPath]) w
      | _ \<Rightarrow> (case os_read_file h hostPath w of
          (Inl e, w1) \<Rightarrow> (Inl (''read FileRead path '' @ hostPath @ '': '' @ e), w1)
        | (Inr d, w1) \<Rightarrow> os_write_file h (path_join [staging, path_base hostPath]) d
             ((case info of FileN m _ \<Rightarrow> m | DirN m \<Rightarrow> m | SockN m \<Rightarrow> m) AND 0x1FF) w1))"

definition buildFileReadDrive :: "host \<Rightarrow> string \<Rightarrow> string \<Rightarrow> world \<Rightarrow> unit res \<times> world" where
  "buildFileReadDrive h hostPath out w = (case h_lookpath h ''mkfs.ext4'' of
     Inl e \<Rightarrow> (Inl (''cannot build FileRead drive: mkfs.ext4 not found on PATH: '' @ e), w)
   | Inr mkfs \<Rightarrow> (case os_stat h hostPath w of
       (Inl e, w1) \<Rightarrow> (Inl (''stat FileRead path '' @ hostPath @ '': '' @ e), w1)
     | (Inr info, w1) \<Rightarrow> with_staging h ''exec-sandbox-fc-fileread-'' (\<lambda>staging w2.
        (case stage_fileread h hostPath info staging w2 of
           (Inl e, w3) \<Rightarrow> (Inl e, w3)
         | (Inr _, w3) \<Rightarrow> run_mkfs h ''mkfs.ext4 FileRead drive: ''
             [mkfs, ''-q'', ''-F'', ''-b'', ''1024'', ''-d'', staging, out, ''4M''] out w3)) w1))"

text \<open>The loop of \<open>addFileReadDrives\<close>: the drives and the mapping built so far.\<close>

fun fileread_loop :: "golib \<Rightarrow> host \<Rightarrow> nat \<Rightarrow> string list \<Rightarrow> json list \<Rightarrow> string list \<Rightarrow> world \<Rightarrow>
    (json list \<times> string list) res \<times> world" where
  "fileread_loop g h i [] drives mapping w = (Inr (drives, mapping), w)"
| "fileread_loop g h i (p # ps) drives mapping w =
     (let bundleDir = path_dir (driveHostPath drives ''payload'');
          img = path_join [bundleDir, ''fileread-'' @ itoa (int i) @ ''.ext4''] in
      case buildFileReadDrive h p img w of
        (Inl e, w1) \<Rightarrow> (Inl (''build FileRead drive for '' @ g_quote g p @ '': '' @ e), w1)
      | (Inr _, w1) \<Rightarrow> fileread_loop g h (Suc i) ps (drives @ [drive (fileReadDriveID i) img False True])
           (mapping @ [fileReadGuestDev i @ '':'' @ p]) w1)"

definition emit_mapping :: "string list \<Rightarrow> json amap \<Rightarrow> json amap" where
  "emit_mapping mapping cfg = (case fld cfg ''boot-source'' of
     JObj bs \<Rightarrow> aput ''boot-source'' (JObj (aput ''boot_args'' (JStr (str (fld bs ''boot_args'') @ '' '' @
         guestFileReadBootArg @ ''='' @ join '','' mapping)) bs)) cfg
   | _ \<Rightarrow> cfg)"

definition addFileReadDrives :: "golib \<Rightarrow> host \<Rightarrow> string list \<Rightarrow> json amap \<Rightarrow> world \<Rightarrow> json amap res \<times> world" where
  "addFileReadDrives g h fileReads cfg w =
     (if fileReads = [] then (Inr cfg, w)
      else case fileread_loop g h 0 fileReads (as_arr (fld cfg ''drives'')) [] w of
        (Inl e, w1) \<Rightarrow> (Inl e, w1)
      | (Inr (drives, mapping), w1) \<Rightarrow> (Inr (emit_mapping mapping (aput ''drives'' (JArr drives) cfg)), w1))"

section \<open>Teardown\<close>

fun sync_entries :: "host \<Rightarrow> string \<Rightarrow> string \<Rightarrow> string list \<Rightarrow> world \<Rightarrow> world" where
  "sync_entries h staging hostDir [] w = w"
| "sync_entries h staging hostDir (e # es) w =
     sync_entries h staging hostDir es
       (if e = ''lost+found'' then w
        else snd (copyTree path_max h (path_join [staging, e]) (path_join [hostDir, e]) w))"

definition copyOutWorkdir :: "golib \<Rightarrow> host \<Rightarrow> string \<Rightarrow> string \<Rightarrow> world \<Rightarrow> world" where
  "copyOutWorkdir g h img hostDir w = (case h_lookpath h ''debugfs'' of
     Inl e \<Rightarrow> w
   | Inr debugfs \<Rightarrow> snd (with_staging h ''exec-sandbox-fc-workout-'' (\<lambda>staging w1.
       (let argv = [debugfs, ''-R'', ''rdump / '' @ g_quote g staging, img];
            w2 = w1\<lparr>fs := c_fs (h_child h (tick w1) argv [] w1), tick := Suc (tick w1)\<rparr>
        in case os_read_dir h staging w2 of
             (Inl e, w3) \<Rightarrow> (Inl e, w3)
           | (Inr entries, w3) \<Rightarrow> (Inr (), sync_entries h staging hostDir entries w3))) w))"

definition nul_to_blank :: "bytes \<Rightarrow> string" where
  "nul_to_blank = map (\<lambda>c. if c = CHR 0x00 then CHR '' '' else c)"

fun reap_targets :: "int \<Rightarrow> string \<Rightarrow> (string \<times> bytes option) list \<Rightarrow> int list" where
  "reap_targets self bndl [] = []"
| "reap_targets self bndl ((name, cmdline) # ps) =
     (if name = [] \<or> \<not> is_digit (hd name) then reap_targets self bndl ps
      else case atoi name of
        None \<Rightarrow> reap_targets self bndl ps
      | Some pid \<Rightarrow>
          if pid = self then reap_targets self bndl ps
          else (case cmdline of
             None \<Rightarrow> reap_targets self bndl ps
           | Some c \<Rightarrow>
               if \<not> sublist bndl (nul_to_blank c) then reap_targets self bndl ps
               else pid # reap_targets self bndl ps))"

definition reapFirecrackerOrphans :: "host \<Rightarrow> string \<Rightarrow> world \<Rightarrow> world" where
  "reapFirecrackerOrphans h bndl w =
     (if bndl = [] \<or> bndl = ''/'' \<or> \<not> is_abs bndl then w
      else case sys h (OpReadDir ''/proc'') w of
        (Some _, w1) \<Rightarrow> w1
      | (None, w1) \<Rightarrow> fold (\<lambda>pid. log_eff (Kill pid)) (reap_targets (h_pid h) bndl (h_procs h (tick w))) w1)"

text \<open>The closure \<open>cleanup\<close>, by what has been set when it runs: the bridge, the /work img and its host directory.\<close>

definition fc_cleanup ::
  "golib \<Rightarrow> string \<Rightarrow> vsockBridge option \<Rightarrow> (string \<times> string) option \<Rightarrow> host \<Rightarrow> world \<Rightarrow> world" where
  "fc_cleanup g bndl bridge work h w =
     (let w1 = (case work of
            Some (img, hostDir) \<Rightarrow> if img \<noteq> [] \<and> hostDir \<noteq> [] then copyOutWorkdir g h img hostDir w else w
          | None \<Rightarrow> w);
          w2 = (case bridge of Some b \<Rightarrow> bridge_Stop b w1 | None \<Rightarrow> w1);
          w3 = reapFirecrackerOrphans h bndl w2
      in snd (os_remove_all h bndl w3))"

section \<open>The launcher's argument vector\<close>

definition firecrackerArgv :: "host \<Rightarrow> string \<Rightarrow> guestArtifacts \<Rightarrow> limits \<Rightarrow> world \<Rightarrow> string list res \<times> world" where
  "firecrackerArgv h bndl art lm w = (case h_exe h of
     Inl e \<Rightarrow> (Inl (''cannot resolve exec-sandbox binary path: '' @ e), w)
   | Inr self \<Rightarrow> (case h_lookpath h ''firecracker'' of
       Inl e \<Rightarrow> (Inl (''firecracker binary not found on PATH: '' @ e @ '' (Tier-3 requires firecracker + /dev/kvm)''), w)
     | Inr fcBin \<Rightarrow>
        (let argv = [''bwrap'', ''--unshare-all'', ''--die-with-parent'', ''--uid'', ''65534'', ''--gid'', ''65534'',
               ''--ro-bind'', ''/usr'', ''/usr'', ''--ro-bind'', ''/etc'', ''/etc'', ''--proc'', ''/proc'', ''--dev'', ''/dev'',
               ''--dev-bind'', ''/dev/kvm'', ''/dev/kvm'', ''--ro-bind'', self, self, ''--ro-bind'', fcBin, fcBin,
               ''--ro-bind'', kernelPath art, kernelPath art, ''--ro-bind'', rootfsPath art, rootfsPath art,
               ''--bind'', bndl, bndl];
             (binds, w1) = system_binds h [''/bin'', ''/lib'', ''/lib64'', ''/sbin''] w;
             fcDir = path_dir fcBin;
             path = (if fcDir \<noteq> ''/usr/bin'' \<and> fcDir \<noteq> ''/bin'' then fcDir @ '':'' @ ''/usr/bin:/bin'' else ''/usr/bin:/bin'')
         in (Inr (argv @ binds @ [''--clearenv'', ''--setenv'', ''PATH'', path] @
                  [''--setenv'', ''FC_BINARY'', fcBin] @ [self, ''fc-launch'', bndl]), w1))))"

section \<open>Argv\<close>

text \<open>Stages in the order of the code; each error runs the clean-up with what is set by then.\<close>

definition fc_config ::
  "golib \<Rightarrow> host \<Rightarrow> string \<Rightarrow> guestArtifacts \<Rightarrow> string \<Rightarrow> string \<Rightarrow> string \<Rightarrow> string list \<Rightarrow> limits \<Rightarrow> int \<Rightarrow>
   world \<Rightarrow> (json amap res \<times> (string \<times> string) option) \<times> world" where
  \<comment> \<open>from the payload drive to the read-only guard; also whether the /work image is set\<close>
  "fc_config g h bndl art vsockUDS scriptPath workdir fileReads lm diskMB w =
     (let payloadDrive = path_join [bndl, ''payload.ext4''] in
      case buildPayloadDrive h scriptPath payloadDrive diskMB w of
        (Inl e, w1) \<Rightarrow> ((Inl e, None), w1)
      | (Inr _, w1) \<Rightarrow>
         (let cfg = addPayloadDrive payloadDrive
                (firecrackerConfig (kernelPath art) (rootfsPath art) scriptPath vsockUDS lm);
              workImage = path_join [bndl, ''work.ext4''];
              work = (if workdir \<noteq> [] then Some (workImage, workdir) else None)
          in case (if workdir \<noteq> [] then
                 (case buildWorkdirDrive h workdir workImage diskMB w1 of
                    (Inl e, w2) \<Rightarrow> (Inl e, w2)
                  | (Inr _, w2) \<Rightarrow> (Inr (addWorkdirDrive workImage cfg), w2))
               else (Inr cfg, w1)) of
            (Inl e, w2) \<Rightarrow> ((Inl e, work), w2)
          | (Inr cfg1, w2) \<Rightarrow> (case addFileReadDrives g h fileReads cfg1 w2 of
              (Inl e, w3) \<Rightarrow> ((Inl e, work), w3)
            | (Inr cfg2, w3) \<Rightarrow> (case validateDriveReadOnly g cfg2 fileReads of
                Inl e \<Rightarrow> ((Inl e, work), w3)
              | Inr _ \<Rightarrow> ((Inr cfg2, work), w3)))))"

definition firecracker_Argv ::
  "golib \<Rightarrow> host \<Rightarrow> string \<Rightarrow> string \<Rightarrow> string \<Rightarrow> string list \<Rightarrow> string amap \<Rightarrow>
   (string \<times> string) list \<Rightarrow> limits \<Rightarrow> world \<Rightarrow> prep res \<times> world" where
  "firecracker_Argv g h scriptPath proxySock workdir fileReads env envCreds lm w =
     (case os_mkdir_temp h ''exec-sandbox-fc-'' w of
        (Inl e, w1) \<Rightarrow> (Inl e, w1)
      | (Inr bndl, w1) \<Rightarrow> (case loadGuestArtifacts g h w1 of
          (Inl e, w2) \<Rightarrow> (Inl e, fc_cleanup g bndl None None h w2)
        | (Inr art, w2) \<Rightarrow>
           (let vsockUDS = path_join [bndl, ''proxy.vsock'']; bridgeListen = vsockUDS @ ''_'' @ itoa hostVsockPort in
            case startVsockBridge g h bridgeListen proxySock w2 of
              (Inl e, w3) \<Rightarrow> (Inl e, fc_cleanup g bndl None None h w3)
            | (Inr b, w3) \<Rightarrow>
               (let (degrades, diskMB) = (if DiskMB lm > 0 \<and> \<not> h_disk_quota h then ([disk_degrade], 0) else ([], DiskMB lm)) in
                case fc_config g h bndl art vsockUDS scriptPath workdir fileReads lm diskMB w3 of
                  ((Inl e, work), w4) \<Rightarrow> (Inl e, fc_cleanup g bndl (Some b) work h w4)
                | ((Inr cfg, work), w4) \<Rightarrow>
                   (case os_write_file h (path_join [bndl, ''vm-config.json'']) (marshal_indent g 0 (JObj cfg)) 0x180 w4 of
                      (Inl e, w5) \<Rightarrow> (Inl e, fc_cleanup g bndl (Some b) work h w5)
                    | (Inr _, w5) \<Rightarrow> (case firecrackerArgv h bndl art lm w5 of
                        (Inl e, w6) \<Rightarrow> (Inl e, fc_cleanup g bndl (Some b) work h w6)
                      | (Inr argv, w6) \<Rightarrow> (Inr \<lparr>p_argv = argv, p_cleanup = Some (fc_cleanup g bndl (Some b) work),
                          p_degrades = degrades, p_files = []\<rparr>, w6)))))))"

section \<open>The configuration that is written\<close>

definition fileread_image :: "string \<Rightarrow> nat \<Rightarrow> string" where
  "fileread_image bndl i = path_join [bndl, ''fileread-'' @ itoa (int i) @ ''.ext4'']"

definition fileread_drive :: "string \<Rightarrow> nat \<Rightarrow> json" where
  "fileread_drive bndl i = drive (fileReadDriveID i) (fileread_image bndl i) False True"

definition fc_drives :: "string \<Rightarrow> guestArtifacts \<Rightarrow> string \<Rightarrow> nat \<Rightarrow> json list" where
  "fc_drives bndl art workdir n =
     [drive ''rootfs'' (rootfsPath art) True True, drive ''payload'' (path_join [bndl, ''payload.ext4'']) False True] @
     (if workdir = [] then [] else [drive workDriveID (path_join [bndl, ''work.ext4'']) False False]) @
     map (fileread_drive bndl) [0..<n]"

definition fileread_arg :: "string list \<Rightarrow> string" where
  "fileread_arg fileReads =
     (if fileReads = [] then []
      else '' '' @ guestFileReadBootArg @ ''='' @
        join '','' (map (\<lambda>(i, p). fileReadGuestDev i @ '':'' @ p) (enumerate 0 fileReads)))"

lemma drive_fld [simp]:
  "fld (as_obj (drive i p r ro)) ''drive_id'' = JStr i"
  "fld (as_obj (drive i p r ro)) ''path_on_host'' = JStr p"
  "fld (as_obj (drive i p r ro)) ''is_root_device'' = JBool r"
  "fld (as_obj (drive i p r ro)) ''is_read_only'' = JBool ro"
  by (simp_all add: drive_def fld_def)

lemma fileread_loop_D:
  assumes "fileread_loop g h i ps drives mapping w = (Inr (ds, m), w')"
    and "\<And>xs. path_dir (driveHostPath (drives @ xs) ''payload'') = bndl"
  shows "ds = drives @ map (fileread_drive bndl) [i..<i + length ps] \<and>
    m = mapping @ map (\<lambda>(i, p). fileReadGuestDev i @ '':'' @ p) (enumerate i ps)"
  using assms
proof (induction ps arbitrary: i drives mapping w)
  case (Cons p ps)
  have b: "path_dir (driveHostPath drives ''payload'') = bndl"
    using Cons.prems(2) [of "[]"] by simp
  have up: "[i..<i + length (p # ps)] = i # [Suc i..<Suc i + length ps]"
    by (simp add: upt_conv_Cons del: upt_Suc)
  from Cons.prems(1) obtain w1 where
    "fileread_loop g h (Suc i) ps (drives @ [fileread_drive bndl i]) (mapping @ [fileReadGuestDev i @ '':'' @ p]) w1 =
      (Inr (ds, m), w')"
    by (auto simp: b Let_def fileread_drive_def fileread_image_def split: sum.splits prod.splits)
  from Cons.IH [OF this] Cons.prems(2) [of "_ # _"]
  have "ds = (drives @ [fileread_drive bndl i]) @ map (fileread_drive bndl) [Suc i..<Suc i + length ps] \<and>
      m = (mapping @ [fileReadGuestDev i @ '':'' @ p]) @ map (\<lambda>(i, p). fileReadGuestDev i @ '':'' @ p) (enumerate (Suc i) ps)"
    by simp
  then show ?case unfolding up by simp
qed simp

lemma path_dir_join_clean:
  assumes "clean_abs d" and "plain_comp c"
  shows "path_dir (path_join [d, c]) = d"
  using assms path_dir_abs_path path_join_abs_path unfolding clean_abs_def by metis

lemma plain_comp_images [simp]: "plain_comp ''payload.ext4''" "plain_comp ''work.ext4''" "plain_comp ''vm-config.json''"
    "plain_comp ''proxy.vsock''" "plain_comp ''proxy.vsock_1024''"
  by (simp_all add: plain_comp_def)

definition fc_cfg :: "string \<Rightarrow> guestArtifacts \<Rightarrow> string \<Rightarrow> string \<Rightarrow> string list \<Rightarrow> limits \<Rightarrow> json amap" where
  "fc_cfg bndl art vsockUDS workdir fileReads lm =
     [(''machine-config'', JObj [
         (''vcpu_count'', JInt (if CPUCount lm > 0 then CPUCount lm else 1)),
         (''mem_size_mib'', JInt (if MemoryMB lm > 0 then MemoryMB lm else 128)),
         (''smt'', JBool False), (''track_dirty_pages'', JBool False)]),
      (''boot-source'', JObj [(''kernel_image_path'', JStr (kernelPath art)),
         (''boot_args'', JStr (boot_args lm @ fileread_arg fileReads))]),
      (''drives'', JArr (fc_drives bndl art workdir (length fileReads))),
      (''vsock'', JObj [(''vsock_id'', JStr ''proxy''), (''guest_cid'', JInt 3), (''uds_path'', JStr vsockUDS)])]"

lemma fc_config_D:
  assumes "fc_config g h bndl art uds scriptPath workdir fileReads lm diskMB w = ((Inr cfg, work), w')"
    and "clean_abs bndl"
  shows "cfg = fc_cfg bndl art uds workdir fileReads lm \<and>
    work = (if workdir = [] then None else Some (path_join [bndl, ''work.ext4''], workdir)) \<and>
    validateDriveReadOnly g cfg fileReads = Inr ()"
proof -
  let ?pay = "path_join [bndl, ''payload.ext4'']"
  let ?img = "path_join [bndl, ''work.ext4'']"
  let ?c0 = "addPayloadDrive ?pay (firecrackerConfig (kernelPath art) (rootfsPath art) scriptPath uds lm)"
  let ?c1 = "if workdir = [] then ?c0 else addWorkdirDrive ?img ?c0"
  let ?ds = "fc_drives bndl art workdir 0"
  have dirs: "path_dir (driveHostPath (?ds @ xs) ''payload'') = bndl" for xs
    using path_dir_join_clean [OF assms(2)] by (simp add: fc_drives_def)
  have c1: "?c1 = (''machine-config'', the (map_of ?c0 ''machine-config'')) # (''boot-source'', the (map_of ?c0 ''boot-source'')) #
      (''drives'', JArr ?ds) # (''vsock'', the (map_of ?c0 ''vsock'')) # []"
    by (simp add: addPayloadDrive_def addWorkdirDrive_def add_drive_def firecrackerConfig_def aput_def fld_def fc_drives_def)
  from assms(1) obtain w2 where
    add: "addFileReadDrives g h fileReads ?c1 w2 = (Inr cfg, w')"
    and v: "validateDriveReadOnly g cfg fileReads = Inr ()"
    and work: "work = (if workdir = [] then None else Some (?img, workdir))"
    by (auto simp: fc_config_def Let_def split: prod.splits sum.splits if_splits)
  have "cfg = fc_cfg bndl art uds workdir fileReads lm"
  proof (cases "fileReads = []")
    case True
    with add have "cfg = ?c1" by (simp add: addFileReadDrives_def)
    then show ?thesis
      unfolding c1 by (simp add: True fc_cfg_def fileread_arg_def addPayloadDrive_def add_drive_def
          firecrackerConfig_def aput_def fld_def)
  next
    case False
    have ad: "as_arr (fld ?c1 ''drives'') = ?ds" unfolding c1 by (simp add: fld_def)
    from add False obtain ds m where
      loop: "fileread_loop g h 0 fileReads ?ds [] w2 = (Inr (ds, m), w')"
      and cfg: "cfg = emit_mapping m (aput ''drives'' (JArr ds) ?c1)"
      unfolding addFileReadDrives_def ad by (simp split: prod.splits sum.splits)
    note l = fileread_loop_D [OF loop dirs]
    have "ds = fc_drives bndl art workdir (length fileReads)"
      using l by (simp add: fc_drives_def)
    then show ?thesis
      using l False unfolding cfg c1
      by (simp add: fc_cfg_def fileread_arg_def addPayloadDrive_def add_drive_def
          firecrackerConfig_def aput_def fld_def emit_mapping_def)
  qed
  with v work show ?thesis by simp
qed

lemma firecracker_Argv_D:
  assumes "firecracker_Argv g h scriptPath proxySock workdir fileReads env envCreds lm w = (Inr p, w')"
  obtains bndl art w1 w2 b w3 diskMB cfg work w4 w5 where
    "os_mkdir_temp h ''exec-sandbox-fc-'' w = (Inr bndl, w1)"
    and "loadGuestArtifacts g h w1 = (Inr art, w2)"
    and "startVsockBridge g h (path_join [bndl, ''proxy.vsock''] @ ''_'' @ itoa hostVsockPort) proxySock w2 = (Inr b, w3)"
    and "fc_config g h bndl art (path_join [bndl, ''proxy.vsock'']) scriptPath workdir fileReads lm diskMB w3 = ((Inr cfg, work), w4)"
    and "os_write_file h (path_join [bndl, ''vm-config.json'']) (marshal_indent g 0 (JObj cfg)) 0x180 w4 = (Inr (), w5)"
    and "firecrackerArgv h bndl art lm w5 = (Inr (p_argv p), w')"
    and "p_cleanup p = Some (fc_cleanup g bndl (Some b) work)" and "p_files p = []"
proof -
  obtain degrades diskMB where dd: "(if DiskMB lm > 0 \<and> \<not> h_disk_quota h then ([disk_degrade], 0) else ([], DiskMB lm)) =
      (degrades, diskMB)" by fastforce
  obtain r1 w1 where mk: "os_mkdir_temp h ''exec-sandbox-fc-'' w = (r1, w1)" by fastforce
  with assms obtain bndl where r1: "r1 = Inr bndl" by (cases r1) (simp_all add: firecracker_Argv_def)
  obtain r2 w2 where ld: "loadGuestArtifacts g h w1 = (r2, w2)" by fastforce
  with assms mk r1 obtain art where r2: "r2 = Inr art" by (cases r2) (simp_all add: firecracker_Argv_def)
  let ?uds = "path_join [bndl, ''proxy.vsock'']"
  obtain r3 w3 where br: "startVsockBridge g h (?uds @ ''_'' @ itoa hostVsockPort) proxySock w2 = (r3, w3)" by fastforce
  with assms mk r1 ld r2 obtain b where r3: "r3 = Inr b" by (cases r3) (simp_all add: firecracker_Argv_def)
  obtain r4 work w4 where fc: "fc_config g h bndl art ?uds scriptPath workdir fileReads lm diskMB w3 = ((r4, work), w4)"
    by (metis prod.collapse)
  with assms mk r1 ld r2 br r3 dd obtain cfg where r4: "r4 = Inr cfg" by (cases r4) (simp_all add: firecracker_Argv_def)
  obtain r5 w5 where wr: "os_write_file h (path_join [bndl, ''vm-config.json'']) (marshal_indent g 0 (JObj cfg)) 0x180 w4 = (r5, w5)"
    by fastforce
  with assms mk r1 ld r2 br r3 dd fc r4 have r5: "r5 = Inr ()" by (cases r5) (simp_all add: firecracker_Argv_def)
  obtain r6 w6 where ar: "firecrackerArgv h bndl art lm w5 = (r6, w6)" by fastforce
  with assms mk r1 ld r2 br r3 dd fc r4 wr r5 obtain argv where r6: "r6 = Inr argv" "w6 = w'"
      "p = \<lparr>p_argv = argv, p_cleanup = Some (fc_cleanup g bndl (Some b) work), p_degrades = degrades, p_files = []\<rparr>"
    by (cases r6) (simp_all add: firecracker_Argv_def)
  show thesis
    by (rule that [of bndl w1 art w2 b w3 diskMB cfg work w4 w5])
      (use mk ld br fc wr ar r1 r2 r3 r4 r5 r6 in simp_all)
qed

section \<open>The launcher's options\<close>

definition fc_opts :: "string \<Rightarrow> string \<Rightarrow> guestArtifacts \<Rightarrow> string \<Rightarrow> string list \<Rightarrow> string \<Rightarrow> bopt list" where
  "fc_opts self fcBin art bndl dirs path =
     [UnshareAll, DieWithParent, Uid ''65534'', Gid ''65534'', RoBind ''/usr'' ''/usr'', RoBind ''/etc'' ''/etc'',
      Proc ''/proc'', Dev ''/dev'', DevBind ''/dev/kvm'' ''/dev/kvm'', RoBind self self, RoBind fcBin fcBin,
      RoBind (kernelPath art) (kernelPath art), RoBind (rootfsPath art) (rootfsPath art), Bind bndl bndl] @
     map (\<lambda>d. RoBind d d) dirs @ [ClearEnv, SetEnv ''PATH'' path, SetEnv ''FC_BINARY'' fcBin]"

lemma firecrackerArgv_render:
  assumes "firecrackerArgv h bndl art lm w = (Inr argv, w')"
  obtains self fcBin dirs path where "h_exe h = Inr self" and "h_lookpath h ''firecracker'' = Inr fcBin"
    and "argv = ''bwrap'' # concat (map render (fc_opts self fcBin art bndl dirs path)) @ [self, ''fc-launch'', bndl]"
    and "set dirs \<subseteq> {''/bin'', ''/lib'', ''/lib64'', ''/sbin''}" and "fs w' = fs w" and "effects w' = effects w"
proof -
  obtain bs w1 where sb: "system_binds h [''/bin'', ''/lib'', ''/lib64'', ''/sbin''] w = (bs, w1)" by fastforce
  from system_binds_render [OF sb] obtain dirs where d: "bs = concat (map render (map (\<lambda>d. RoBind d d) dirs))"
      "set dirs \<subseteq> {''/bin'', ''/lib'', ''/lib64'', ''/sbin''}" "fs w1 = fs w" "effects w1 = effects w"
    by auto
  from assms obtain self fcBin where ok: "h_exe h = Inr self" "h_lookpath h ''firecracker'' = Inr fcBin"
    by (auto simp: firecrackerArgv_def split: sum.splits)
  let ?p = "if path_dir fcBin \<noteq> ''/usr/bin'' \<and> path_dir fcBin \<noteq> ''/bin'' then path_dir fcBin @ '':'' @ ''/usr/bin:/bin'' else ''/usr/bin:/bin''"
  show thesis
    by (rule that [of self fcBin dirs ?p])
      (use assms ok d in \<open>simp_all add: firecrackerArgv_def fc_opts_def sb Let_def del: map_map system_binds.simps\<close>)
qed

lemma fc_opts_sets:
  "UnshareAll \<in> set (fc_opts self fcBin art bndl dirs path)" "DieWithParent \<in> set (fc_opts self fcBin art bndl dirs path)"
  "Uid ''65534'' \<in> set (fc_opts self fcBin art bndl dirs path)" "Gid ''65534'' \<in> set (fc_opts self fcBin art bndl dirs path)"
  "ShareNet \<notin> set (fc_opts self fcBin art bndl dirs path)"
  "binds (fc_opts self fcBin art bndl dirs path) = {(bndl, bndl)}"
  "{(s, d). DevBind s d \<in> set (fc_opts self fcBin art bndl dirs path)} = {(''/dev/kvm'', ''/dev/kvm'')}"
  "RoBind s d \<in> set (fc_opts self fcBin art bndl dirs path) \<longleftrightarrow> s = d \<and>
     d \<in> {''/usr'', ''/etc'', self, fcBin, kernelPath art, rootfsPath art} \<union> set dirs"
  "run_env (fc_opts self fcBin art bndl dirs path) m = [''PATH'' \<mapsto> path, ''FC_BINARY'' \<mapsto> fcBin]"
  by (auto simp: fc_opts_def binds_def run_env_append run_env_ClearEnv run_env_free [unfolded list_all_iff env_free_def])
    (simp add: run_env_def)

text \<open>C8: The Tier-3 spawn confines the virtual machine monitor: bubblewrap reads the vector the backend
  builds as one option list followed by exec-sandbox fc-launch on the per-run bundle. Every namespace
  is unshared and the network never shared again, the process runs as uid and gid 65534, the bundle is
  the only writable host directory and /dev/kvm the only host device, every other path is bound
  read-only (the two executables, the verified kernel and root file system, system directories), and
  the environment holds PATH and FC_BINARY only: no run.env value, no credential.\<close>

theorem firecracker_argv_confines:
  assumes "firecracker_Argv g h scriptPath proxySock workdir fileReads env envCreds lm w = (Inr p, w')"
    and "\<forall>self. h_exe h = Inr self \<longrightarrow> is_abs self"
  shows "\<exists>bndl self fcBin art opts args. p_argv p = ''bwrap'' # args \<and> p_files p = [] \<and>
    bndl = h_tmp h (tick w) ''exec-sandbox-fc-'' \<and> h_exe h = Inr self \<and> h_lookpath h ''firecracker'' = Inr fcBin \<and>
    (\<exists>v v'. loadGuestArtifacts g h v = (Inr art, v')) \<and>
    parse_opts args = Some (opts, [self, ''fc-launch'', bndl]) \<and>
    UnshareAll \<in> set opts \<and> ShareNet \<notin> set opts \<and> DieWithParent \<in> set opts \<and>
    Uid ''65534'' \<in> set opts \<and> Gid ''65534'' \<in> set opts \<and>
    binds opts = {(bndl, bndl)} \<and> {(s, d). DevBind s d \<in> set opts} = {(''/dev/kvm'', ''/dev/kvm'')} \<and>
    (\<forall>s d. RoBind s d \<in> set opts \<longrightarrow> s = d \<and> d \<in> {self, fcBin, kernelPath art, rootfsPath art,
       ''/usr'', ''/etc'', ''/bin'', ''/lib'', ''/lib64'', ''/sbin''}) \<and>
    (\<exists>path. run_env opts m = [''PATH'' \<mapsto> path, ''FC_BINARY'' \<mapsto> fcBin])"
proof -
  from assms(1) obtain bndl art w1 w2 b w3 diskMB cfg work w4 w5 where
    mk: "os_mkdir_temp h ''exec-sandbox-fc-'' w = (Inr bndl, w1)" and ld: "loadGuestArtifacts g h w1 = (Inr art, w2)"
    and ar: "firecrackerArgv h bndl art lm w5 = (Inr (p_argv p), w')" and files: "p_files p = []"
    by (rule firecracker_Argv_D)
  from ar obtain self fcBin dirs path where ok: "h_exe h = Inr self" "h_lookpath h ''firecracker'' = Inr fcBin"
      "p_argv p = ''bwrap'' # concat (map render (fc_opts self fcBin art bndl dirs path)) @ [self, ''fc-launch'', bndl]"
    and dirs: "set dirs \<subseteq> {''/bin'', ''/lib'', ''/lib64'', ''/sbin''}"
    by (rule firecrackerArgv_render)
  have "is_cmd [self, ''fc-launch'', bndl]"
    using assms(2) ok(1) by (cases self) (auto simp: is_cmd_def is_abs_def)
  then have parsed: "parse_opts (concat (map render (fc_opts self fcBin art bndl dirs path)) @ [self, ''fc-launch'', bndl]) =
      Some (fc_opts self fcBin art bndl dirs path, [self, ''fc-launch'', bndl])"
    by (rule parse_opts_renders)
  have bn: "bndl = h_tmp h (tick w) ''exec-sandbox-fc-''" using os_mkdir_temp_D [OF mk] by simp
  have ro: "\<forall>s d. RoBind s d \<in> set (fc_opts self fcBin art bndl dirs path) \<longrightarrow> s = d \<and>
      d \<in> {self, fcBin, kernelPath art, rootfsPath art, ''/usr'', ''/etc'', ''/bin'', ''/lib'', ''/lib64'', ''/sbin''}"
  proof (intro allI impI)
    fix s d
    assume a: "RoBind s d \<in> set (fc_opts self fcBin art bndl dirs path)"
    have "d \<in> set dirs \<Longrightarrow> d \<in> {''/bin'', ''/lib'', ''/lib64'', ''/sbin''}" by (rule subsetD [OF dirs])
    with a show "s = d \<and> d \<in> {self, fcBin, kernelPath art, rootfsPath art, ''/usr'', ''/etc'', ''/bin'', ''/lib'', ''/lib64'', ''/sbin''}"
      unfolding fc_opts_sets(8) by (elim conjE UnE insertE emptyE) simp_all
  qed
  show ?thesis
    by (rule exI [of _ bndl], rule exI [of _ self], rule exI [of _ fcBin], rule exI [of _ art],
        rule exI [of _ "fc_opts self fcBin art bndl dirs path"], rule exI, intro conjI,
        rule ok(3), rule files, rule bn, rule ok(1), rule ok(2), (rule exI)+, rule ld, rule parsed,
        rule fc_opts_sets, rule fc_opts_sets, rule fc_opts_sets, rule fc_opts_sets, rule fc_opts_sets,
        rule fc_opts_sets, rule fc_opts_sets, rule ro, rule exI, rule fc_opts_sets)
qed

section \<open>What the configuration allows\<close>

fun json_keys :: "json \<Rightarrow> string list" where
  "json_keys (JArr xs) = concat (map json_keys xs)"
| "json_keys (JObj m) = concat (map (\<lambda>(k, v). k # json_keys v) m)"
| "json_keys _ = []"

definition is_nic :: "string \<Rightarrow> bool" where
  "is_nic k \<longleftrightarrow> sublist ''network-interface'' k \<or> sublist ''network_interface'' k"

definition drive_ids :: "json list \<Rightarrow> string list" where
  "drive_ids ds = map (\<lambda>d. str (fld (as_obj d) ''drive_id'')) ds"

definition writable_drives :: "json list \<Rightarrow> json set" where
  "writable_drives ds = {d \<in> set ds. fld (as_obj d) ''is_read_only'' \<noteq> JBool True}"

lemma keys_fc_cfg:
  "set (json_keys (JObj (fc_cfg bndl art uds workdir fileReads lm))) \<subseteq>
    {''machine-config'', ''vcpu_count'', ''mem_size_mib'', ''smt'', ''track_dirty_pages'', ''boot-source'',
     ''kernel_image_path'', ''boot_args'', ''drives'', ''drive_id'', ''path_on_host'', ''is_root_device'', ''is_read_only'',
     ''vsock'', ''vsock_id'', ''guest_cid'', ''uds_path''}"
proof -
  have "set (json_keys (drive i p r ro)) = {''drive_id'', ''path_on_host'', ''is_root_device'', ''is_read_only''}" for i p r ro
    by (auto simp: drive_def)
  then show ?thesis
    by (simp add: fc_cfg_def fc_drives_def fileread_drive_def)
qed

lemma no_nic_fc_cfg:
  assumes "k \<in> set (json_keys (JObj (fc_cfg bndl art uds workdir fileReads lm)))"
  shows "\<not> is_nic k"
proof -
  have "k \<in> {''machine-config'', ''vcpu_count'', ''mem_size_mib'', ''smt'', ''track_dirty_pages'', ''boot-source'',
     ''kernel_image_path'', ''boot_args'', ''drives'', ''drive_id'', ''path_on_host'', ''is_root_device'', ''is_read_only'',
     ''vsock'', ''vsock_id'', ''guest_cid'', ''uds_path''}"
    by (rule subsetD [OF keys_fc_cfg assms])
  then have "length k \<le> 17 \<and> k \<noteq> ''network-interface'' \<and> k \<noteq> ''network_interface''"
    by (elim insertE emptyE) simp_all
  moreover have "sublist n k \<Longrightarrow> length k \<le> length n \<Longrightarrow> k = n" for n
    by (auto simp: sublist_def)
  ultimately show ?thesis by (auto simp: is_nic_def)
qed

lemma fileReadDriveID_neq [simp]:
  "fileReadDriveID i \<noteq> ''rootfs''" "fileReadDriveID i \<noteq> ''payload''" "fileReadDriveID i \<noteq> workDriveID"
    "fileReadDriveID i \<noteq> ''work''"
  by (simp_all add: fileReadDriveID_def workDriveID_def)

lemmas fileReadDriveID_neq' [simp] = fileReadDriveID_neq [symmetric]

lemma fileReadDriveID_inject [simp]: "fileReadDriveID i = fileReadDriveID j \<longleftrightarrow> i = j"
  by (simp add: fileReadDriveID_def itoa_inject)

lemma fc_drives_facts:
  "distinct (drive_ids (fc_drives bndl art workdir n))"
  "writable_drives (fc_drives bndl art workdir n) =
    (if workdir = [] then {} else {drive ''work'' (path_join [bndl, ''work.ext4'']) False False})"
  "{d \<in> set (fc_drives bndl art workdir n). fld (as_obj d) ''is_root_device'' = JBool True} = {drive ''rootfs'' (rootfsPath art) True True}"
proof -
  have ids: "drive_ids (fc_drives bndl art workdir n) =
      [''rootfs'', ''payload''] @ (if workdir = [] then [] else [workDriveID]) @ map fileReadDriveID [0..<n]"
    by (simp add: drive_ids_def fc_drives_def fileread_drive_def)
  have "inj fileReadDriveID" by (rule injI) simp
  then have "distinct (map fileReadDriveID [0..<n])" by (simp add: distinct_map inj_on_def)
  then show "distinct (drive_ids (fc_drives bndl art workdir n))"
    unfolding ids by (auto simp: workDriveID_def)
qed (auto simp: writable_drives_def fc_drives_def fileread_drive_def workDriveID_def)

lemma os_write_file_content:
  "os_write_file h p d mode w = (Inr (), w') \<Longrightarrow> \<exists>m. map_of (fs w') p = Some (FileN m d)"
  by (auto simp: os_write_file_def sys_def map_of_put_node split: option.splits fault.splits)


lemma needle_nic: "needle_ok ''network-interface''" "needle_ok ''network_interface''"
  by (simp_all add: needle_ok_def)

lemma json_any_disj: "json_any (\<lambda>s. P s \<or> Q s) j \<longleftrightarrow> json_any P j \<or> json_any Q j"
  by (induction j) (auto simp: list_ex_iff, fastforce+)

text \<open>C30: The no-NIC detector is exact: for every configuration built from strings, booleans, integers,
  lists and maps, configHasNoNIC accepts it if and only if no key or string at any depth shows
  network-interface or network_interface in its serialised form; in particular a forbidden top-level
  key is always found, so the first check is subsumed by the second.\<close>

theorem configHasNoNIC_exact:
  assumes "no_float (JObj cfg)"
  shows "configHasNoNIC g cfg = Inr () \<longleftrightarrow> \<not> json_any (\<lambda>s. is_nic (json_body s)) (JObj cfg)"
proof -
  note ser = sublist_marshal [OF needle_nic(1) assms, of g] sublist_marshal [OF needle_nic(2) assms, of g]
  have any: "json_any (\<lambda>s. is_nic (json_body s)) (JObj cfg) \<longleftrightarrow>
      sublist ''network-interface'' (marshal g (JObj cfg)) \<or> sublist ''network_interface'' (marshal g (JObj cfg))"
    unfolding is_nic_def json_any_disj ser ..
  have top: "json_any (\<lambda>s. is_nic (json_body s)) (JObj cfg)" if k: "k \<in> set nic_keys" "map_of cfg k \<noteq> None" for k
  proof -
    have "list_all json_plain ''network-interface'' \<and> list_all json_plain ''network_interface''"
      by (simp add: json_plain_def esc_ascii_def)
    moreover have "prefix ''network-interface'' k \<or> prefix ''network_interface'' k"
      using k(1) unfolding nic_keys_def by (simp only: set_simps insert_iff empty_iff) (elim disjE; simp)
    then have "sublist ''network-interface'' k \<or> sublist ''network_interface'' k"
      by (metis prefix_imp_sublist)
    ultimately have "is_nic (json_body k)"
      unfolding is_nic_def using sublist_json_body by blast
    moreover from k(2) obtain v where "(k, v) \<in> set cfg" using map_of_SomeD by fastforce
    ultimately show ?thesis by (auto simp: list_ex_iff)
  qed
  show ?thesis
  proof (cases "filter (\<lambda>k. map_of cfg k \<noteq> None) nic_keys")
    case Nil
    then show ?thesis unfolding any by (simp add: configHasNoNIC_def del: marshal.simps)
  next
    case (Cons k ks)
    then have "k \<in> set (filter (\<lambda>k. map_of cfg k \<noteq> None) nic_keys)" by (simp only: list.set_intros)
    then have "json_any (\<lambda>s. is_nic (json_body s)) (JObj cfg)"
      unfolding set_filter mem_Collect_eq by (elim conjE) (rule top)
    with Cons show ?thesis by (simp add: configHasNoNIC_def del: json_any.simps)
  qed
qed

section \<open>Block devices\<close>

text \<open>virtio names block devices in the order of the drive list: vda, vdb, \<dots>.\<close>

definition virtio_dev :: "nat \<Rightarrow> string" where
  "virtio_dev k = ''/dev/vd'' @ [char_of (97 + k)]"

lemma image_comp: "plain_comp (''fileread-'' @ itoa (int i) @ ''.ext4'')"
proof -
  have "CHR ''/'' \<notin> set (itoa (int i))"
    using dec_digits_all [of i] by (auto simp: itoa_def list_all_iff is_digit_def)
  then show ?thesis by (simp add: plain_comp_def)
qed


section \<open>Reaping\<close>

lemma nul_to_blank_append: "nul_to_blank (a @ b) = nul_to_blank a @ nul_to_blank b"
  by (simp add: nul_to_blank_def)

lemma nul_to_blank_id: "CHR 0x00 \<notin> set s \<Longrightarrow> nul_to_blank s = s"
  by (induction s) (auto simp: nul_to_blank_def)

lemma set_reap_targets:
  "pid \<in> set (reap_targets self bndl ps) \<longleftrightarrow> pid \<noteq> self \<and>
    (\<exists>name c. (name, Some c) \<in> set ps \<and> name \<noteq> [] \<and> is_digit (hd name) \<and> atoi name = Some pid \<and>
      sublist bndl (nul_to_blank c))"
proof (induction ps)
  case (Cons a ps)
  obtain name cl where a: "a = (name, cl)" by fastforce
  show ?case
    using Cons.IH by (cases cl; cases "atoi name") (auto simp: a)
qed simp

lemma effects_fold_kill: "effects (fold (\<lambda>pid. log_eff (Kill pid)) ks w) = effects w @ map Kill ks \<and>
    fs (fold (\<lambda>pid. log_eff (Kill pid)) ks w) = fs w"
  by (induction ks arbitrary: w) simp_all

lemma reap_D:
  obtains ks where "effects (reapFirecrackerOrphans h bndl w) = effects w @ map Kill ks"
    and "fs (reapFirecrackerOrphans h bndl w) = fs w"
    and "ks = [] \<or> is_abs bndl \<and> bndl \<noteq> ''/'' \<and> ks = reap_targets (h_pid h) bndl (h_procs h (tick w))"
    and "is_abs bndl \<and> bndl \<noteq> ''/'' \<and> h_fault h (tick w) (OpReadDir ''/proc'') = None \<longrightarrow>
      ks = reap_targets (h_pid h) bndl (h_procs h (tick w))"
proof (cases "bndl = [] \<or> bndl = ''/'' \<or> \<not> is_abs bndl")
  case True
  then show thesis
    by (intro that [of "[]"]) (auto simp: reapFirecrackerOrphans_def is_abs_def)
next
  case False
  show thesis
  proof (cases "h_fault h (tick w) (OpReadDir ''/proc'')")
    case None
    with False show thesis
      by (intro that [of "reap_targets (h_pid h) bndl (h_procs h (tick w))"])
        (auto simp: reapFirecrackerOrphans_def sys_def effects_fold_kill)
  next
    case (Some f)
    with False show thesis
      by (intro that [of "[]"]) (auto simp: reapFirecrackerOrphans_def sys_def)
  qed
qed


section \<open>The tier contract\<close>

text \<open>None of the drive builders, nor the copy-out, leaves a trace in the log of effects.\<close>

lemma effects_mkfs [simp]: "effects (snd (run_mkfs h m a out w)) = effects w"
  by (simp add: run_mkfs_def split: option.splits)

lemma effects_staging:
  assumes "\<And>s v. effects (snd (body s v)) = effects v"
  shows "effects (snd (with_staging h pat body w)) = effects w"
proof -
  obtain r w1 where mk: "os_mkdir_temp h pat w = (r, w1)" by fastforce
  show ?thesis
  proof (cases r)
    case (Inr d)
    obtain q w2 where b: "body d w1 = (q, w2)" by fastforce
    show ?thesis
      using os_write_D(1) [OF mk] assms [of d w1] by (simp add: with_staging_def mk Inr b)
  qed (use os_write_D(1) [OF mk] in \<open>simp add: with_staging_def mk\<close>)
qed

lemma effects_copyTree [simp]:
  "effects (snd (copyTree n h src dst w)) = effects w"
  "effects (snd (copy_entries n h src dst es w)) = effects w"
proof (induction n h src dst w and n h src dst es w rule: copyTree_copy_entries.induct)
  case (2 n h src dst w)
  obtain r w1 where st: "os_stat h src w = (r, w1)" by fastforce
  obtain q w2 where rd: "os_read_file h src w1 = (q, w2)" by fastforce
  note e = os_stat_D [OF st] os_read_D(1) [OF rd]
  show ?case
  proof (cases "\<exists>m. r = Inr (DirN m)")
    case True
    then obtain m where r: "r = Inr (DirN m)" by blast
    obtain u w3 where mk: "os_mkdir_all h dst (m AND 0x1FF OR 0x1C0) w1 = (u, w3)" by fastforce
    obtain es w4 where ls: "os_read_dir h src w3 = (es, w4)" by fastforce
    show ?thesis
      using 2 st r mk ls e os_mkdir_all_D [OF mk] os_read_D(2) [OF ls]
      by (cases u; cases es) simp_all
  next
    case False
    then show ?thesis using st rd e
      by (auto split: sum.splits node.splits)
  qed
next
  case (4 n h src dst e es w)
  then show ?case by (cases "copyTree n h (path_join [src, e]) (path_join [dst, e]) w") (auto split: sum.splits)
qed simp_all

lemma effects_sync [simp]: "effects (sync_entries h staging hostDir es w) = effects w"
  by (induction es arbitrary: w) simp_all

lemma effects_copyOut [simp]: "effects (copyOutWorkdir g h img hostDir w) = effects w"
proof -
  have "effects (snd (with_staging h ''exec-sandbox-fc-workout-'' (\<lambda>staging w1.
       (let argv = [debugfs, ''-R'', ''rdump / '' @ g_quote g staging, img];
            w2 = w1\<lparr>fs := c_fs (h_child h (tick w1) argv [] w1), tick := Suc (tick w1)\<rparr>
        in case os_read_dir h staging w2 of
             (Inl e, w3) \<Rightarrow> (Inl e, w3)
           | (Inr entries, w3) \<Rightarrow> (Inr (), sync_entries h staging hostDir entries w3))) w)) = effects w" for debugfs
    by (rule effects_staging) (auto simp: Let_def dest: os_read_D split: prod.splits sum.splits)
  then show ?thesis by (simp add: copyOutWorkdir_def split: sum.splits)
qed

lemma effects_buildPayload [simp]: "effects (snd (buildPayloadDrive h s out d w)) = effects w"
proof -
  have "effects (snd (with_staging h ''exec-sandbox-fc-payload-'' (\<lambda>staging w1.
       (case os_read_file h s w1 of
          (Inl e, w2) \<Rightarrow> (Inl (''read payload '' @ s @ '': '' @ e), w2)
        | (Inr dd, w2) \<Rightarrow> (case os_write_file h (path_join [staging, ''payload.sh'']) dd 0x1A4 w2 of
            (Inl e, w3) \<Rightarrow> (Inl e, w3)
          | (Inr _, w3) \<Rightarrow> run_mkfs h ''mkfs.ext4 payload drive: '' (argv staging) out w3))) w)) = effects w" for argv
    by (rule effects_staging) (auto dest!: os_read_D(1) os_write_D(2) split: prod.splits sum.splits)
  then show ?thesis by (simp add: buildPayloadDrive_def split: sum.splits)
qed

lemma effects_stage_fileread [simp]: "effects (snd (stage_fileread h p info staging w)) = effects w"
proof -
  obtain q v1 where rd: "os_read_file h p w = (q, v1)" by fastforce
  show ?thesis
    using os_read_D(1) [OF rd] by (cases info; cases q) (simp_all add: stage_fileread_def rd)
qed

lemma effects_buildFileRead [simp]: "effects (snd (buildFileReadDrive h p out w)) = effects w"
proof -
  obtain r w1 where st: "os_stat h p w = (r, w1)" by fastforce
  have "effects (snd (with_staging h ''exec-sandbox-fc-fileread-'' (\<lambda>staging w2.
        (case stage_fileread h p info staging w2 of
           (Inl e, w3) \<Rightarrow> (Inl e, w3)
         | (Inr _, w3) \<Rightarrow> run_mkfs h ''mkfs.ext4 FileRead drive: '' (argv staging) out w3)) w1)) = effects w1" for info argv
  proof (rule effects_staging)
    fix s v
    obtain q w3 where q: "stage_fileread h p info s v = (q, w3)" by fastforce
    show "effects (snd (case stage_fileread h p info s v of
           (Inl e, w3) \<Rightarrow> (Inl e, w3)
         | (Inr _, w3) \<Rightarrow> run_mkfs h ''mkfs.ext4 FileRead drive: '' (argv s) out w3)) = effects v"
      using effects_stage_fileread [of h p info s v] unfolding q by (simp split: sum.splits)
  qed
  then show ?thesis
    using os_stat_D [OF st] by (simp add: buildFileReadDrive_def st split: sum.splits)
qed

lemma effects_fileread_loop [simp]: "effects (snd (fileread_loop g h i ps ds m w)) = effects w"
proof (induction ps arbitrary: i ds m w)
  case (Cons p ps)
  obtain q w1 where b: "buildFileReadDrive h p (path_join [path_dir (driveHostPath ds ''payload''), ''fileread-'' @ itoa (int i) @ ''.ext4'']) w = (q, w1)"
    by fastforce
  have "effects w1 = effects w" using effects_buildFileRead [of h p _ w] b by (metis snd_conv)
  then show ?case
    using Cons.IH by (cases q) (simp_all only: fileread_loop.simps Let_def b prod.case sum.case snd_conv)
qed simp

lemma effects_workdirDrive [simp]: "effects (snd (buildWorkdirDrive h wd out d w)) = effects w"
  by (simp add: buildWorkdirDrive_def split: sum.splits)

lemma effects_addFileReads [simp]: "effects (snd (addFileReadDrives g h fileReads c w)) = effects w"
proof -
  obtain q w1 where l: "fileread_loop g h 0 fileReads (as_arr (fld c ''drives'')) [] w = (q, w1)" by fastforce
  have "effects w1 = effects w" using effects_fileread_loop [of g h 0 fileReads _ "[]" w] l by (metis snd_conv)
  then show ?thesis
    by (cases q) (auto simp: addFileReadDrives_def l)
qed

lemma effects_fc_config:
  assumes "fc_config g h bndl art uds scriptPath workdir fileReads lm diskMB w = (x, w')"
  shows "effects w' = effects w"
proof -
  have add: "addFileReadDrives g h fileReads c w1 = (r, w2) \<Longrightarrow> effects w2 = effects w1" for c w1 r w2
    using effects_addFileReads by (metis snd_conv)
  have pay: "buildPayloadDrive h s out d w1 = (r, w2) \<Longrightarrow> effects w2 = effects w1" for s out d w1 r w2
    using effects_buildPayload by (metis snd_conv)
  have wrk: "buildWorkdirDrive h s out d w1 = (r, w2) \<Longrightarrow> effects w2 = effects w1" for s out d w1 r w2
    using effects_workdirDrive by (metis snd_conv)
  show ?thesis
    using assms
    by (auto simp: fc_config_def Let_def dest!: pay wrk add split: prod.splits sum.splits if_splits)
qed

lemma effects_fc_cleanup:
  obtains ks where "effects (fc_cleanup g bndl bridge work h w) =
    effects w @ (case bridge of None \<Rightarrow> [] | Some b \<Rightarrow> [Unlisten (b_listen b)]) @ map Kill ks"
proof -
  let ?w1 = "case work of Some (img, hostDir) \<Rightarrow> if img \<noteq> [] \<and> hostDir \<noteq> [] then copyOutWorkdir g h img hostDir w else w
      | None \<Rightarrow> w"
  let ?w2 = "case bridge of Some b \<Rightarrow> bridge_Stop b ?w1 | None \<Rightarrow> ?w1"
  obtain ks where ks: "effects (reapFirecrackerOrphans h bndl ?w2) = effects ?w2 @ map Kill ks"
    using reap_D by blast
  have "effects ?w2 = effects w @ (case bridge of None \<Rightarrow> [] | Some b \<Rightarrow> [Unlisten (b_listen b)])"
    by (simp add: bridge_Stop_def split: option.splits prod.splits)
  with ks show thesis
    by (intro that [of ks]) (simp only: fc_cleanup_def Let_def os_effects append_assoc)
qed

lemma cleanup_internal:
  "\<exists>es. effects (fc_cleanup g bndl (Some b) work h w) = effects w @ es \<and> list_all internal es \<and>
    balanced (Listen (b_listen b) # es)"
proof -
  obtain ks where ks: "effects (fc_cleanup g bndl (Some b) work h w) = effects w @ [Unlisten (b_listen b)] @ map Kill ks"
    by (rule effects_fc_cleanup [of g bndl "Some b" work h w]) simp
  have "balanced ([Listen (b_listen b), Unlisten (b_listen b)] @ map Kill ks)"
    by (rule balanced_append [OF _ balanced_kill]) (simp add: balanced_def)
  with ks show ?thesis
    by (intro exI [of _ "Unlisten (b_listen b) # map Kill ks"]) (auto simp: list_all_iff)
qed

lemma cleanup_no_bridge:
  "\<exists>es. effects (fc_cleanup g bndl None work h w) = effects w @ es \<and> list_all internal es \<and> balanced es"
proof -
  obtain ks where ks: "effects (fc_cleanup g bndl None work h w) = effects w @ map Kill ks"
    by (rule effects_fc_cleanup [of g bndl None work h w]) simp
  then show ?thesis
    using balanced_kill by (intro exI [of _ "map Kill ks"]) (auto simp: list_all_iff)
qed

lemma startVsockBridge_D:
  assumes "startVsockBridge g h uds sock w = (r, w')"
  shows "effects w' = effects w @ (case r of Inl e \<Rightarrow> [] | Inr b \<Rightarrow> [Listen (b_listen b)])"
proof -
  obtain q w1 where l: "listen_unix h uds 0x180 w = (q, w1)" by fastforce
  show ?thesis
    using assms listen_unix_D [OF l] by (cases q) (auto simp: startVsockBridge_def l)
qed

lemma firecrackerArgv_effects:
  assumes "firecrackerArgv h bndl art lm w = (r, w')"
  shows "effects w' = effects w \<and> (\<forall>a. r = Inr a \<longrightarrow> a \<noteq> [])"
proof (cases r)
  case (Inl e)
  with assms show ?thesis by (auto simp: firecrackerArgv_def Let_def split: sum.splits prod.splits)
next
  case (Inr a)
  from assms [unfolded Inr] show ?thesis by (rule_tac firecrackerArgv_render) (auto simp: Inr)
qed

text \<open>With the bridge up, the clean-up of a failed preparation closes it again.\<close>

lemma firecracker_failed:
  assumes "effects w' = effects w @ [Listen (b_listen b)]"
  shows "\<exists>es. effects (fc_cleanup g bndl (Some b) work h w') = effects w @ es \<and> list_all internal es \<and> balanced es"
proof -
  from cleanup_internal [of g bndl b work h w'] obtain es where
    "effects (fc_cleanup g bndl (Some b) work h w') = effects w' @ es" "list_all internal es" "balanced (Listen (b_listen b) # es)"
    by blast
  with assms show "\<exists>es. effects (fc_cleanup g bndl (Some b) work h w') = effects w @ es \<and> list_all internal es \<and> balanced es"
    by (intro exI [of _ "Listen (b_listen b) # es"]) simp
qed

lemma firecracker_Argv_cases:
  assumes "firecracker_Argv g h scriptPath proxySock workdir fileReads env envCreds lm w = (r, w')"
  obtains (bare) e where "r = Inl e" and "effects w' = effects w"
    | (closed) e bndl v where "r = Inl e" and "w' = fc_cleanup g bndl None None h v" and "effects v = effects w"
    | (failed) e bndl b work v where "r = Inl e" and "w' = fc_cleanup g bndl (Some b) work h v"
        and "effects v = effects w @ [Listen (b_listen b)]"
    | (ready) p bndl b work where "r = Inr p" and "p_argv p \<noteq> []" and "p_cleanup p = Some (fc_cleanup g bndl (Some b) work)"
        and "effects w' = effects w @ [Listen (b_listen b)]"
proof -
  obtain degrades diskMB where dd: "(if DiskMB lm > 0 \<and> \<not> h_disk_quota h then ([disk_degrade], 0) else ([], DiskMB lm)) =
      (degrades, diskMB)" by fastforce
  obtain r1 w1 where mk: "os_mkdir_temp h ''exec-sandbox-fc-'' w = (r1, w1)" by fastforce
  note e1 = os_write_D(1) [OF mk]
  show thesis
  proof (cases r1)
    case (Inl e)
    with assms e1 mk show thesis by (intro bare) (auto simp: firecracker_Argv_def)
  next
    case r1: (Inr bndl)
    obtain r2 w2 where ld: "loadGuestArtifacts g h w1 = (r2, w2)" by fastforce
    have e2: "effects w2 = effects w" using loadGuestArtifacts_D [OF ld] e1 by simp
    show thesis
    proof (cases r2)
      case (Inl e)
      with assms e2 show thesis by (intro closed [of e bndl w2]) (auto simp: firecracker_Argv_def mk r1 ld)
    next
      case r2: (Inr art)
      let ?uds = "path_join [bndl, ''proxy.vsock'']"
      obtain r3 w3 where br: "startVsockBridge g h (?uds @ ''_'' @ itoa hostVsockPort) proxySock w2 = (r3, w3)" by fastforce
      note e3 = startVsockBridge_D [OF br]
      show thesis
      proof (cases r3)
        case (Inl e)
        with assms e2 e3 br show thesis by (intro closed [of e bndl w3]) (auto simp: firecracker_Argv_def mk r1 ld r2 Let_def)
      next
        case r3: (Inr b)
        obtain r4 work w4 where fc: "fc_config g h bndl art ?uds scriptPath workdir fileReads lm diskMB w3 = ((r4, work), w4)"
          by (metis prod.collapse)
        have e4: "effects w4 = effects w @ [Listen (b_listen b)]"
          using effects_fc_config [OF fc] e2 e3 r3 by simp
        obtain r5 w5 where wr: "os_write_file h (path_join [bndl, ''vm-config.json'']) (marshal_indent g 0 (JObj (projr r4))) 0x180 w4 = (r5, w5)"
          by fastforce
        obtain r6 w6 where ar: "firecrackerArgv h bndl art lm w5 = (r6, w6)" by fastforce
        have e5: "effects w5 = effects w4" by (rule os_write_D(2) [OF wr])
        note e6 = firecrackerArgv_effects [OF ar]
        show thesis
          using assms br e4 e5 e6 wr
          by (cases r4; cases r5; cases r6)
            (auto simp: firecracker_Argv_def mk r1 ld r2 r3 dd fc ar Let_def intro: failed ready)
      qed
    qed
  qed
qed

lemma firecracker_Argv_effects:
  assumes "firecracker_Argv g h scriptPath proxySock workdir fileReads env envCreds lm w = (r, w')"
  shows "\<exists>es. effects w' = effects w @ es \<and> list_all internal es \<and>
      (case r of Inl e \<Rightarrow> balanced es
       | Inr p \<Rightarrow> p_argv p \<noteq> [] \<and>
           (case p_cleanup p of None \<Rightarrow> balanced es
            | Some c \<Rightarrow> \<forall>v. \<exists>es'. effects (c h v) = effects v @ es' \<and> list_all internal es' \<and> balanced (es @ es')))"
  using assms
proof (cases rule: firecracker_Argv_cases)
  case bare
  then show ?thesis by (intro exI [of _ "[]"]) simp
next
  case (closed e bndl v)
  then show ?thesis using cleanup_no_bridge [of g bndl None h v] by simp
next
  case (failed e bndl b work v)
  then show ?thesis using firecracker_failed [OF failed(3)] by simp
next
  case (ready p bndl b work)
  then show ?thesis using cleanup_internal [of g bndl b work h]
    by (intro exI [of _ "[Listen (b_listen b)]"]) simp
qed

interpretation tier3: tier_backend "firecracker_Argv g" for g
  by unfold_locales (rule firecracker_Argv_effects)

section \<open>Witnesses\<close>

definition fc_world :: world where
  "fc_world = (guest_world ''rootfs'')\<lparr>fs := (''/tmp/w/payload.sh'', FileN 0x180 ''echo hi'') # fs (guest_world ''rootfs'')\<rparr>"

lemma sample_calm [simp]: "h_fault sample_host n op = None"
  by (simp add: sample_host_def)

lemma sample_tools [simp]: "h_lookpath sample_host b = Inr (''/usr/bin/'' @ b)" "h_mkfs sample_host n a = None"
    "h_exe sample_host = Inr ''/opt/exec-sandbox''" "h_disk_quota sample_host"
    "h_tmp sample_host n pat = ''/tmp/'' @ pat @ ''1''"
  by (simp_all add: sample_host_def)

lemma calm_payload_drive:
  assumes "map_of (fs w) s = Some (FileN m d)" and "s \<noteq> ''/tmp/exec-sandbox-fc-payload-1''"
  shows "\<exists>w'. buildPayloadDrive sample_host s out disk w = (Inr (), w')"
proof -
  obtain w1 where mk: "os_mkdir_temp sample_host ''exec-sandbox-fc-payload-'' w = (Inr ''/tmp/exec-sandbox-fc-payload-1'', w1)"
      "map_of (fs w1) s = Some (FileN m d)"
    using assms by (simp add: os_mkdir_temp_def sys_def Let_def map_of_put_node)
  then show ?thesis
    by (simp add: buildPayloadDrive_def with_staging_def os_read_file_def sys_def os_write_file_def run_mkfs_def
        split: prod.splits)
qed

lemma fc_prepares:
  "\<exists>p w'. firecracker_Argv sample_lib sample_host ''/tmp/w/payload.sh'' ''/tmp/w/proxy.sock'' ''/home/u'' [] env creds
     no_limits fc_world = (Inr p, w')"
proof -
  let ?b = "''/tmp/exec-sandbox-fc-1''" and ?art = "\<lparr>kernelPath = ''/opt/guest/kernel/vmlinux-6.1.176'', rootfsPath = ''/opt/guest/rootfs/base.ext4''\<rparr>"
  obtain w1 where mk: "os_mkdir_temp sample_host ''exec-sandbox-fc-'' fc_world = (Inr ?b, w1)"
      "map_of (fs w1) = (map_of (fs fc_world))(?b \<mapsto> DirN 0x1C0)"
    by (simp add: os_mkdir_temp_def sys_def Let_def map_of_put_node)
  have "map_of (fs (guest_world ''rootfs'')) q = Some v \<Longrightarrow> map_of (fs w1) q = Some v" for q v
    unfolding mk(2) by (auto simp: fc_world_def guest_world_def split: if_splits)
  then obtain w2 where ld: "loadGuestArtifacts sample_lib sample_host w1 = (Inr ?art, w2)"
    using guest_loads by blast
  obtain b w3 where br: "startVsockBridge sample_lib sample_host (path_join [?b, ''proxy.vsock''] @ ''_'' @ itoa hostVsockPort)
      ''/tmp/w/proxy.sock'' w2 = (Inr b, w3)"
    and l: "listen_unix sample_host (path_join [?b, ''proxy.vsock''] @ ''_'' @ itoa hostVsockPort) 0x180 w2 = (Inr (), w3)"
    by (simp add: startVsockBridge_def listen_unix_def sys_def Let_def)
  have cl: "clean_abs ?b"
    unfolding clean_abs_def by (rule exI [of _ "[''tmp'', ''exec-sandbox-fc-1'']"]) (simp add: path_simps)
  have "map_of (fs w3) ''/tmp/w/payload.sh'' = map_of (fs w2) ''/tmp/w/payload.sh''"
    using listen_unix_D [OF l, of "''/tmp/w/payload.sh''"] by (simp add: path_join_clean_abs [OF cl])
  also have "\<dots> = Some (FileN 0x180 ''echo hi'')"
    using loadGuestArtifacts_D [OF ld] mk(2) by (simp add: fc_world_def)
  finally obtain w4 where pay: "buildPayloadDrive sample_host ''/tmp/w/payload.sh'' (path_join [?b, ''payload.ext4'']) 0 w3 = (Inr (), w4)"
    using calm_payload_drive by fastforce
  obtain w5 where wk: "buildWorkdirDrive sample_host ''/home/u'' (path_join [?b, ''work.ext4'']) 0 w4 = (Inr (), w5)"
    by (simp add: buildWorkdirDrive_def run_mkfs_def)
  obtain cfg work w6 where fc: "fc_config sample_lib sample_host ?b ?art (path_join [?b, ''proxy.vsock'']) ''/tmp/w/payload.sh'' ''/home/u'' []
      no_limits 0 w3 = ((Inr cfg, work), w6)"
    by (simp add: fc_config_def Let_def pay wk addFileReadDrives_def validateDriveReadOnly_def addPayloadDrive_def addWorkdirDrive_def
        add_drive_def firecrackerConfig_def aput_def fld_def drive_def workDriveID_def)
  obtain w7 where wr: "os_write_file sample_host (path_join [?b, ''vm-config.json'']) (marshal_indent sample_lib 0 (JObj cfg)) 0x180 w6 = (Inr (), w7)"
    by (simp add: os_write_file_def sys_def)
  obtain argv w8 where ar: "firecrackerArgv sample_host ?b ?art no_limits w7 = (Inr argv, w8)"
    by (cases "system_binds sample_host [''/bin'', ''/lib'', ''/lib64'', ''/sbin''] w7")
      (simp add: firecrackerArgv_def Let_def del: system_binds.simps)
  show ?thesis
    using mk(1) ld br fc wr ar by (simp add: firecracker_Argv_def Let_def no_limits_def)
qed

lemma sample_tmp_clean: "clean_abs (h_tmp sample_host n ''exec-sandbox-fc-'')"
  unfolding clean_abs_def sample_tools
  by (rule exI [of _ "[''tmp'', ''exec-sandbox-fc-1'']"]) (simp add: path_simps)

lemma firecracker_argv_confines_witness:
  "\<exists>p w' args opts. firecracker_Argv sample_lib sample_host ''/tmp/w/payload.sh'' ''/tmp/w/proxy.sock'' ''/home/u'' []
      [(''A'', ''1'')] [(''TOKEN'', ''s3'')] no_limits fc_world = (Inr p, w') \<and>
    p_argv p = ''bwrap'' # args \<and>
    parse_opts args = Some (opts, [''/opt/exec-sandbox'', ''fc-launch'', ''/tmp/exec-sandbox-fc-1'']) \<and>
    UnshareAll \<in> set opts \<and> ShareNet \<notin> set opts \<and> run_env opts Map.empty ''TOKEN'' = None"
proof -
  obtain p w' where r: "firecracker_Argv sample_lib sample_host ''/tmp/w/payload.sh'' ''/tmp/w/proxy.sock'' ''/home/u'' []
      [(''A'', ''1'')] [(''TOKEN'', ''s3'')] no_limits fc_world = (Inr p, w')"
    using fc_prepares by blast
  have "\<forall>self. h_exe sample_host = Inr self \<longrightarrow> is_abs self" by (simp add: is_abs_def)
  from firecracker_argv_confines [OF r this, of Map.empty] obtain opts args path fcBin where
      "p_argv p = ''bwrap'' # args" "parse_opts args = Some (opts, [''/opt/exec-sandbox'', ''fc-launch'', ''/tmp/exec-sandbox-fc-1''])"
      "UnshareAll \<in> set opts" "ShareNet \<notin> set opts" "run_env opts Map.empty = [''PATH'' \<mapsto> path, ''FC_BINARY'' \<mapsto> fcBin]"
    by auto
  with r show ?thesis by auto
qed


lemma configHasNoNIC_exact_witness:
  "configHasNoNIC sample_lib [(''drives'', JArr [JStr ''network-interfaces''])] \<noteq> Inr () \<and>
   configHasNoNIC sample_lib [(''drives'', JArr [JStr ''net''])] = Inr ()"
  by (subst (1 2) configHasNoNIC_exact)
    (simp_all add: json_body.simps esc_ascii_def is_nic_def sublist_code)

definition tool_world :: world where
  "tool_world = bare_world\<lparr>fs := [(''/tmp/w/payload.sh'', FileN 0x180 ''true''), (''/etc/tool'', FileN 0x1ED ''x'')]\<rparr>"

abbreviation tool_config :: "(json amap res \<times> (string \<times> string) option) \<times> world" where
  "tool_config \<equiv> fc_config sample_lib sample_host ''/tmp/b'' \<lparr>kernelPath = ''/k'', rootfsPath = ''/r''\<rparr> ''/tmp/b/proxy.vsock''
     ''/tmp/w/payload.sh'' [] [''/etc/tool''] no_limits 0 tool_world"



end
