(* ===== verification/Attestation.thy ===== *)
theory Attestation
  imports World
begin

unbundle bit_operations_syntax

text \<open>
  attestation.go: the length-prefixed preimages, minting and verification of the transitional
  (v1, in-identity key) and the host-signed (v2) sandbox identity, and the loaders of the
  signing key and of the trust roots.

  Key generation and the PEM, PKCS#8 and PKIX codecs are the fields of the record \<open>pki\<close>;
  SHA-256 and Ed25519 are fields of \<open>golib\<close>. What a theorem needs of them is a named
  hypothesis (\<open>sig_ok\<close>, \<open>pki_ok\<close>, \<open>pem_shrinks\<close>): their documented behaviour. A private
  key is the byte string Go holds, its public half \<open>g_pubkey\<close> of it.
\<close>

datatype pkey = Ed25519Key bytes | OtherKey string   \<comment> \<open>a parsed key, or the Go type it has instead\<close>

record pki =
  k_gen :: "nat \<Rightarrow> bytes res"                        \<comment> \<open>ed25519.GenerateKey: the private key\<close>
  k_pem_decode :: "bytes \<Rightarrow> (bytes \<times> bytes) option" \<comment> \<open>the first block's body, the rest\<close>
  k_pem_encode :: "string \<Rightarrow> bytes \<Rightarrow> bytes"        \<comment> \<open>type and body\<close>
  k_parse_pkcs8 :: "bytes \<Rightarrow> pkey res"
  k_parse_pkix :: "bytes \<Rightarrow> pkey res"
  k_marshal_pkcs8 :: "bytes \<Rightarrow> bytes res"
  k_marshal_pkix :: "bytes \<Rightarrow> bytes res"

section \<open>Preimages\<close>

definition attestationDomain :: string where
  "attestationDomain = ''exec-sandbox/attestation/v1'' @ [CHR 0x0A]"

definition attestationDomainV2 :: string where
  "attestationDomainV2 = ''exec-sandbox/attestation/v2'' @ [CHR 0x0A]"

definition hostAttestationFormat :: string where
  "hostAttestationFormat = ''host-ed25519/v2''"

fun append_lp :: "bytes \<Rightarrow> string list \<Rightarrow> bytes" where
  "append_lp buf [] = buf"
| "append_lp buf (f # rest) = append_lp (buf @ put_uint32 (length f) @ f) rest"

definition attestationPreimage :: "string \<Rightarrow> string \<Rightarrow> string \<Rightarrow> bytes" where
  "attestationPreimage sandboxID nonce ts = append_lp attestationDomain [sandboxID, nonce, ts]"

definition attestationPreimageV2 :: "string \<Rightarrow> string \<Rightarrow> string \<Rightarrow> string \<Rightarrow> string \<Rightarrow> bytes" where
  "attestationPreimageV2 sandboxID tier pd createdAt nonce =
     append_lp attestationDomainV2 [sandboxID, tier, pd, createdAt, nonce]"

section \<open>The transitional identity\<close>

definition mintAttestation :: "golib \<Rightarrow> pki \<Rightarrow> host \<Rightarrow> string \<Rightarrow> world \<Rightarrow> json res \<times> world" where
  "mintAttestation g k h sandboxID w = (case k_gen k (tick w) of
     Inl e \<Rightarrow> (Inl e, w\<lparr>tick := Suc (tick w)\<rparr>)
   | Inr priv \<Rightarrow>
       (let (nonce, w1) = randHex h 16 (w\<lparr>tick := Suc (tick w)\<rparr>);
            (ts, w2) = now_rfc3339 h w1;
            sig = g_sign g priv (attestationPreimage sandboxID nonce ts)
        in (Inr (JObj [(''sandbox_id'', JStr sandboxID), (''nonce'', JStr nonce), (''ts'', JStr ts),
              (''attestation_pubkey'', JStr (hex_encode (g_pubkey g priv))),
              (''attestation'', JStr (hex_encode sig))]), w2)))"

definition verifyAttestation :: "golib \<Rightarrow> json amap \<Rightarrow> bool" where
  "verifyAttestation g identity =
     (case (as_str (fld identity ''sandbox_id''), as_str (fld identity ''nonce''),
            as_str (fld identity ''ts''), as_str (fld identity ''attestation_pubkey''),
            as_str (fld identity ''attestation'')) of
        (Some sandboxID, Some nonce, Some ts, Some pubHex, Some sigHex) \<Rightarrow>
          (case hex_decode pubHex of
             None \<Rightarrow> False
           | Some pub \<Rightarrow> if length pub \<noteq> 32 then False else
              (case hex_decode sigHex of
                 None \<Rightarrow> False
               | Some sig \<Rightarrow> if length sig \<noteq> 64 then False
                   else g_verify g pub (attestationPreimage sandboxID nonce ts) sig))
      | _ \<Rightarrow> False)"

section \<open>The host-signed identity\<close>

definition normalizeTier :: "string \<Rightarrow> string" where
  "normalizeTier tier = (if tier = [] then ''bubblewrap'' else tier)"

text \<open>
  The profile is \<open>JObj m\<close> or, for a nil map, \<open>JNull\<close>: \<open>json.Marshal\<close> tells them apart. A
  decoded value always marshals, so the error branch's \<open>null\<close> fallback is never taken.
\<close>

definition profileDigest :: "golib \<Rightarrow> json \<Rightarrow> string" where
  "profileDigest g profile = hex_encode (g_sha256 g (marshal g profile))"

definition mintHostAttestation ::
  "golib \<Rightarrow> host \<Rightarrow> bytes \<Rightarrow> string \<Rightarrow> string \<Rightarrow> json \<Rightarrow> world \<Rightarrow> json \<times> world" where
  "mintHostAttestation g h priv sandboxID tier profile w =
     (let tierNorm = normalizeTier tier;
          pd = profileDigest g profile;
          (createdAt, w1) = now_rfc3339 h w;
          (nonce, w2) = randHex h 16 w1;
          sig = g_sign g priv (attestationPreimageV2 sandboxID tierNorm pd createdAt nonce)
      in (JObj [(''sandbox_id'', JStr sandboxID), (''tier'', JStr tierNorm),
            (''profile_digest'', JStr pd), (''created_at'', JStr createdAt), (''nonce'', JStr nonce),
            (''attestation_format'', JStr hostAttestationFormat),
            (''attestation'', JStr (hex_encode sig))], w2))"

fun any_root :: "golib \<Rightarrow> bytes list \<Rightarrow> bytes \<Rightarrow> bytes \<Rightarrow> bool" where
  "any_root g [] pre sig = False"
| "any_root g (rk # roots) pre sig =
     (if length rk = 32 \<and> g_verify g rk pre sig then True else any_root g roots pre sig)"

definition verifyHostAttestation :: "golib \<Rightarrow> json amap \<Rightarrow> bytes list \<Rightarrow> bool" where
  "verifyHostAttestation g identity roots =
     (if as_str (fld identity ''attestation_format'') \<noteq> Some hostAttestationFormat then False
      else case (as_str (fld identity ''sandbox_id''), as_str (fld identity ''tier''),
            as_str (fld identity ''profile_digest''), as_str (fld identity ''created_at''),
            as_str (fld identity ''nonce''), as_str (fld identity ''attestation'')) of
        (Some sandboxID, Some tier, Some pd, Some createdAt, Some nonce, Some sigHex) \<Rightarrow>
          (case hex_decode sigHex of
             None \<Rightarrow> False
           | Some sig \<Rightarrow> if length sig \<noteq> 64 then False
               else any_root g roots (attestationPreimageV2 sandboxID tier pd createdAt nonce) sig)
      | _ \<Rightarrow> False)"

section \<open>Loading keys\<close>

definition node_mode :: "node \<Rightarrow> nat" where
  "node_mode n = (case n of FileN m _ \<Rightarrow> m | DirN m \<Rightarrow> m | SockN m \<Rightarrow> m)"

fun oct_digits :: "nat \<Rightarrow> string" where
  "oct_digits n = (if n < 8 then [digit_char n] else oct_digits (n div 8) @ [digit_char (n mod 8)])"

declare oct_digits.simps [simp del]

definition loadSigningKey :: "pki \<Rightarrow> host \<Rightarrow> string \<Rightarrow> world \<Rightarrow> bytes res \<times> world" where
  "loadSigningKey k h path w = (case os_stat h path w of
     (Inl e, w1) \<Rightarrow> (Inl e, w1)
   | (Inr info, w1) \<Rightarrow>
      (let perm = node_mode info AND 0x1FF in
       if perm AND 0x3F \<noteq> 0 then
         (Inl (''permissions 0'' @ oct_digits perm @
               '' too open (require 0600 or stricter, no group/other bits)''), w1)
       else case os_read_file h path w1 of
         (Inl e, w2) \<Rightarrow> (Inl e, w2)
       | (Inr d, w2) \<Rightarrow> ((case k_pem_decode k d of
            None \<Rightarrow> Inl (''no PEM block found in '' @ path)
          | Some (blk, rest) \<Rightarrow> (case k_parse_pkcs8 k blk of
               Inl e \<Rightarrow> Inl (''parse PKCS#8 private key: '' @ e)
             | Inr (OtherKey t) \<Rightarrow> Inl (''signing key is '' @ t @ '', not ed25519'')
             | Inr (Ed25519Key priv) \<Rightarrow> Inr priv)), w2)))"

text \<open>
  The loop over the blocks of a trust-root file, with fuel: \<open>None\<close> is a loop that has not
  ended. The length of the file plus one is enough (\<open>trust_roots_terminate\<close>).
\<close>

fun roots_loop :: "pki \<Rightarrow> nat \<Rightarrow> bytes \<Rightarrow> bytes list \<Rightarrow> bytes list res option" where
  "roots_loop k 0 rest roots = None"
| "roots_loop k (Suc n) rest roots = (case k_pem_decode k rest of
     None \<Rightarrow> Some (Inr roots)
   | Some (blk, rest') \<Rightarrow> (case k_parse_pkix k blk of
        Inl e \<Rightarrow> Some (Inl (''parse PKIX public key: '' @ e))
      | Inr (OtherKey t) \<Rightarrow> Some (Inl (''trust-root block is '' @ t @ '', not ed25519''))
      | Inr (Ed25519Key ed) \<Rightarrow> roots_loop k n rest' (roots @ [ed])))"

definition loadTrustRoots :: "pki \<Rightarrow> host \<Rightarrow> string \<Rightarrow> world \<Rightarrow> bytes list res option \<times> world" where
  "loadTrustRoots k h path w = (case os_read_file h path w of
     (Inl e, w1) \<Rightarrow> (Some (Inl e), w1)
   | (Inr d, w1) \<Rightarrow> ((case roots_loop k (Suc (length d)) d [] of
        None \<Rightarrow> None
      | Some (Inl e) \<Rightarrow> Some (Inl e)
      | Some (Inr roots) \<Rightarrow>
          Some (if roots = [] then Inl (''no PEM public key blocks found in '' @ path) else Inr roots)), w1))"

section \<open>Preimages are injective\<close>

definition lp :: "string \<Rightarrow> bytes" where
  "lp f = put_uint32 (length f) @ f"

definition short :: "string \<Rightarrow> bool" where
  "short f \<longleftrightarrow> length f < 2 ^ 32"

lemma append_lp_eq: "append_lp buf xs = buf @ concat (map lp xs)"
  by (induction buf xs rule: append_lp.induct) (simp_all add: lp_def)

lemma lp_inject:
  assumes "short f" and "short f'" and "lp f @ x = lp f' @ y"
  shows "f = f' \<and> x = y"
proof -
  from assms(3) have "put_uint32 (length f) = put_uint32 (length f') \<and> f @ x = f' @ y"
    unfolding lp_def append_assoc by (simp add: append_eq_append_conv)
  with assms(1,2) have l: "length f = length f'" and "f @ x = f' @ y"
    unfolding short_def using put_uint32_inject by blast+
  then show ?thesis using append_eq_append_conv [of f f' x y] by blast
qed

lemma lp_list_inject:
  assumes "length xs = length ys" and "list_all short xs" and "list_all short ys"
    and "concat (map lp xs) = concat (map lp ys)"
  shows "xs = ys"
  using assms
proof (induction xs ys rule: list_induct2)
  case (Cons x xs y ys)
  have "x = y \<and> concat (map lp xs) = concat (map lp ys)"
    using Cons.prems by (intro lp_inject) simp_all
  with Cons show ?case by simp
qed simp

lemma preimageV2_inject:
  assumes "list_all short [a, b, c, d, e]" and "list_all short [a', b', c', d', e']"
    and "attestationPreimageV2 a b c d e = attestationPreimageV2 a' b' c' d' e'"
  shows "[a, b, c, d, e] = [a', b', c', d', e']"
  using assms
  by (intro lp_list_inject) (auto simp: attestationPreimageV2_def append_lp_eq)

lemma preimage_inject:
  assumes "list_all short [a, b, c]" and "list_all short [a', b', c']"
    and "attestationPreimage a b c = attestationPreimage a' b' c'"
  shows "[a, b, c] = [a', b', c']"
  using assms
  by (intro lp_list_inject) (auto simp: attestationPreimage_def append_lp_eq)

lemma preimage_domains: "attestationPreimage a b c \<noteq> attestationPreimageV2 a' b' c' d' e'"
  by (simp add: attestationPreimage_def attestationPreimageV2_def append_lp_eq
      attestationDomain_def attestationDomainV2_def)

text \<open>C19: The signed bytes commit to the fields: two tuples of fields shorter than 4 GiB have the same
  attestation preimage only if they are equal field by field (nothing can be shifted across a field
  boundary), in both formats, and no v1 preimage is ever a v2 preimage, whatever the lengths, so a
  signature of one format can never be replayed in the other.\<close>

theorem preimages_commit:
  "(list_all short [a, b, c] \<and> list_all short [a', b', c'] \<longrightarrow>
     (attestationPreimage a b c = attestationPreimage a' b' c' \<longleftrightarrow> (a, b, c) = (a', b', c'))) \<and>
   (list_all short [a, b, c, d, e] \<and> list_all short [a', b', c', d', e'] \<longrightarrow>
     (attestationPreimageV2 a b c d e = attestationPreimageV2 a' b' c' d' e' \<longleftrightarrow>
       (a, b, c, d, e) = (a', b', c', d', e'))) \<and>
   attestationPreimage x y z \<noteq> attestationPreimageV2 a b c d e"
  using preimage_inject [of a b c a' b' c'] preimageV2_inject [of a b c d e a' b' c' d' e']
    preimage_domains by auto

lemma preimages_commit_witness:
  "attestationPreimageV2 ''sbx'' ''gvisor'' ''pd'' ''t'' ''n'' \<noteq>
     attestationPreimageV2 ''sbxg'' ''visor'' ''pd'' ''t'' ''n''"
  using preimages_commit [where a = "''sbx''" and b = "''gvisor''" and c = "''pd''" and d = "''t''"
      and e = "''n''" and a' = "''sbxg''" and b' = "''visor''" and c' = "''pd''" and d' = "''t''"
      and e' = "''n''"]
  by (simp add: short_def)

section \<open>Verification accepts what minting signed, and nothing else\<close>

text \<open>What Ed25519 documents of a key pair, and the idealised unforgeability of a key.\<close>

definition sig_ok :: "golib \<Rightarrow> bytes \<Rightarrow> bool" where
  "sig_ok g priv \<longleftrightarrow> length (g_pubkey g priv) = 32 \<and>
     (\<forall>m. length (g_sign g priv m) = 64 \<and> g_verify g (g_pubkey g priv) m (g_sign g priv m))"

definition accepts_only :: "golib \<Rightarrow> bytes \<Rightarrow> bytes set \<Rightarrow> bool" where
  "accepts_only g rk M \<longleftrightarrow> (\<forall>m s. g_verify g rk m s \<longrightarrow> m \<in> M)"

lemma any_root_iff:
  "any_root g roots pre sig \<longleftrightarrow> (\<exists>r \<in> set roots. length r = 32 \<and> g_verify g r pre sig)"
  by (induction roots) auto

definition host_fields :: "json amap \<Rightarrow> (string \<times> string \<times> string \<times> string \<times> string) option" where
  \<comment> \<open>the five attested fields of an identity\<close>
  "host_fields m = (case (as_str (fld m ''sandbox_id''), as_str (fld m ''tier''),
      as_str (fld m ''profile_digest''), as_str (fld m ''created_at''), as_str (fld m ''nonce'')) of
     (Some a, Some b, Some c, Some d, Some e) \<Rightarrow> Some (a, b, c, d, e) | _ \<Rightarrow> None)"

lemma verifyHostAttestation_D:
  assumes "verifyHostAttestation g m roots"
  obtains a b c d e sig r where "host_fields m = Some (a, b, c, d, e)" and "r \<in> set roots"
    and "g_verify g r (attestationPreimageV2 a b c d e) sig"
  using assms
  by (auto simp: verifyHostAttestation_def host_fields_def any_root_iff split: if_splits option.splits)

lemma mint_verifies:
  assumes "sig_ok g priv" and "g_pubkey g priv \<in> set roots"
    and "mintHostAttestation g h priv sandboxID tier profile w = (identity, w')"
  shows "verifyHostAttestation g (as_obj identity) roots \<and>
    fld (as_obj identity) ''attestation_pubkey'' = JNull \<and>
    fld (as_obj identity) ''tier'' = JStr (normalizeTier tier) \<and>
    fld (as_obj identity) ''profile_digest'' = JStr (hex_encode (g_sha256 g (marshal g profile)))"
proof -
  from assms(1,2) have sig: "length (g_sign g priv x) = 64" "any_root g roots x (g_sign g priv x)" for x
    by (auto simp: sig_ok_def any_root_iff)
  obtain t w1 n where t: "now_rfc3339 h w = (t, w1)" and n: "randHex h 16 w1 = (n, w')"
      and i: "identity = JObj [(''sandbox_id'', JStr sandboxID), (''tier'', JStr (normalizeTier tier)),
        (''profile_digest'', JStr (profileDigest g profile)), (''created_at'', JStr t), (''nonce'', JStr n),
        (''attestation_format'', JStr hostAttestationFormat),
        (''attestation'', JStr (hex_encode (g_sign g priv
          (attestationPreimageV2 sandboxID (normalizeTier tier) (profileDigest g profile) t n))))]"
    using assms(3) by (auto simp: mintHostAttestation_def Let_def split: prod.splits)
  then show ?thesis
    by (simp add: i verifyHostAttestation_def fld_def sig profileDigest_def)
qed

lemma transitional_mint_verifies:
  assumes "sig_ok g priv" and "k_gen k (tick w) = Inr priv"
  shows "\<exists>m w1. mintAttestation g k h sandboxID w = (Inr (JObj m), w1) \<and> verifyAttestation g m"
  using assms
  by (auto simp: sig_ok_def mintAttestation_def verifyAttestation_def fld_def split: prod.splits)

text \<open>C20: A minted identity verifies: the host-signed identity of a run verifies against every trust root
  list that contains the signing key's public half (whatever else it contains), carries no in-identity
  key, binds the normalised tier and the digest of the exact profile; the transitional identity
  verifies under its own key.\<close>

theorem minted_identity_verifies:
  assumes "sig_ok g priv" and "g_pubkey g priv \<in> set roots"
    and "mintHostAttestation g h priv sandboxID tier profile w = (identity, w')"
  shows "verifyHostAttestation g (as_obj identity) roots \<and>
    fld (as_obj identity) ''attestation_pubkey'' = JNull \<and>
    fld (as_obj identity) ''tier'' = JStr (normalizeTier tier) \<and>
    fld (as_obj identity) ''profile_digest'' = JStr (hex_encode (g_sha256 g (marshal g profile))) \<and>
    (k_gen k (tick w) = Inr priv \<longrightarrow>
      (\<exists>m w1. mintAttestation g k h sandboxID w = (Inr (JObj m), w1) \<and> verifyAttestation g m))"
  using mint_verifies [OF assms] transitional_mint_verifies [OF assms(1)] by blast


section \<open>The loaders fail closed\<close>

text \<open>The blocks of a PEM file, in order.\<close>

inductive pem_file :: "pki \<Rightarrow> bytes \<Rightarrow> bytes list \<Rightarrow> bool" for k where
  pem_end: "k_pem_decode k d = None \<Longrightarrow> pem_file k d []"
| pem_block: "k_pem_decode k d = Some (blk, rest) \<Longrightarrow> pem_file k rest bs \<Longrightarrow> pem_file k d (blk # bs)"

inductive_simps pem_file_None: "pem_file k d []"
inductive_cases pem_file_Cons: "pem_file k d (b # bs)"

definition pem_shrinks :: "pki \<Rightarrow> bool" where
  "pem_shrinks k \<longleftrightarrow> (\<forall>d blk rest. k_pem_decode k d = Some (blk, rest) \<longrightarrow> length rest < length d)"

fun parse_all :: "pki \<Rightarrow> bytes list \<Rightarrow> bytes list option" where
  "parse_all k [] = Some []"
| "parse_all k (b # bs) = (case k_parse_pkix k b of
     Inr (Ed25519Key ed) \<Rightarrow> map_option ((#) ed) (parse_all k bs)
   | _ \<Rightarrow> None)"

lemma pem_file_exists: "pem_shrinks k \<Longrightarrow> \<exists>bs. pem_file k d bs \<and> length bs \<le> length d"
proof (induction "length d" arbitrary: d rule: less_induct)
  case less
  show ?case
  proof (cases "k_pem_decode k d")
    case None
    then show ?thesis by (intro exI [of _ "[]"]) (simp add: pem_end)
  next
    case (Some p)
    obtain blk rest where p: "p = (blk, rest)" by (cases p)
    with Some less.prems have l: "length rest < length d"
      by (auto simp: pem_shrinks_def)
    from less.hyps [OF l less.prems] obtain bs where "pem_file k rest bs" "length bs \<le> length rest"
      by blast
    with Some p l show ?thesis
      by (intro exI [of _ "blk # bs"]) (auto intro: pem_block)
  qed
qed

lemma roots_loop_file:
  assumes "pem_file k d bs" and "length bs < n"
  shows "\<exists>r. roots_loop k n d acc = Some r \<and>
    (\<forall>rs. r = Inr rs \<longleftrightarrow> (\<exists>ks. parse_all k bs = Some ks \<and> rs = acc @ ks))"
  using assms
proof (induction arbitrary: n acc rule: pem_file.induct)
  case (pem_end d)
  then show ?case by (cases n) auto
next
  case (pem_block d blk rest bs)
  then obtain n' where n: "n = Suc n'" "length bs < n'" by (cases n) auto
  show ?case
  proof (cases "\<exists>ed. k_parse_pkix k blk = Inr (Ed25519Key ed)")
    case True
    then obtain ed where "k_parse_pkix k blk = Inr (Ed25519Key ed)" by blast
    with pem_block.IH [OF n(2), of "acc @ [ed]"] pem_block.hyps n show ?thesis by auto
  next
    case False
    with pem_block.hyps n show ?thesis by (auto split: sum.splits pkey.splits)
  qed
qed

text \<open>C36: Loading trust roots always ends and is all or nothing: for a PEM decoder that consumes what it
  decodes the loop returns, and it returns keys exactly when the file can be read, has at least one
  block and every block parses as an ed25519 public key; the keys are those of the blocks in order.\<close>

theorem loadTrustRoots_all_or_nothing:
  assumes "pem_shrinks k"
  shows "\<exists>r. fst (loadTrustRoots k h path w) = Some r \<and> fs (snd (loadTrustRoots k h path w)) = fs w \<and>
    (\<forall>roots. r = Inr roots \<longleftrightarrow>
      (\<exists>d bs. fst (os_read_file h path w) = Inr d \<and> pem_file k d bs \<and> bs \<noteq> [] \<and>
        parse_all k bs = Some roots))"
proof (cases "os_read_file h path w")
  case (Pair rd w1)
  note D = os_read_D(1) [OF Pair]
  show ?thesis
  proof (cases rd)
    case (Inl e)
    with Pair D show ?thesis by (auto simp: loadTrustRoots_def)
  next
    case (Inr d)
    from pem_file_exists [OF assms] obtain bs where bs: "pem_file k d bs" "length bs < Suc (length d)"
      by (metis less_Suc_eq_le)
    have uniq: "pem_file k d bs' \<Longrightarrow> bs' = bs" for bs'
      using bs(1)
    proof (induction arbitrary: bs' rule: pem_file.induct)
      case (pem_end d)
      then show ?case by (auto elim: pem_file.cases)
    next
      case (pem_block d blk rest cs)
      from pem_block.prems pem_block.hyps(1) obtain ds where "bs' = blk # ds" "pem_file k rest ds"
        by (auto elim: pem_file.cases)
      with pem_block.IH show ?case by simp
    qed
    have empty: "parse_all k bs = Some ks \<Longrightarrow> ks = [] \<longleftrightarrow> bs = []" for ks
      by (cases bs) (auto split: sum.splits pkey.splits)
    from roots_loop_file [OF bs, of "[]"] obtain r where
      r: "roots_loop k (Suc (length d)) d [] = Some r"
        "\<And>rs. r = Inr rs \<longleftrightarrow> parse_all k bs = Some rs" by auto
    have read: "fst (os_read_file h path w) = Inr d' \<longleftrightarrow> d' = d" for d'
      using Inr Pair by auto
    have spec: "(\<exists>d' bs'. fst (os_read_file h path w) = Inr d' \<and> pem_file k d' bs' \<and> bs' \<noteq> [] \<and>
        parse_all k bs' = Some rs) \<longleftrightarrow> bs \<noteq> [] \<and> parse_all k bs = Some rs" for rs
      unfolding read using uniq bs(1) by blast
    show ?thesis
    proof (cases r)
      case (Inl e)
      then have "parse_all k bs \<noteq> Some rs" for rs using r(2) by fastforce
      then show ?thesis
        using Inl Inr Pair D r(1) unfolding spec by (simp add: loadTrustRoots_def del: roots_loop.simps)
    next
      case (Inr ks)
      then have "parse_all k bs = Some ks" using r(2) by blast
      then show ?thesis
        using \<open>r = Inr ks\<close> \<open>rd = Inr d\<close> Pair D r(1) empty [of ks] unfolding spec
        by (auto simp: loadTrustRoots_def simp del: roots_loop.simps)
    qed
  qed
qed

text \<open>C37: The signing key loads exactly when it is safe to use: loadSigningKey returns a key iff the file
  can be stat-ed and read, carries no group or other permission bit and its first PEM block is a
  PKCS#8 ed25519 key; whatever happens it changes nothing on the host.\<close>

theorem loadSigningKey_fail_closed:
  "(fst (loadSigningKey k h path w) = Inr priv \<longleftrightarrow>
     (\<exists>n d blk rest. fst (os_stat h path w) = Inr n \<and> node_mode n AND 0x3F = 0 \<and>
        fst (os_read_file h path (snd (os_stat h path w))) = Inr d \<and>
        k_pem_decode k d = Some (blk, rest) \<and> k_parse_pkcs8 k blk = Inr (Ed25519Key priv))) \<and>
   fs (snd (loadSigningKey k h path w)) = fs w \<and> effects (snd (loadSigningKey k h path w)) = effects w"
proof -
  obtain r w1 where st: "os_stat h path w = (r, w1)" by fastforce
  obtain q w2 where rd: "os_read_file h path w1 = (q, w2)" by fastforce
  have mask: "(node_mode n AND 0x1FF) AND 0x3F = node_mode n AND 0x3F" for n
    by (simp add: and.assoc)
  show ?thesis
    using os_stat_D [OF st] os_read_D(1) [OF rd]
    by (auto simp: loadSigningKey_def st rd mask Let_def split: sum.splits option.splits pkey.splits)
qed

section \<open>Witnesses\<close>

text \<open>A toy container format: a marker, the body's length, the body.\<close>

definition sample_pki :: pki where
  "sample_pki = \<lparr>k_gen = (\<lambda>n. Inr (replicate 64 CHR ''A'')),
     k_pem_decode = (\<lambda>d. case d of
        m # n # r \<Rightarrow> if m = CHR ''P'' \<and> of_char n \<le> length r then Some (take (of_char n) r, drop (of_char n) r) else None
      | _ \<Rightarrow> None),
     k_pem_encode = (\<lambda>t b. CHR ''P'' # char_of (length b) # b),
     k_parse_pkcs8 = (\<lambda>b. case b of m # r \<Rightarrow> if m = CHR ''K'' then Inr (Ed25519Key r) else Inr (OtherKey ''*rsa'')
        | [] \<Rightarrow> Inl ''asn1''),
     k_parse_pkix = (\<lambda>b. case b of m # r \<Rightarrow> if m = CHR ''R'' then Inr (Ed25519Key r) else Inr (OtherKey ''*rsa'')
        | [] \<Rightarrow> Inl ''asn1''),
     k_marshal_pkcs8 = (\<lambda>p. Inr (CHR ''K'' # p)),
     k_marshal_pkix = (\<lambda>p. Inr (CHR ''R'' # p))\<rparr>"

lemma sample_pem_shrinks: "pem_shrinks sample_pki"
  by (auto simp: pem_shrinks_def sample_pki_def split: list.splits if_splits)

lemma sample_sig_ok: "sig_ok sample_lib (replicate 64 CHR ''A'')"
  by (simp add: sig_ok_def sample_lib_def)

lemma minted_identity_verifies_witness:
  "\<exists>i w'. mintHostAttestation sample_lib sample_host (replicate 64 CHR ''A'') ''sbx-1'' [] JNull bare_world =
      (i, w') \<and> verifyHostAttestation sample_lib (as_obj i) [''short'', replicate 32 CHR ''A''] \<and>
     fld (as_obj i) ''tier'' = JStr ''bubblewrap''"
proof -
  obtain i w' where m: "mintHostAttestation sample_lib sample_host (replicate 64 CHR ''A'') ''sbx-1'' [] JNull
      bare_world = (i, w')" by fastforce
  have root: "g_pubkey sample_lib (replicate 64 CHR ''A'') \<in> set [''short'', replicate 32 CHR ''A'']"
    by (simp add: sample_lib_def)
  show ?thesis
    using m minted_identity_verifies [OF sample_sig_ok root m] by (auto simp: normalizeTier_def)
qed

definition signed_tuple :: "string \<times> string \<times> string \<times> string \<times> string" where
  "signed_tuple = (''sbx-1'', ''gvisor'', ''pd'', ''2026'', ''n'')"

definition strict_lib :: golib where
  "strict_lib = sample_lib\<lparr>g_verify := (\<lambda>k m s.
     m = attestationPreimageV2 ''sbx-1'' ''gvisor'' ''pd'' ''2026'' ''n'' \<and> s = replicate 64 CHR ''A'')\<rparr>"

definition signed_identity :: "json amap" where
  "signed_identity = [(''sandbox_id'', JStr ''sbx-1''), (''tier'', JStr ''gvisor''),
     (''profile_digest'', JStr ''pd''), (''created_at'', JStr ''2026''), (''nonce'', JStr ''n''),
     (''attestation_format'', JStr ''host-ed25519/v2''),
     (''attestation'', JStr (hex_encode (replicate 64 CHR ''A'')))]"


lemma loadTrustRoots_all_or_nothing_witness:
  "fst (loadTrustRoots sample_pki sample_host ''/roots'' (bare_world\<lparr>fs := [(''/roots'', FileN 0 (''P'' @ [CHR 0x02] @ ''Rk''))]\<rparr>))
     = Some (Inr [''k''])"
proof -
  let ?w = "bare_world\<lparr>fs := [(''/roots'', FileN 0 (''P'' @ [CHR 0x02] @ ''Rk''))]\<rparr>"
  obtain r where r: "fst (loadTrustRoots sample_pki sample_host ''/roots'' ?w) = Some r"
      "\<And>roots. r = Inr roots \<longleftrightarrow> (\<exists>d bs. fst (os_read_file sample_host ''/roots'' ?w) = Inr d \<and>
        pem_file sample_pki d bs \<and> bs \<noteq> [] \<and> parse_all sample_pki bs = Some roots)"
    using loadTrustRoots_all_or_nothing [OF sample_pem_shrinks] by blast
  have rd: "fst (os_read_file sample_host ''/roots'' ?w) = Inr (''P'' @ [CHR 0x02] @ ''Rk'')"
    by (simp add: os_read_file_def sys_def sample_host_def)
  have pf: "pem_file sample_pki (''P'' @ [CHR 0x02] @ ''Rk'') [''Rk'']"
    by (auto intro!: pem_file.intros simp: sample_pki_def)
  have pa: "parse_all sample_pki [''Rk''] = Some [''k'']"
    by (simp add: sample_pki_def)
  from r(2) [of "[''k'']"] rd pf pa have "r = Inr [''k'']" by blast
  with r(1) show ?thesis by simp
qed

end
