(* ===== verification/Keygen.thy ===== *)
theory Keygen
  imports Attestation
begin

text \<open>
  keygen.go: the two attestation subcommands. A subcommand returns its exit code and the lines it
  prints to standard output; a line on standard error is a \<open>Warn\<close> effect. What is verified: no
  overwrite, the round trip from a generated key pair to a verified identity, and what a failed
  write leaves behind.

  The file mode \<open>O_CREATE\<close> gives is subject to the umask until the \<open>Chmod\<close> that follows; the
  model creates the file with the requested mode.
\<close>

definition warn :: "string \<Rightarrow> world \<Rightarrow> world" where
  "warn s w = log_eff (Warn s) w"

text \<open>\<open>os.Stat\<close> with \<open>os.IsNotExist\<close>: whether the path exists, or another error.\<close>

definition os_probe :: "host \<Rightarrow> string \<Rightarrow> world \<Rightarrow> bool res \<times> world" where
  "os_probe h p w = (case sys h (OpStat p) w of
     (Some (Fault e r), w') \<Rightarrow> (Inl e, w')
   | (None, w') \<Rightarrow> (Inr (map_of (fs w') p \<noteq> None), w'))"

definition writeExclusive :: "host \<Rightarrow> string \<Rightarrow> bytes \<Rightarrow> nat \<Rightarrow> world \<Rightarrow> unit res \<times> world" where
  "writeExclusive h path d mode w = (case sys h (OpCreateExcl path) w of
     (Some (Fault e r), w1) \<Rightarrow> (Inl e, leave path r w1)
   | (None, w1) \<Rightarrow>
      if map_of (fs w1) path \<noteq> None then (Inl (''open '' @ path @ '': file exists''), w1)
      else (let w2 = put_node path (FileN mode []) w1 in
        case sys h (OpWrite path) w2 of
          (Some (Fault e r), w3) \<Rightarrow> (Inl e, snd (sys h (OpClose path) (leave path r w3)))
        | (None, w3) \<Rightarrow> (case sys h (OpClose path) (put_node path (FileN mode d) w3) of
            (Some (Fault e r), w4) \<Rightarrow> (Inl e, leave path r w4)
          | (None, w4) \<Rightarrow> (case sys h (OpChmod path) w4 of
              (Some (Fault e r), w5) \<Rightarrow> (Inl e, leave path r w5)
            | (None, w5) \<Rightarrow> (Inr (), put_node path (FileN mode d) w5)))))"

fun probe_outputs :: "host \<Rightarrow> string list \<Rightarrow> world \<Rightarrow> bool \<times> world" where
  \<comment> \<open>the loop before anything is written: True when neither output exists\<close>
  "probe_outputs h [] w = (True, w)"
| "probe_outputs h (p # ps) w = (case os_probe h p w of
     (Inr True, w1) \<Rightarrow> (False, warn (''keygen: '' @ p @ '' already exists, refusing to overwrite'') w1)
   | (Inl e, w1) \<Rightarrow> (False, warn (''keygen: stat '' @ p @ '': '' @ e) w1)
   | (Inr False, w1) \<Rightarrow> probe_outputs h ps w1)"

definition abs_or_empty :: "host \<Rightarrow> string \<Rightarrow> string" where
  "abs_or_empty h p = (case path_abs (h_wd h) p of Inl e \<Rightarrow> [] | Inr q \<Rightarrow> q)"

definition keygenMain :: "golib \<Rightarrow> pki \<Rightarrow> host \<Rightarrow> string list \<Rightarrow> world \<Rightarrow> (int \<times> string list) \<times> world" where
  "keygenMain g k h args w =
     (case args of
       [dir] \<Rightarrow>
        (let keyPath = path_join [dir, ''attestation-signing.key''];
             pubPath = path_join [dir, ''attestation-trust-root.pub''] in
         case probe_outputs h [keyPath, pubPath] w of
           (False, w1) \<Rightarrow> ((1, []), w1)
         | (True, w1) \<Rightarrow> (case k_gen k (tick w1) of
            Inl e \<Rightarrow> ((1, []), warn (''keygen: generate key: '' @ e) w1)
          | Inr priv \<Rightarrow> (case k_marshal_pkcs8 k priv of
             Inl e \<Rightarrow> ((1, []), warn (''keygen: marshal private key: '' @ e) w1)
           | Inr keyDER \<Rightarrow> (case k_marshal_pkix k (g_pubkey g priv) of
              Inl e \<Rightarrow> ((1, []), warn (''keygen: marshal public key: '' @ e) w1)
            | Inr pubDER \<Rightarrow>
               (let keyPEM = k_pem_encode k ''PRIVATE KEY'' keyDER;
                    pubPEM = k_pem_encode k ''PUBLIC KEY'' pubDER in
                case writeExclusive h keyPath keyPEM 0x180 w1 of
                  (Inl e, w2) \<Rightarrow> ((1, []), warn (''keygen: write '' @ keyPath @ '': '' @ e) w2)
                | (Inr _, w2) \<Rightarrow> (case writeExclusive h pubPath pubPEM 0x1A4 w2 of
                    (Inl e, w3) \<Rightarrow> ((1, []), snd (os_remove h keyPath
                       (warn (''keygen: write '' @ pubPath @ '': '' @ e) w3)))
                  | (Inr _, w3) \<Rightarrow>
                     ((0, [''signing_key='' @ abs_or_empty h keyPath,
                           ''trust_root='' @ abs_or_empty h pubPath]), w3)))))))
     | _ \<Rightarrow> ((2, []), warn ''usage: exec-sandbox keygen <dir>'' w))"

text \<open>
  \<open>None\<close> would be a trust-root loop that does not end. Reading standard input and decoding it
  are arguments: what \<open>io.ReadAll\<close> returned and \<open>json.Unmarshal\<close> into a map.
\<close>

definition verifyAttestationMain ::
  "golib \<Rightarrow> pki \<Rightarrow> (bytes \<Rightarrow> json amap res) \<Rightarrow> host \<Rightarrow> string list \<Rightarrow> bytes res \<Rightarrow> world \<Rightarrow> (int \<times> string list) option \<times> world" where
  "verifyAttestationMain g k unmarshal h args stdin w =
     (case args of
       [path] \<Rightarrow> (case loadTrustRoots k h path w of
          (None, w1) \<Rightarrow> (None, w1)
        | (Some (Inl e), w1) \<Rightarrow> (Some (1, []), warn (''verify-attestation: trust root: '' @ e) w1)
        | (Some (Inr roots), w1) \<Rightarrow> (case stdin of
            Inl e \<Rightarrow> (Some (1, []), warn (''verify-attestation: read stdin: '' @ e) w1)
          | Inr d \<Rightarrow> (case unmarshal d of
              Inl e \<Rightarrow> (Some (1, []), warn (''verify-attestation: parse identity: '' @ e) w1)
            | Inr identity \<Rightarrow>
                if \<not> verifyHostAttestation g identity roots then
                  (Some (1, []), warn ''verify-attestation: signature does not verify against the trust root'' w1)
                else (Some (0, [''ok'']), w1))))
     | _ \<Rightarrow> (Some (2, []), warn ''usage: exec-sandbox verify-attestation <trust-root.pub>   (identity JSON on stdin)'' w))"

section \<open>Frames\<close>

lemma warn_simps [simp]: "fs (warn s w) = fs w" "effects (warn s w) = effects w @ [Warn s]"
    "tick (warn s w) = tick w"
  by (simp_all add: warn_def log_eff_def)

lemma sys_fs: "sys h op w = (r, w') \<Longrightarrow> fs w' = fs w \<and> effects w' = effects w"
  by (auto simp: sys_def)

lemma writeExclusive_frame:
  assumes "writeExclusive h p d m w = (r, w')"
  shows "effects w' = effects w \<and> (q \<noteq> p \<longrightarrow> map_of (fs w') q = map_of (fs w) q)"
proof -
  have "fs (snd (sys h op w)) = fs w" "effects (snd (sys h op w)) = effects w" for op w
    by simp_all
  with assms show ?thesis
    by (auto simp: writeExclusive_def Let_def fs_leave_other map_of_put_node dest!: sys_fs
        split: prod.splits option.splits fault.splits if_splits)
qed

lemma writeExclusive_Inr:
  assumes "writeExclusive h p d m w = (Inr u, w')"
  shows "map_of (fs w) p = None \<and> map_of (fs w') = (map_of (fs w))(p \<mapsto> FileN m d)"
  using assms
  by (auto simp: writeExclusive_def Let_def map_of_put_node dest!: sys_fs
      split: prod.splits option.splits fault.splits if_splits)

lemma os_probe_D:
  assumes "os_probe h p w = (r, w')"
  shows "fs w' = fs w \<and> effects w' = effects w \<and> (\<forall>b. r = Inr b \<longrightarrow> b = (map_of (fs w) p \<noteq> None))"
  using assms by (auto simp: os_probe_def dest!: sys_fs split: prod.splits option.splits fault.splits)

lemma probe_outputs_D:
  assumes "probe_outputs h ps w = (b, w')"
  shows "fs w' = fs w \<and> (b \<longrightarrow> effects w' = effects w \<and> (\<forall>p \<in> set ps. map_of (fs w) p = None))"
  using assms
proof (induction ps arbitrary: w)
  case (Cons p ps)
  obtain r w1 where pr: "os_probe h p w = (r, w1)" by fastforce
  from Cons.prems Cons.IH [of w1] show ?case
    using os_probe_D [OF pr] by (auto simp: pr split: sum.splits bool.splits)
qed simp

section \<open>keygen\<close>

text \<open>C38: keygen never destroys anything: whatever it is called with, whichever call fails and however it
  fails, every file that existed before still exists with the same contents and mode.\<close>

theorem keygen_never_overwrites:
  "map_of (fs w) q \<noteq> None \<longrightarrow>
     map_of (fs (snd (keygenMain g k h args w))) q = map_of (fs w) q"
proof (cases "\<exists>dir. args = [dir]")
  case False
  then show ?thesis by (auto simp: keygenMain_def split: list.splits)
next
  case True
  then obtain dir where a: "args = [dir]" by blast
  let ?K = "path_join [dir, ''attestation-signing.key'']"
  let ?P = "path_join [dir, ''attestation-trust-root.pub'']"
  obtain b w1 where pr: "probe_outputs h [?K, ?P] w = (b, w1)" by fastforce
  note D = probe_outputs_D [OF pr]
  have rem: "q \<noteq> p \<Longrightarrow> map_of (fs (snd (os_remove h p w))) q = map_of (fs w) q" for p w
    by (auto simp: fs_simps AList.delete_conv' split: option.splits fault.splits)
  show ?thesis
  proof (cases b)
    case False
    then show ?thesis by (simp add: keygenMain_def a pr D del: probe_outputs.simps)
  next
    case True
    with D have "map_of (fs w) q \<noteq> None \<Longrightarrow> q \<noteq> ?K \<and> q \<noteq> ?P" by auto
    then show ?thesis
      using D True
      by (auto simp: keygenMain_def a pr Let_def rem simp del: probe_outputs.simps
          dest!: writeExclusive_frame [where q = q] split: sum.splits prod.splits)
  qed
qed

text \<open>What the codecs document: decoding undoes encoding.\<close>

definition pki_ok :: "golib \<Rightarrow> pki \<Rightarrow> bool" where
  "pki_ok g k \<longleftrightarrow> k_pem_decode k [] = None \<and>
     (\<forall>n p. k_gen k n = Inr p \<longrightarrow> sig_ok g p \<and>
       (\<forall>der. k_marshal_pkcs8 k p = Inr der \<longrightarrow>
          k_pem_decode k (k_pem_encode k ''PRIVATE KEY'' der) = Some (der, []) \<and>
          k_parse_pkcs8 k der = Inr (Ed25519Key p)) \<and>
       (\<forall>der. k_marshal_pkix k (g_pubkey g p) = Inr der \<longrightarrow>
          k_pem_decode k (k_pem_encode k ''PUBLIC KEY'' der) = Some (der, []) \<and>
          k_parse_pkix k der = Inr (Ed25519Key (g_pubkey g p))))"

lemma keygen_success_D:
  assumes "keygenMain g k h [dir] w = ((0, out), w')"
  obtains n priv keyDER pubDER where "k_gen k n = Inr priv" and "k_marshal_pkcs8 k priv = Inr keyDER"
    and "k_marshal_pkix k (g_pubkey g priv) = Inr pubDER"
    and "map_of (fs w') (path_join [dir, ''attestation-signing.key'']) =
      Some (FileN 0x180 (k_pem_encode k ''PRIVATE KEY'' keyDER))"
    and "map_of (fs w') (path_join [dir, ''attestation-trust-root.pub'']) =
      Some (FileN 0x1A4 (k_pem_encode k ''PUBLIC KEY'' pubDER))"
    and "effects w' = effects w"
proof -
  let ?K = "path_join [dir, ''attestation-signing.key'']"
  let ?P = "path_join [dir, ''attestation-trust-root.pub'']"
  obtain b w1 where pr: "probe_outputs h [?K, ?P] w = (b, w1)" by fastforce
  from assms obtain priv keyDER pubDER w2 u1 u2 where b: "b" and gen: "k_gen k (tick w1) = Inr priv"
      and der: "k_marshal_pkcs8 k priv = Inr keyDER" "k_marshal_pkix k (g_pubkey g priv) = Inr pubDER"
      and wr: "writeExclusive h ?K (k_pem_encode k ''PRIVATE KEY'' keyDER) 0x180 w1 = (Inr u1, w2)"
        "writeExclusive h ?P (k_pem_encode k ''PUBLIC KEY'' pubDER) 0x1A4 w2 = (Inr u2, w')"
    by (auto simp: keygenMain_def pr Let_def simp del: probe_outputs.simps
        split: bool.splits sum.splits prod.splits)
  from writeExclusive_Inr [OF wr(1)] writeExclusive_Inr [OF wr(2)]
  have "?K \<noteq> ?P" "map_of (fs w') ?K = Some (FileN 0x180 (k_pem_encode k ''PRIVATE KEY'' keyDER))"
      "map_of (fs w') ?P = Some (FileN 0x1A4 (k_pem_encode k ''PUBLIC KEY'' pubDER))"
    by (auto split: if_splits)
  moreover have "effects w' = effects w"
    using writeExclusive_frame [OF wr(1)] writeExclusive_frame [OF wr(2)] probe_outputs_D [OF pr] b
    by simp
  ultimately show thesis using that gen der by blast
qed

text \<open>C18: The attestation tool chain closes: after a keygen that reports success, on a host whose calls
  succeed, loadSigningKey accepts the key file it wrote, loadTrustRoots accepts the root file and
  returns exactly that key's public half, and verify-attestation prints ok and exits 0 on every
  identity minted with the loaded key.\<close>

theorem keygen_mint_verify:
  assumes "keygenMain g k h [dir] w = ((0, out), w1)" and "pki_ok g k"
    and "\<forall>n op. h_fault h' n op = None"
  shows "\<exists>priv. fst (loadSigningKey k h' (path_join [dir, ''attestation-signing.key'']) w1) = Inr priv \<and>
    fst (loadTrustRoots k h' (path_join [dir, ''attestation-trust-root.pub'']) w1) =
      Some (Inr [g_pubkey g priv]) \<and>
    (\<forall>sandboxID tier profile d.
       unmarshal d = Inr (as_obj (fst (mintHostAttestation g h' priv sandboxID tier profile w1))) \<longrightarrow>
       fst (verifyAttestationMain g k unmarshal h' [path_join [dir, ''attestation-trust-root.pub'']] (Inr d) w1) =
         Some (0, [''ok'']))"
proof -
  let ?K = "path_join [dir, ''attestation-signing.key'']"
  let ?P = "path_join [dir, ''attestation-trust-root.pub'']"
  from assms(1) obtain n priv keyDER pubDER where gen: "k_gen k n = Inr priv"
      and der: "k_marshal_pkcs8 k priv = Inr keyDER" "k_marshal_pkix k (g_pubkey g priv) = Inr pubDER"
      and K: "map_of (fs w1) ?K = Some (FileN 0x180 (k_pem_encode k ''PRIVATE KEY'' keyDER))"
      and P: "map_of (fs w1) ?P = Some (FileN 0x1A4 (k_pem_encode k ''PUBLIC KEY'' pubDER))"
    by (rule keygen_success_D)
  from assms(2) gen der have ok: "sig_ok g priv" "k_pem_decode k [] = None"
      "k_pem_decode k (k_pem_encode k ''PRIVATE KEY'' keyDER) = Some (keyDER, [])"
      "k_parse_pkcs8 k keyDER = Inr (Ed25519Key priv)"
      "k_pem_decode k (k_pem_encode k ''PUBLIC KEY'' pubDER) = Some (pubDER, [])"
      "k_parse_pkix k pubDER = Inr (Ed25519Key (g_pubkey g priv))"
    by (auto simp: pki_ok_def)
  have key: "fst (loadSigningKey k h' ?K w1) = Inr priv"
    using assms(3) K ok by (simp add: loadSigningKey_def fs_simps node_mode_def)
  obtain m where m: "length (k_pem_encode k ''PUBLIC KEY'' pubDER) = Suc m"
    using ok(2,5) by (cases "k_pem_encode k ''PUBLIC KEY'' pubDER") auto
  obtain w2 where roots: "loadTrustRoots k h' ?P w1 = (Some (Inr [g_pubkey g priv]), w2)"
    using assms(3) P ok m by (simp add: loadTrustRoots_def fs_simps)
  have "verifyHostAttestation g (as_obj (fst (mintHostAttestation g h' priv s t pr w1))) [g_pubkey g priv]"
    for s t pr
  proof -
    obtain i w' where mint: "mintHostAttestation g h' priv s t pr w1 = (i, w')" by fastforce
    have root: "g_pubkey g priv \<in> set [g_pubkey g priv]" by simp
    show ?thesis using mint mint_verifies [OF ok(1) root mint] by simp
  qed
  with key roots show ?thesis
    by (intro exI [of _ priv]) (simp add: verifyAttestationMain_def)
qed

text \<open>
  The rollback in \<open>keygenMain\<close> removes only the private key: when the write of the trust root
  fails after the file was created, a partial public half stays behind. The next \<open>keygen\<close> then
  refuses to run, although the comment promises that a partial run leaves no half-pair.
\<close>

definition full_disk_host :: host where
  "full_disk_host = sample_host\<lparr>h_fault := (\<lambda>n op.
     if op = OpWrite ''/k/attestation-trust-root.pub'' then Some (Fault ''no space left on device'' None) else None)\<rparr>"

lemma keygen_paths:
  "path_join [''/k'', ''attestation-signing.key''] = ''/k/attestation-signing.key''"
  "path_join [''/k'', ''attestation-trust-root.pub''] = ''/k/attestation-trust-root.pub''"
  using path_join_abs_path [of "[''k'']" "''attestation-signing.key''"]
    path_join_abs_path [of "[''k'']" "''attestation-trust-root.pub''"]
  by (simp_all add: path_simps)

lemma keygen_leaves_half_pair:
  "\<exists>w1. keygenMain sample_lib sample_pki full_disk_host [''/k''] bare_world = ((1, []), w1) \<and>
     map_of (fs w1) ''/k/attestation-signing.key'' = None \<and>
     map_of (fs w1) ''/k/attestation-trust-root.pub'' = Some (FileN 0x1A4 []) \<and>
     fst (keygenMain sample_lib sample_pki sample_host [''/k''] w1) = (1, [])"
proof -
  have gen: "k_gen sample_pki n = Inr (replicate 64 CHR ''A'')"
    and der: "k_marshal_pkcs8 sample_pki p = Inr (CHR ''K'' # p)" "k_marshal_pkix sample_pki p = Inr (CHR ''R'' # p)"
    for n p
    by (simp_all add: sample_pki_def)
  have fault: "h_fault sample_host n op = None"
      "h_fault full_disk_host n op = (if op = OpWrite ''/k/attestation-trust-root.pub''
        then Some (Fault ''no space left on device'' None) else None)" for n op
    by (simp_all add: sample_host_def full_disk_host_def)
  show ?thesis
    by (simp add: keygenMain_def keygen_paths os_probe_def sys_def fault gen der Let_def
        writeExclusive_def leave_def put_node_def os_remove_def warn_def log_eff_def bare_world_def
        aput_def AList.delete_conv')
qed

section \<open>Witness\<close>

lemma sample_pki_ok: "pki_ok sample_lib sample_pki"
proof -
  have "length (g_pubkey sample_lib (replicate 64 CHR ''A'')) = 32"
    by (simp add: sample_lib_def)
  then show ?thesis
    using sample_sig_ok by (auto simp: pki_ok_def sample_pki_def of_char_of)
qed

lemma keygen_mint_verify_witness:
  "\<exists>w1 priv. keygenMain sample_lib sample_pki sample_host [''/k''] bare_world =
      ((0, [''signing_key=/k/attestation-signing.key'', ''trust_root=/k/attestation-trust-root.pub'']), w1) \<and>
    fst (loadSigningKey sample_pki sample_host (path_join [''/k'', ''attestation-signing.key'']) w1) = Inr priv"
proof -
  have gen: "k_gen sample_pki n = Inr (replicate 64 CHR ''A'')"
    and der: "k_marshal_pkcs8 sample_pki p = Inr (CHR ''K'' # p)" "k_marshal_pkix sample_pki p = Inr (CHR ''R'' # p)"
    for n p
    by (simp_all add: sample_pki_def)
  have fault: "h_fault sample_host n op = None" for n op
    by (simp add: sample_host_def)
  have abs: "abs_or_empty sample_host ''/k/attestation-signing.key'' = ''/k/attestation-signing.key''"
      "abs_or_empty sample_host ''/k/attestation-trust-root.pub'' = ''/k/attestation-trust-root.pub''"
    by (simp_all add: abs_or_empty_def path_abs_def is_abs_def path_clean_def)
  obtain w1 where r: "keygenMain sample_lib sample_pki sample_host [''/k''] bare_world =
      ((0, [''signing_key='' @ ''/k/attestation-signing.key'', ''trust_root='' @ ''/k/attestation-trust-root.pub'']), w1)"
    by (simp add: keygenMain_def keygen_paths os_probe_def sys_def fault gen der Let_def
        writeExclusive_def put_node_def bare_world_def aput_def abs)
  have calm: "\<forall>n op. h_fault sample_host n op = None" by (simp add: fault)
  show ?thesis
    using r keygen_mint_verify [OF r sample_pki_ok calm, of "\<lambda>d. Inl []"] by auto
qed

lemma keygen_never_overwrites_witness:
  "map_of (fs (snd (keygenMain sample_lib sample_pki full_disk_host [''/k''] bare_world))) ''/tmp'' = Some (DirN 0x1FF)"
proof -
  have there: "map_of (fs bare_world) ''/tmp'' = Some (DirN 0x1FF)"
    by (simp add: bare_world_def)
  show ?thesis
    using keygen_never_overwrites [of bare_world "''/tmp''" sample_lib sample_pki full_disk_host "[''/k'']"] there
    by simp
qed

end
