(* ===== verification/FcLaunch.thy ===== *)
theory FcLaunch
  imports Firecracker Keygen
begin

text \<open>
  fclaunch.go, the launcher that runs inside the Tier-3 sandbox: reading vm-config.json, the
  ordered boot sequence of REST calls, the wait for the API socket, the filter on the guest's serial
  console with the exit-code sentinel, and \<open>fcLaunchMain\<close>, whose exit code is the guest's.

  A \<open>json.RawMessage\<close> is represented by the value it holds. \<open>json.Unmarshal\<close> into a value is an
  argument; firecracker (its API answers, its console, its exit) is the record \<open>fc_peer\<close>.
\<close>

section \<open>The serial console\<close>

definition fcExitSentinel :: string where
  "fcExitSentinel = ''__EXEC_SANDBOX_EXIT__''"

definition LF :: char where
  "LF = CHR 0x0A"

definition max_token :: nat where
  "max_token = 2 ^ 20"

text \<open>
  \<open>bufio.Scanner\<close> with \<open>ScanLines\<close> and a buffer of at most 1 MiB: lines without their newline
  and one trailing carriage return, a last line without newline unless it is empty. A line that does
  not fit the buffer ends the scan, whatever follows it.
\<close>

definition drop_cr :: "string \<Rightarrow> string" where
  "drop_cr l = (if l \<noteq> [] \<and> last l = CHR 0x0D then butlast l else l)"

definition raw_lines :: "bytes \<Rightarrow> string list" where
  "raw_lines s = (let ls = split_on LF s in if last ls = [] then butlast ls else ls)"

definition scan_lines :: "bytes \<Rightarrow> string list" where
  "scan_lines s = map drop_cr (takeWhile (\<lambda>l. length l < max_token) (raw_lines s))"

definition isConsoleNoise :: "golib \<Rightarrow> string \<Rightarrow> bool" where
  "isConsoleNoise g line =
     (let t = trim_left_char CHR '' '' line in
      if prefix ''['' t \<and>
         (case index_byte CHR '']'' t of
            Some i \<Rightarrow> 0 < i \<and> g_float_ok g (trim_space (drop 1 (take i t)))
          | None \<Rightarrow> False)
      then True
      else if sublist ''[anonymous-instance'' line then True
      else False)"

definition sentinel_code :: "string \<Rightarrow> int" where
  "sentinel_code line = (case Go_Text.fields line of
     _ # f # _ \<Rightarrow> (case atoi f of Some n \<Rightarrow> n | None \<Rightarrow> - 1)
   | _ \<Rightarrow> - 1)"

fun console_loop :: "golib \<Rightarrow> string list \<Rightarrow> bytes \<times> int" where
  "console_loop g [] = ([], - 1)"
| "console_loop g (line # ls) =
     (if prefix fcExitSentinel line then ([], sentinel_code line)
      else if isConsoleNoise g line then console_loop g ls
      else case console_loop g ls of (out, code) \<Rightarrow> (line @ [LF] @ out, code))"

definition streamConsole :: "golib \<Rightarrow> bytes \<Rightarrow> bytes \<times> int" where
  "streamConsole g r = console_loop g (scan_lines r)"

section \<open>The configuration and the boot sequence\<close>

record vmConfig =
  MachineConfig :: "json option"
  BootSource :: "json option"
  Drives :: "json list"
  VsockDev :: "json option"

definition decode_vm :: "json \<Rightarrow> vmConfig res" where
  "decode_vm v = (case v of
     JObj m \<Rightarrow> (case map_of m ''drives'' of
         None \<Rightarrow> Inr \<lparr>MachineConfig = map_of m ''machine-config'', BootSource = map_of m ''boot-source'', Drives = [],
             VsockDev = map_of m ''vsock''\<rparr>
       | Some (JArr ds) \<Rightarrow> Inr \<lparr>MachineConfig = map_of m ''machine-config'', BootSource = map_of m ''boot-source'',
             Drives = ds, VsockDev = map_of m ''vsock''\<rparr>
       | Some JNull \<Rightarrow> Inr \<lparr>MachineConfig = map_of m ''machine-config'', BootSource = map_of m ''boot-source'',
             Drives = [], VsockDev = map_of m ''vsock''\<rparr>
       | Some _ \<Rightarrow> Inl ''json: cannot unmarshal into Go struct field vmConfig.drives of type []json.RawMessage'')
   | JNull \<Rightarrow> Inr \<lparr>MachineConfig = None, BootSource = None, Drives = [], VsockDev = None\<rparr>
   | _ \<Rightarrow> Inl ''json: cannot unmarshal into Go value of type main.vmConfig'')"

definition readVMConfig :: "(bytes \<Rightarrow> json res) \<Rightarrow> host \<Rightarrow> string \<Rightarrow> world \<Rightarrow> vmConfig res \<times> world" where
  "readVMConfig unmarshal h path w = (case os_read_file h path w of
     (Inl e, w1) \<Rightarrow> (Inl (''read vm-config '' @ path @ '': '' @ e), w1)
   | (Inr raw, w1) \<Rightarrow> (wrap_err ''parse vm-config: '' (rbind (unmarshal raw) decode_vm), w1))"

definition driveID :: "json \<Rightarrow> string" where
  "driveID d = (case fld (as_obj d) ''drive_id'' of
     JStr s \<Rightarrow> if s \<noteq> [] then s else ''rootfs''
   | _ \<Rightarrow> ''rootfs'')"

record fcRESTStep =
  rs_path :: string
  rs_body :: "json option"

definition firecrackerBootSequence :: "vmConfig \<Rightarrow> fcRESTStep list" where
  "firecrackerBootSequence cfg =
     [\<lparr>rs_path = ''/machine-config'', rs_body = MachineConfig cfg\<rparr>,
      \<lparr>rs_path = ''/boot-source'', rs_body = BootSource cfg\<rparr>] @
     map (\<lambda>d. \<lparr>rs_path = ''/drives/'' @ driveID d, rs_body = Some d\<rparr>) (Drives cfg) @
     (if VsockDev cfg \<noteq> None then [\<lparr>rs_path = ''/vsock'', rs_body = VsockDev cfg\<rparr>] else []) @
     [\<lparr>rs_path = ''/actions'', rs_body = Some (JObj [(''action_type'', JStr ''InstanceStart'')])\<rparr>]"

section \<open>Driving the API\<close>

record fc_peer =
  fc_start :: "gerr option"                             \<comment> \<open>why the process did not start, if so\<close>
  fc_clock :: "nat \<Rightarrow> int"                              \<comment> \<open>milliseconds gone at the k-th check of the deadline\<close>
  fc_dial :: "nat \<Rightarrow> bool"                              \<comment> \<open>the k-th dial of the API socket succeeds\<close>
  fc_answer :: "nat \<Rightarrow> fcRESTStep \<Rightarrow> (int \<times> bytes) res" \<comment> \<open>the answer to the k-th PUT\<close>
  fc_console :: bytes                                   \<comment> \<open>what can be read from the console pipe\<close>
  fc_wait :: "gerr option"                              \<comment> \<open>the process's own failure\<close>
  fc_pid :: int

definition putFirecracker :: "(fcRESTStep \<Rightarrow> (int \<times> bytes) res) \<Rightarrow> fcRESTStep \<Rightarrow> unit res" where
  "putFirecracker answer step = rbind (answer step) (\<lambda>(code, body).
     if code < 200 \<or> code \<ge> 300 then Inl (''status '' @ itoa code @ '': '' @ trim_space body) else Inr ())"

text \<open>The PUTs issued, in order, and the outcome.\<close>

fun put_all :: "(nat \<Rightarrow> fcRESTStep \<Rightarrow> (int \<times> bytes) res) \<Rightarrow> nat \<Rightarrow> fcRESTStep list \<Rightarrow> fcRESTStep list \<times> unit res" where
  "put_all answer k [] = ([], Inr ())"
| "put_all answer k (s # ss) = (case putFirecracker (answer k) s of
     Inl e \<Rightarrow> ([s], Inl (''PUT '' @ rs_path s @ '': '' @ e))
   | Inr _ \<Rightarrow> (case put_all answer (Suc k) ss of (ps, r) \<Rightarrow> (s # ps, r)))"

text \<open>
  The polling loop with fuel, \<open>None\<close> being a loop that has not ended: between two checks of the
  deadline it sleeps for 10 ms, so fuel \<open>poll_fuel\<close> is enough, as shown below.
\<close>

fun poll_socket :: "nat \<Rightarrow> fc_peer \<Rightarrow> int \<Rightarrow> nat \<Rightarrow> bool option" where
  "poll_socket 0 p timeout k = None"
| "poll_socket (Suc n) p timeout k =
     (if fc_clock p k < timeout then
        if fc_dial p k then Some True else poll_socket n p timeout (Suc k)
      else Some False)"

definition poll_fuel :: "int \<Rightarrow> nat" where
  "poll_fuel timeout = nat (timeout div 10) + 2"

definition waitForSocket :: "fc_peer \<Rightarrow> string \<Rightarrow> int \<Rightarrow> unit res option" where
  "waitForSocket p path timeout = map_option (\<lambda>up. if up then Inr () else
     Inl (''firecracker API socket '' @ path @ '' did not appear within '' @ itoa (timeout div 1000) @ ''s''))
     (poll_socket (poll_fuel timeout) p timeout 0)"

definition driveFirecrackerAPI :: "fc_peer \<Rightarrow> string \<Rightarrow> vmConfig \<Rightarrow> int \<Rightarrow> (fcRESTStep list \<times> unit res) option" where
  "driveFirecrackerAPI p apiSock cfg timeout = map_option (\<lambda>r. case r of
       Inl e \<Rightarrow> ([], Inl e)
     | Inr _ \<Rightarrow> put_all (fc_answer p) 0 (firecrackerBootSequence cfg))
     (waitForSocket p apiSock timeout)"

section \<open>fcLaunchMain\<close>

record launch =
  l_code :: int
  l_out :: bytes                 \<comment> \<open>written to the launcher's standard output\<close>
  l_puts :: "fcRESTStep list"    \<comment> \<open>API calls issued\<close>

definition launch_fail :: "string \<Rightarrow> bytes \<Rightarrow> fcRESTStep list \<Rightarrow> world \<Rightarrow> launch option \<times> world" where
  "launch_fail msg out puts w = (Some \<lparr>l_code = 127, l_out = out, l_puts = puts\<rparr>, warn (''fc-launch: '' @ msg) w)"

definition fcLaunchMain ::
  "golib \<Rightarrow> (bytes \<Rightarrow> json res) \<Rightarrow> fc_peer \<Rightarrow> string \<Rightarrow> host \<Rightarrow> string list \<Rightarrow> world \<Rightarrow> launch option \<times> world" where
  "fcLaunchMain g unmarshal p fcBinary h args w = (case args of
     [] \<Rightarrow> launch_fail ''usage: fc-launch <bundle-dir>'' [] [] w
   | bndl # _ \<Rightarrow> (case readVMConfig unmarshal h (path_join [bndl, ''vm-config.json'']) w of
       (Inl e, w1) \<Rightarrow> launch_fail e [] [] w1
     | (Inr cfg, w1) \<Rightarrow>
        (let apiSock = path_join [bndl, ''fc-api.sock''];
             w2 = snd (os_remove h apiSock w1);
             fcBin = (if fcBinary = [] then ''firecracker'' else fcBinary)
         in case sys h OpPipe w2 of
              (Some (Fault e r), w3) \<Rightarrow> launch_fail (''pipe: '' @ e) [] [] w3
            | (None, w3) \<Rightarrow> (case fc_start p of
                Some e \<Rightarrow> launch_fail (''cannot spawn firecracker: '' @ e) [] [] w3
              | None \<Rightarrow>
                 (let w4 = log_eff (Spawn [fcBin, ''--api-sock'', apiSock]) w3;
                      (out, guestExit) = streamConsole g (fc_console p)
                  in case driveFirecrackerAPI p apiSock cfg 10000 of
                       None \<Rightarrow> (None, w4)
                     | Some (puts, Inl e) \<Rightarrow>
                         (case launch_fail (''REST drive failed: '' @ e) out puts w4 of
                            (l, w5) \<Rightarrow> (l, log_eff (Kill (- fc_pid p)) w5))
                     | Some (puts, Inr _) \<Rightarrow>
                         if guestExit \<ge> 0 then (Some \<lparr>l_code = guestExit, l_out = out, l_puts = puts\<rparr>, w4)
                         else launch_fail (case fc_wait p of
                              Some e \<Rightarrow> ''guest produced no exit sentinel; firecracker: '' @ e
                            | None \<Rightarrow> ''guest produced no exit sentinel'') out puts w4)))))"

section \<open>The console filter\<close>

abbreviation unlines :: "string list \<Rightarrow> bytes" where
  "unlines ls \<equiv> concat (map (\<lambda>l. l @ [LF]) ls)"

lemma raw_lines_unlines:
  assumes "\<forall>l \<in> set ls. LF \<notin> set l"
  shows "raw_lines (unlines ls @ r) = ls @ raw_lines r"
proof -
  have "split_on LF (unlines ls @ r) = ls @ split_on LF r"
    using assms by (induction ls) (simp_all add: split_on_word)
  then show ?thesis by (simp add: raw_lines_def Let_def butlast_append)
qed

lemma scan_lines_unlines:
  assumes "\<forall>l \<in> set ls. LF \<notin> set l \<and> length l < max_token"
  shows "scan_lines (unlines ls @ r) = map drop_cr ls @ scan_lines r"
proof -
  have "takeWhile (\<lambda>l. length l < max_token) (ls @ raw_lines r) = ls @ takeWhile (\<lambda>l. length l < max_token) (raw_lines r)"
    using assms by (intro takeWhile_append2) blast
  then show ?thesis using assms by (simp add: scan_lines_def raw_lines_unlines)
qed

lemma console_loop_append:
  assumes "\<forall>l \<in> set ls. \<not> prefix fcExitSentinel l"
  shows "console_loop g (ls @ ms) =
    (unlines (filter (\<lambda>l. \<not> isConsoleNoise g l) ls) @ fst (console_loop g ms), snd (console_loop g ms))"
  using assms by (induction ls) (auto split: prod.splits)

lemma length_dec_digits: "n < 10 ^ k \<Longrightarrow> length (dec_digits n) \<le> max 1 k"
proof (induction k arbitrary: n)
  case (Suc k)
  show ?case
  proof (cases "n < 10")
    case False
    then have "n div 10 < 10 ^ k" using Suc.prems by (simp add: less_mult_imp_div_less mult.commute)
    moreover have "k \<noteq> 0" using False Suc.prems by (cases k) auto
    ultimately show ?thesis using Suc.IH [of "n div 10"] False by (simp add: dec_digits.simps [of n])
  qed (simp add: dec_digits.simps [of n])
qed (simp add: dec_digits.simps)

lemma plain_sentinel: "list_all plain_char fcExitSentinel" "fcExitSentinel \<noteq> []"
  by (simp_all add: fcExitSentinel_def plain_char_def)

lemma plain_digit: "is_digit c \<Longrightarrow> plain_char c \<and> c \<noteq> LF \<and> c \<noteq> CHR 0x0D"
  by (auto simp: is_digit_def plain_char_def LF_def)

lemma sentinel_line:
  assumes "0 \<le> n" and "in_int64 n"
  shows "sentinel_code (fcExitSentinel @ '' '' @ itoa n) = n"
    and "LF \<notin> set (fcExitSentinel @ '' '' @ itoa n)"
    and "length (fcExitSentinel @ '' '' @ itoa n) < max_token"
    and "drop_cr (fcExitSentinel @ '' '' @ itoa n) = fcExitSentinel @ '' '' @ itoa n"
proof -
  have d: "list_all is_digit (itoa n)" "itoa n \<noteq> []"
    using assms(1) dec_digits_all [of "nat n"] by (simp_all add: itoa_def)
  then have pl: "list_all plain_char (itoa n)" by (simp add: list_all_iff plain_digit)
  show "sentinel_code (fcExitSentinel @ '' '' @ itoa n) = n"
    using fields_word_blank [OF plain_sentinel, of "itoa n"] fields_word [OF pl d(2)] atoi_itoa [OF assms(2)]
    by (simp add: sentinel_code_def)
  show "LF \<notin> set (fcExitSentinel @ '' '' @ itoa n)"
    using d(1) by (auto simp: list_all_iff plain_digit fcExitSentinel_def LF_def dest: plain_digit [unfolded LF_def])
  have "nat n < 10 ^ 19" using assms(2) by (simp add: in_int64_def, arith)
  then show "length (fcExitSentinel @ '' '' @ itoa n) < max_token"
    using length_dec_digits [of "nat n" 19] assms(1) by (simp add: itoa_def fcExitSentinel_def max_token_def)
  have "last (itoa n) \<noteq> CHR 0x0D"
    using plain_digit [of "last (itoa n)"] d last_in_set [OF d(2)] unfolding list_all_iff by blast
  then show "drop_cr (fcExitSentinel @ '' '' @ itoa n) = fcExitSentinel @ '' '' @ itoa n"
    using d(2) by (simp add: drop_cr_def)
qed

text \<open>C12: The guest's output and exit code come through the serial console unchanged: of any lines (shorter
  than 1 MiB, none starting with the sentinel) exactly those that are not console noise are forwarded,
  in order, one carriage return removed; the exit code is the number the init prints after the sentinel
  and nothing after that line is forwarded. Without a sentinel, or when a line of 1 MiB or more comes
  before it, the code is -1, which the launcher turns into 127.\<close>

theorem streamConsole_transparent:
  assumes "\<forall>l \<in> set ls. LF \<notin> set l \<and> length l < max_token \<and> \<not> prefix fcExitSentinel (drop_cr l)"
    and "0 \<le> n" and "in_int64 n" and "LF \<notin> set big" and "max_token \<le> length big"
  shows "streamConsole g (unlines ls @ fcExitSentinel @ '' '' @ itoa n @ [LF] @ chatter) =
      (unlines (filter (\<lambda>l. \<not> isConsoleNoise g l) (map drop_cr ls)), n) \<and>
    streamConsole g (unlines ls) = (unlines (filter (\<lambda>l. \<not> isConsoleNoise g l) (map drop_cr ls)), - 1) \<and>
    streamConsole g (unlines ls @ big @ [LF] @ chatter) =
      (unlines (filter (\<lambda>l. \<not> isConsoleNoise g l) (map drop_cr ls)), - 1)"
proof -
  have short: "\<forall>l \<in> set ls. LF \<notin> set l \<and> length l < max_token" using assms(1) by blast
  have ok: "\<forall>l \<in> set (map drop_cr ls). \<not> prefix fcExitSentinel l" using assms(1) by auto
  note loop = console_loop_append [OF ok, of g]
  let ?s = "fcExitSentinel @ '' '' @ itoa n"
  note sl = sentinel_line [OF assms(2,3)]
  have "scan_lines (unlines [?s] @ chatter) = map drop_cr [?s] @ scan_lines chatter"
    by (rule scan_lines_unlines) (use sl(2,3) in simp)
  then have one: "scan_lines (?s @ [LF] @ chatter) = ?s # scan_lines chatter"
    using sl(4) by simp
  have "scan_lines [] = []" by (simp add: scan_lines_def raw_lines_def)
  moreover have "scan_lines (big @ [LF] @ chatter) = []"
    using assms(4,5) raw_lines_unlines [of "[big]" chatter] by (simp add: scan_lines_def)
  ultimately show ?thesis
    using scan_lines_unlines [OF short, of "?s @ [LF] @ chatter"] scan_lines_unlines [OF short, of "[]"]
      scan_lines_unlines [OF short, of "big @ [LF] @ chatter"] loop loop [of "[]"] sl(1) one
    by (simp add: streamConsole_def)
qed

section \<open>The wait for the API socket\<close>

lemma poll_enough:
  assumes "\<forall>k. fc_clock p k + 10 \<le> fc_clock p (Suc k)" and "timeout - 10 * int n \<le> fc_clock p k"
  shows "poll_socket (Suc n) p timeout k \<noteq> None"
  using assms(2)
proof (induction n arbitrary: k)
  case (Suc n)
  have "timeout - 10 * int n \<le> fc_clock p (Suc k)"
    using Suc.prems assms(1) [rule_format, of k] by simp
  from Suc.IH [OF this] show ?case
    by (subst poll_socket.simps) (auto simp del: poll_socket.simps)
qed simp

lemma poll_start:
  assumes "0 \<le> fc_clock p 0" and "0 \<le> timeout"
  shows "timeout - 10 * int (nat (timeout div 10) + 1) \<le> fc_clock p 0"
  using assms pos_imp_zdiv_nonneg_iff [of 10 timeout] by simp

lemma poll_result:
  "poll_socket n p timeout k = Some up \<Longrightarrow>
    up \<longleftrightarrow> (\<exists>j \<ge> k. fc_dial p j \<and> (\<forall>i. k \<le> i \<and> i \<le> j \<longrightarrow> fc_clock p i < timeout) \<and> (\<forall>i. k \<le> i \<and> i < j \<longrightarrow> \<not> fc_dial p i))"
proof (induction n arbitrary: k)
  case (Suc n)
  show ?case
  proof (cases "fc_clock p k < timeout \<and> \<not> fc_dial p k")
    case True
    then have "poll_socket n p timeout (Suc k) = Some up" using Suc.prems by simp
    note ih = Suc.IH [OF this]
    have s: "k \<le> i \<longleftrightarrow> i = k \<or> Suc k \<le> i" for i by auto
    show ?thesis
    proof
      assume up
      then show "\<exists>j \<ge> k. fc_dial p j \<and> (\<forall>i. k \<le> i \<and> i \<le> j \<longrightarrow> fc_clock p i < timeout) \<and> (\<forall>i. k \<le> i \<and> i < j \<longrightarrow> \<not> fc_dial p i)"
        using ih True s by (metis Suc_leD)
    next
      assume "\<exists>j \<ge> k. fc_dial p j \<and> (\<forall>i. k \<le> i \<and> i \<le> j \<longrightarrow> fc_clock p i < timeout) \<and> (\<forall>i. k \<le> i \<and> i < j \<longrightarrow> \<not> fc_dial p i)"
      then show up using ih True s by (metis Suc_leD)
    qed
  next
    case False
    then show ?thesis using Suc.prems
      by (cases "fc_clock p k < timeout") (auto intro: exI [of _ k])
  qed
qed simp

text \<open>C27: Waiting for the API socket always ends: since the loop sleeps at least 10 ms between two checks of
  the clock, it returns within its deadline's worth of attempts, whatever the dials do; it reports
  success exactly when some dial succeeded with every check up to it still before the deadline.\<close>

theorem waitForSocket_returns:
  assumes "\<forall>k. fc_clock p k + 10 \<le> fc_clock p (Suc k)" and "0 \<le> fc_clock p 0" and "0 \<le> timeout"
  shows "\<exists>r. waitForSocket p path timeout = Some r \<and>
    (r = Inr () \<longleftrightarrow> (\<exists>j. fc_dial p j \<and> (\<forall>i \<le> j. fc_clock p i < timeout) \<and> (\<forall>i < j. \<not> fc_dial p i)))"
proof -
  from poll_enough [OF assms(1) poll_start [OF assms(2,3)]] obtain up where up: "poll_socket (poll_fuel timeout) p timeout 0 = Some up"
    by (auto simp: poll_fuel_def)
  from poll_result [OF up] up show ?thesis
    by (auto simp: waitForSocket_def)
qed

section \<open>Driving the API\<close>

definition acked :: "(nat \<Rightarrow> fcRESTStep \<Rightarrow> (int \<times> bytes) res) \<Rightarrow> nat \<Rightarrow> fcRESTStep list \<Rightarrow> bool" where
  "acked answer k ss \<longleftrightarrow> (\<forall>i < length ss. \<exists>code body. answer (k + i) (ss ! i) = Inr (code, body) \<and> 200 \<le> code \<and> code < 300)"

lemma putFirecracker_ok:
  "putFirecracker answer s = Inr u \<longleftrightarrow> (\<exists>code body. answer s = Inr (code, body) \<and> 200 \<le> code \<and> code < 300)"
  by (cases "answer s") (auto simp: putFirecracker_def split: if_splits)

lemma put_all_D:
  assumes "put_all answer k ss = (ps, r)"
  shows "prefix ps ss \<and> (r = Inr () \<longleftrightarrow> acked answer k ss) \<and> (r = Inr () \<longrightarrow> ps = ss) \<and>
    (\<forall>i. Suc i < length ps \<longrightarrow> putFirecracker (answer (k + i)) (ss ! i) = Inr ())"
  using assms
proof (induction ss arbitrary: k ps r)
  case Nil
  then show ?case by (simp add: acked_def)
next
  case (Cons s ss)
  have ack: "acked answer k (s # ss) \<longleftrightarrow> putFirecracker (answer k) s = Inr () \<and> acked answer (Suc k) ss"
    by (auto simp: acked_def putFirecracker_ok nth_Cons less_Suc_eq_0_disj)
  show ?case
  proof (cases "putFirecracker (answer k) s")
    case (Inl e)
    then show ?thesis using Cons.prems ack by auto
  next
    case (Inr u)
    obtain qs q where q: "put_all answer (Suc k) ss = (qs, q)" by fastforce
    then have "ps = s # qs" "r = q" using Cons.prems Inr by simp_all
    moreover have "putFirecracker (answer (k + i)) ((s # ss) ! i) = Inr ()" if "Suc i < length (s # qs)" for i
      using that Cons.IH [OF q] Inr by (cases i) auto
    ultimately show ?thesis using Cons.IH [OF q] ack Inr by auto
  qed
qed

lemma boot_paths:
  "s \<in> set (firecrackerBootSequence cfg) \<Longrightarrow>
    rs_path s \<in> {''/machine-config'', ''/boot-source'', ''/vsock'', ''/actions''} \<or> prefix ''/drives/'' (rs_path s)"
  by (auto simp: firecrackerBootSequence_def split: if_splits)

lemma driveFirecrackerAPI_D:
  assumes "driveFirecrackerAPI p apiSock cfg timeout = Some (puts, r)"
  shows "prefix puts (firecrackerBootSequence cfg) \<and>
    (r = Inr () \<longrightarrow> puts = firecrackerBootSequence cfg \<and> acked (fc_answer p) 0 puts)"
proof -
  from assms obtain x where "waitForSocket p apiSock timeout = Some x"
    and x: "(case x of Inl e \<Rightarrow> ([], Inl e)
      | Inr _ \<Rightarrow> put_all (fc_answer p) 0 (firecrackerBootSequence cfg)) = (puts, r)"
    by (auto simp: driveFirecrackerAPI_def)
  show ?thesis
  proof (cases x)
    case (Inr u)
    then show ?thesis using x put_all_D [of "fc_answer p" 0 "firecrackerBootSequence cfg" puts r] by auto
  qed (use x in auto)
qed

definition ticking :: "fc_peer \<Rightarrow> bool" where
  "ticking p \<longleftrightarrow> 0 \<le> fc_clock p 0 \<and> (\<forall>k. fc_clock p k + 10 \<le> fc_clock p (Suc k))"

lemma drive_returns:
  assumes "ticking p" and "0 \<le> timeout"
  obtains puts r where "driveFirecrackerAPI p apiSock cfg timeout = Some (puts, r)"
proof -
  from assms have "poll_socket (poll_fuel timeout) p timeout 0 \<noteq> None"
    using poll_enough [of p timeout "nat (timeout div 10) + 1" 0] poll_start [of p timeout]
    by (simp add: ticking_def poll_fuel_def del: poll_socket.simps)
  then show thesis
    using that by (fastforce simp: driveFirecrackerAPI_def waitForSocket_def)
qed

text \<open>How a launch ends: with 127 after a prefix of the boot sequence, or with the guest's code after all of it.\<close>

lemma fcLaunchMain_D:
  assumes "ticking p"
  shows "(\<exists>out puts v cfg. fcLaunchMain g unmarshal p fcBinary h args w =
        (Some \<lparr>l_code = 127, l_out = out, l_puts = puts\<rparr>, v) \<and> prefix puts (firecrackerBootSequence cfg)) \<or>
    (\<exists>bndl more cfg out n w1 v. fcLaunchMain g unmarshal p fcBinary h args w =
        (Some \<lparr>l_code = n, l_out = out, l_puts = firecrackerBootSequence cfg\<rparr>, v) \<and> args = bndl # more \<and>
      readVMConfig unmarshal h (path_join [bndl, ''vm-config.json'']) w = (Inr cfg, w1) \<and>
      acked (fc_answer p) 0 (firecrackerBootSequence cfg) \<and> streamConsole g (fc_console p) = (out, n) \<and> 0 \<le> n)"
proof (cases args)
  case Nil
  then show ?thesis
    by (intro disjI1) (auto simp: fcLaunchMain_def launch_fail_def)
next
  case (Cons bndl more)
  obtain r w1 where rd: "readVMConfig unmarshal h (path_join [bndl, ''vm-config.json'']) w = (r, w1)" by fastforce
  show ?thesis
  proof (cases r)
    case (Inl e)
    then show ?thesis by (intro disjI1) (auto simp: fcLaunchMain_def launch_fail_def Cons rd)
  next
    case (Inr cfg)
    let ?api = "path_join [bndl, ''fc-api.sock'']"
    obtain q w3 where pp: "sys h OpPipe (snd (os_remove h ?api w1)) = (q, w3)" by fastforce
    obtain puts d where dr: "driveFirecrackerAPI p ?api cfg 10000 = Some (puts, d)"
      using drive_returns [OF assms] by (metis zero_le_numeral)
    obtain out n where con: "streamConsole g (fc_console p) = (out, n)" by fastforce
    note D = driveFirecrackerAPI_D [OF dr]
    note def = fcLaunchMain_def launch_fail_def Cons rd Inr pp dr con Let_def
    consider (up) "q = None" "fc_start p = None" "d = Inr ()" "0 \<le> n"
      | (late) "q = None" "fc_start p = None" "d \<noteq> Inr () \<or> n < 0" | (early) "q \<noteq> None \<or> fc_start p \<noteq> None"
      by force
    then show ?thesis
    proof cases
      case up
      then have "\<exists>v. fcLaunchMain g unmarshal p fcBinary h args w = (Some \<lparr>l_code = n, l_out = out, l_puts = puts\<rparr>, v)"
        by (simp add: def)
      then show ?thesis using D up rd Inr Cons con by (intro disjI2) auto
    next
      case late
      then have "\<exists>v. fcLaunchMain g unmarshal p fcBinary h args w = (Some \<lparr>l_code = 127, l_out = out, l_puts = puts\<rparr>, v)"
        by (cases d) (auto simp: def)
      then show ?thesis using D by (intro disjI1) blast
    next
      case early
      then have "\<exists>v. fcLaunchMain g unmarshal p fcBinary h args w = (Some \<lparr>l_code = 127, l_out = [], l_puts = []\<rparr>, v)"
        by (cases q) (auto simp: def split: fault.splits option.splits)
      then show ?thesis using Nil_prefix by (intro disjI1) blast
    qed
  qed
qed



section \<open>Witnesses\<close>

definition sample_peer :: fc_peer where
  "sample_peer = \<lparr>fc_start = None, fc_clock = (\<lambda>k. 10 * int k), fc_dial = (\<lambda>k. k = 3),
     fc_answer = (\<lambda>k s. Inr (204, [])), fc_console = ''hi'' @ [LF] @ fcExitSentinel @ '' '' @ itoa 3 @ [LF] @ ''bye'',
     fc_wait = None, fc_pid = 99\<rparr>"

lemma sample_answer: "fc_answer sample_peer k s = Inr (204, [])" "fc_start sample_peer = None"
  by (simp_all add: sample_peer_def)

lemma sample_console: "streamConsole sample_lib (fc_console sample_peer) = (''hi'' @ [LF], 3)"
proof -
  have "scan_lines (unlines [''hi'', fcExitSentinel @ '' '' @ itoa 3] @ ''bye'') =
      map drop_cr [''hi'', fcExitSentinel @ '' '' @ itoa 3] @ scan_lines ''bye''"
    by (rule scan_lines_unlines) (use sentinel_line [of 3] in \<open>auto simp: in_int64_def LF_def max_token_def\<close>)
  then show ?thesis
    using sentinel_line [of 3]
    by (simp add: streamConsole_def sample_peer_def in_int64_def drop_cr_def fcExitSentinel_def isConsoleNoise_def
        trim_left_char_def sublist_code Let_def)
qed

lemma streamConsole_transparent_witness:
  "streamConsole sample_lib (unlines [''hi''] @ fcExitSentinel @ '' '' @ itoa 3 @ [LF] @ ''bye'') =
     (unlines (filter (\<lambda>l. \<not> isConsoleNoise sample_lib l) [''hi'']), 3)"
proof -
  have ls: "\<forall>l \<in> set [''hi'']. LF \<notin> set l \<and> length l < max_token \<and> \<not> prefix fcExitSentinel (drop_cr l)"
    by (simp add: LF_def max_token_def fcExitSentinel_def drop_cr_def)
  have n: "(0::int) \<le> 3" "in_int64 3" by (simp_all add: in_int64_def)
  have big: "LF \<notin> set (replicate max_token CHR ''x'')" "max_token \<le> length (replicate max_token CHR ''x'')"
    by (simp_all add: LF_def)
  have cr: "map drop_cr [''hi''] = [''hi'']" by (simp add: drop_cr_def)
  show ?thesis
    using streamConsole_transparent [OF ls n big, of sample_lib "''bye''"] unfolding cr by (elim conjE)
qed

lemma waitForSocket_returns_witness:
  "waitForSocket sample_peer ''/b/fc-api.sock'' 10000 = Some (Inr ())"
proof -
  have p: "\<forall>k. fc_clock sample_peer k + 10 \<le> fc_clock sample_peer (Suc k)" "0 \<le> fc_clock sample_peer 0" "(0::int) \<le> 10000"
    by (simp_all add: sample_peer_def)
  have "\<exists>j. fc_dial sample_peer j \<and> (\<forall>i \<le> j. fc_clock sample_peer i < 10000) \<and> (\<forall>i < j. \<not> fc_dial sample_peer i)"
    by (rule exI [of _ 3]) (auto simp: sample_peer_def)
  with waitForSocket_returns [OF p, of "''/b/fc-api.sock''"] show ?thesis by auto
qed



end
