(* ===== verification/Profile.thy ===== *)
theory Profile
  imports World
begin

text \<open>
  How a request is read before anything happens (run.go): the capability scans
  \<open>netAllowlist\<close>, \<open>netVerbAllowlist\<close> and \<open>fileReadPaths\<close>, the validations
  \<open>validateFileReads\<close> and \<open>validateWorkdir\<close>, and \<open>stripPort\<close> of proxy.go. A profile is a
  decoded JSON object. The lemmas characterise membership in the scanned lists and maps, and
  show that what passes validation exists on the host and that validation changes nothing.
\<close>

definition stripPort :: "string \<Rightarrow> string" where
  "stripPort hostport = (case split_host_port hostport of Some (h, p) \<Rightarrow> h | None \<Rightarrow> hostport)"

definition capabilities :: "json amap \<Rightarrow> json amap list" where
  \<comment> \<open>\<open>caps, _ := profile["capabilities"].([]any)\<close>, each element read as a map\<close>
  "capabilities profile = map as_obj (as_arr (fld profile ''capabilities''))"

definition has_type :: "string \<Rightarrow> json amap \<Rightarrow> bool" where
  "has_type t cm \<longleftrightarrow> fld cm ''type'' = JStr t"

definition netAllowlist :: "json amap \<Rightarrow> string list" where
  "netAllowlist profile =
     concat (map (\<lambda>cm. if \<not> has_type ''NetConnect'' cm then []
                        else map stripPort (toStringList (fld cm ''allowlist'')))
       (capabilities profile))"

definition add_verbs :: "golib \<Rightarrow> string list \<Rightarrow> string \<Rightarrow> bool amap amap \<Rightarrow> bool amap amap" where
  "add_verbs g methods a out =
     (let host = stripPort a;
          verbs = (case map_of out host of None \<Rightarrow> [] | Some s \<Rightarrow> s)
      in aput host (fold (\<lambda>m s. aput (to_upper g m) True s) methods verbs) out)"

definition scan_verbs :: "golib \<Rightarrow> json amap \<Rightarrow> bool amap amap \<Rightarrow> bool amap amap" where
  "scan_verbs g cm out =
     (if \<not> has_type ''NetConnect'' cm then out
      else let methods = toStringList (fld cm ''methods'') in
        if methods = [] then out
        else fold (add_verbs g methods) (toStringList (fld cm ''allowlist'')) out)"

definition netVerbAllowlist :: "golib \<Rightarrow> json amap \<Rightarrow> bool amap amap" where
  "netVerbAllowlist g profile = fold (scan_verbs g) (capabilities profile) []"

definition fileReadPaths :: "json amap \<Rightarrow> string list" where
  "fileReadPaths profile =
     concat (map (\<lambda>cm. if \<not> has_type ''FileRead'' cm then []
                        else toStringList (fld cm ''paths''))
       (capabilities profile))"

fun validateFileReads :: "golib \<Rightarrow> host \<Rightarrow> string list \<Rightarrow> world \<Rightarrow> unit res \<times> world" where
  "validateFileReads g h [] w = (Inr (), w)"
| "validateFileReads g h (p # ps) w =
     (if \<not> is_abs p then (Inl (''invalid FileRead path: not absolute: '' @ g_quote g p), w)
      else case os_stat h p w of
        (Inl e, w1) \<Rightarrow> (Inl (''invalid FileRead path: '' @ e), w1)
      | (Inr n, w1) \<Rightarrow> validateFileReads g h ps w1)"

fun is_dir :: "node \<Rightarrow> bool" where
  "is_dir (DirN m) = True"
| "is_dir _ = False"

definition validateWorkdir :: "host \<Rightarrow> string \<Rightarrow> world \<Rightarrow> string res \<times> world" where
  "validateWorkdir h path w =
     (if trim_space path = [] then (Inr [], w)
      else case path_abs (h_wd h) path of
        Inl e \<Rightarrow> (Inl (''invalid run.workdir: '' @ e), w)
      | Inr a \<Rightarrow> (case os_stat h a w of
          (Inl e, w1) \<Rightarrow> (Inl (''invalid run.workdir: '' @ e), w1)
        | (Inr n, w1) \<Rightarrow>
            if \<not> is_dir n then (Inl (''invalid run.workdir: not a directory: '' @ a), w1)
            else (Inr a, w1)))"

section \<open>Hosts and verbs\<close>

lemma stripPort_no_colon: "CHR '':'' \<notin> set h \<Longrightarrow> stripPort h = h"
  by (simp add: stripPort_def split_host_port_no_colon)

lemma stripPort_plain:
  assumes "CHR '':'' \<notin> set h" "CHR '':'' \<notin> set p" "{CHR ''['', CHR '']''} \<inter> (set h \<union> set p) = {}"
  shows "stripPort (h @ CHR '':'' # p) = h"
  using split_host_port_plain [OF assms] by (simp add: stripPort_def)

lemma set_netAllowlist:
  "host \<in> set (netAllowlist profile) \<longleftrightarrow>
    (\<exists>cm \<in> set (capabilities profile). has_type ''NetConnect'' cm \<and>
      (\<exists>a \<in> set (toStringList (fld cm ''allowlist'')). host = stripPort a))"
  by (auto simp: netAllowlist_def image_iff)

text \<open>Which verbs a verb map lists for a host, and what one capability contributes.\<close>

definition verbs_of :: "bool amap amap \<Rightarrow> string \<Rightarrow> string set" where
  "verbs_of out host = (case map_of out host of None \<Rightarrow> {} | Some s \<Rightarrow> {v. map_of s v = Some True})"

definition cap_verbs :: "golib \<Rightarrow> json amap \<Rightarrow> string \<Rightarrow> string set" where
  "cap_verbs g cm host =
     (if has_type ''NetConnect'' cm \<and> host \<in> stripPort ` set (toStringList (fld cm ''allowlist''))
      then to_upper g ` set (toStringList (fld cm ''methods'')) else {})"

lemma fold_aput_True:
  "map_of (fold (\<lambda>m s. aput (f m) True s) ms s) v = (if v \<in> f ` set ms then Some True else map_of s v)"
  by (induction ms arbitrary: s) auto

lemma verbs_of_add_verbs:
  "verbs_of (add_verbs g ms a out) host =
    verbs_of out host \<union> (if host = stripPort a then to_upper g ` set ms else {})"
  by (auto simp: verbs_of_def add_verbs_def Let_def fold_aput_True split: option.splits)

lemma verbs_of_fold_add_verbs:
  "verbs_of (fold (add_verbs g ms) as out) host =
    verbs_of out host \<union> (if host \<in> stripPort ` set as then to_upper g ` set ms else {})"
  by (induction as arbitrary: out) (auto simp: verbs_of_add_verbs)

lemma verbs_of_scan: "verbs_of (scan_verbs g cm out) host = verbs_of out host \<union> cap_verbs g cm host"
  by (auto simp: scan_verbs_def cap_verbs_def Let_def verbs_of_fold_add_verbs)

lemma verbs_of_netVerbAllowlist:
  "verbs_of (netVerbAllowlist g profile) host =
    (\<Union>cm \<in> set (capabilities profile). cap_verbs g cm host)"
proof -
  have "verbs_of (fold (scan_verbs g) cms out) host =
      verbs_of out host \<union> (\<Union>cm \<in> set cms. cap_verbs g cm host)" for cms out
    by (induction cms arbitrary: out) (auto simp: verbs_of_scan)
  then show ?thesis by (simp add: netVerbAllowlist_def verbs_of_def)
qed

text \<open>Every entry of the verb map holds only \<open>true\<close> and at least one verb.\<close>

definition verbs_wf :: "bool amap amap \<Rightarrow> bool" where
  "verbs_wf out \<longleftrightarrow> (\<forall>host s. map_of out host = Some s \<longrightarrow>
     s \<noteq> [] \<and> (\<forall>v b. map_of s v = Some b \<longrightarrow> b))"

lemma fold_aput_not_Nil: "ms \<noteq> [] \<Longrightarrow> fold (\<lambda>m s. aput (f m) True s) ms s \<noteq> []"
  by (induction ms arbitrary: s) (auto, metis aput_not_Nil fold_simps(1))

lemma verbs_wf_add_verbs:
  "ms \<noteq> [] \<Longrightarrow> verbs_wf out \<Longrightarrow> verbs_wf (add_verbs g ms a out)"
  by (auto simp: verbs_wf_def add_verbs_def Let_def fold_aput_True fold_aput_not_Nil
      split: option.splits if_splits)

lemma verbs_wf_netVerbAllowlist: "verbs_wf (netVerbAllowlist g profile)"
proof -
  have add: "ms \<noteq> [] \<Longrightarrow> verbs_wf out \<Longrightarrow> verbs_wf (fold (add_verbs g ms) as out)" for ms as out
    by (induction as arbitrary: out) (simp_all add: verbs_wf_add_verbs)
  have "verbs_wf out \<Longrightarrow> verbs_wf (fold (scan_verbs g) cms out)" for cms out
    by (induction cms arbitrary: out) (auto simp: scan_verbs_def Let_def add)
  moreover have "verbs_wf []" by (simp add: verbs_wf_def)
  ultimately show ?thesis
    unfolding netVerbAllowlist_def by blast
qed

section \<open>Validation\<close>

lemma validateFileReads_frame:
  "fs (snd (validateFileReads g h ps w)) = fs w \<and> effects (snd (validateFileReads g h ps w)) = effects w"
proof (induction ps arbitrary: w)
  case (Cons p ps)
  show ?case
    using Cons.IH by (auto split: prod.splits sum.splits dest: os_stat_D)
qed simp

lemma validateFileReads_Inr:
  "fst (validateFileReads g h ps w) = Inr () \<Longrightarrow> \<forall>p \<in> set ps. is_abs p \<and> os_exists (fs w) p"
proof (induction ps arbitrary: w)
  case (Cons p ps)
  then show ?case
    by (fastforce simp: os_exists_def split: if_splits prod.splits sum.splits dest: os_stat_Inr)
qed simp

lemma validateWorkdir_frame:
  "fs (snd (validateWorkdir h p w)) = fs w \<and> effects (snd (validateWorkdir h p w)) = effects w"
  by (auto simp: validateWorkdir_def split: prod.splits sum.splits dest: os_stat_D)

lemma validateWorkdir_Inr:
  assumes "fst (validateWorkdir h p w) = Inr d"
  shows "d = [] \<and> trim_space p = [] \<or>
    (\<exists>m. map_of (fs w) d = Some (DirN m)) \<and> path_abs (h_wd h) p = Inr d"
  using assms os_stat_Inr
  by (fastforce simp: validateWorkdir_def split: if_splits prod.splits sum.splits elim!: is_dir.elims)

text \<open>C31: The per-host verb constraint is exactly the union of what the NetConnect capabilities
  naming that host list, in canonical upper case; a host gets an entry only from a capability with a
  non-empty method list, every entry lists at least one verb (so an empty list never means deny
  all), and every constrained host is on the bare-host allowlist, so verbs only narrow egress.\<close>

theorem netVerbAllowlist_narrows:
  "verbs_of (netVerbAllowlist g profile) host =
     (\<Union>cm \<in> {cm \<in> set (capabilities profile). has_type ''NetConnect'' cm \<and>
                host \<in> stripPort ` set (toStringList (fld cm ''allowlist''))}.
        to_upper g ` set (toStringList (fld cm ''methods''))) \<and>
   (map_of (netVerbAllowlist g profile) host \<noteq> None \<longleftrightarrow> verbs_of (netVerbAllowlist g profile) host \<noteq> {}) \<and>
   (verbs_of (netVerbAllowlist g profile) host \<noteq> {} \<longrightarrow> host \<in> set (netAllowlist profile))"
proof -
  have entry: "map_of (netVerbAllowlist g profile) host \<noteq> None \<longleftrightarrow> verbs_of (netVerbAllowlist g profile) host \<noteq> {}"
  proof (cases "map_of (netVerbAllowlist g profile) host")
    case (Some s)
    with verbs_wf_netVerbAllowlist [of g profile] have s: "s \<noteq> []" "\<forall>v b. map_of s v = Some b \<longrightarrow> b"
      unfolding verbs_wf_def by blast+
    obtain v b where "map_of s v = Some b"
      using s(1) by (metis list.exhaust map_of_Cons_code(2) prod.exhaust)
    then have "map_of s v = Some True" using s(2) by (cases b) auto
    with Some show ?thesis by (auto simp: verbs_of_def)
  qed (simp add: verbs_of_def)
  show ?thesis
    unfolding entry by (auto simp: verbs_of_netVerbAllowlist cap_verbs_def set_netAllowlist split: if_splits)
qed

lemma netVerbAllowlist_narrows_witness:
  "''api.x'' \<in> set (netAllowlist [(''capabilities'', JArr [JObj [(''type'', JStr ''NetConnect''),
     (''allowlist'', JArr [JStr ''api.x'']), (''methods'', JArr [JStr ''get''])]])])"
proof -
  let ?p = "[(''capabilities'', JArr [JObj [(''type'', JStr ''NetConnect''),
     (''allowlist'', JArr [JStr ''api.x'']), (''methods'', JArr [JStr ''get''])]])]"
  have "verbs_of (netVerbAllowlist sample_lib ?p) ''api.x'' \<noteq> {}"
    by (simp add: verbs_of_netVerbAllowlist cap_verbs_def capabilities_def fld_def has_type_def
        stripPort_no_colon List.map_filter_simps)
  then show ?thesis
    using netVerbAllowlist_narrows [of sample_lib ?p "''api.x''"] by blast
qed


definition sample_world :: world where
  "sample_world = \<lparr>fs = [(''/srv'', DirN 0x1ED), (''/opt/tool'', FileN 0x1ED ''#!'')], tick = 0, effects = []\<rparr>"


end
