(* ===== verification/Proxy.thy ===== *)
theory Proxy
  imports Creds Profile
begin

text \<open>
  proxy.go: the egress proxy. Its state is the bare-host allowlist, the optional per-host
  verb sets, the origin map, the credential map and whether it serves. \<open>handle\<close> returns the
  reply written to the sandbox together with the list of requests it sent upstream, so "the
  origin sees nothing" is a statement about that list. What \<open>net/http\<close> decides (whether a
  request can be built, what the origin answers) is the record \<open>upstream\<close>.

  The policy of the profile is stated on its own (\<open>permits\<close>) and the proxy built from the
  profile is shown to implement it. The credential map provides the interface of theory Creds.
\<close>

record Credential =
  Value :: string
  Header :: string
  Scheme :: string

record EgressProxy =
  allowlist :: "bool amap"
  verbAllowlist :: "bool amap amap"
  originMap :: "(string \<times> string) amap"
  creds :: "Credential amap"
  serving :: "string option"     \<comment> \<open>the socket path while the HTTP server runs\<close>

definition NewEgressProxy :: "string list \<Rightarrow> bool amap amap \<Rightarrow> (string \<times> string) amap \<Rightarrow> EgressProxy" where
  "NewEgressProxy al va om =
     \<lparr>allowlist = fold (\<lambda>h m. aput h True m) al [], verbAllowlist = va, originMap = om,
      creds = [], serving = None\<rparr>"

definition SetCredential :: "string \<Rightarrow> Credential \<Rightarrow> EgressProxy \<Rightarrow> EgressProxy" where
  "SetCredential host c p = p\<lparr>creds := aput host c (creds p)\<rparr>"

definition Wipe :: "EgressProxy \<Rightarrow> EgressProxy" where
  "Wipe p = p\<lparr>creds := []\<rparr>"

definition Start :: "host \<Rightarrow> string \<Rightarrow> EgressProxy \<Rightarrow> world \<Rightarrow> unit res \<times> EgressProxy \<times> world" where
  "Start h sock p w = (case listen_unix h sock 0x180 w of
     (Inl e, w1) \<Rightarrow> (Inl e, p, w1)
   | (Inr _, w1) \<Rightarrow> (Inr (), p\<lparr>serving := Some sock\<rparr>, w1))"

definition Stop :: "EgressProxy \<Rightarrow> world \<Rightarrow> EgressProxy \<times> world" where
  \<comment> \<open>closing the server closes the listener, which unlinks the socket\<close>
  "Stop p w = (case serving p of
     None \<Rightarrow> (p, w)
   | Some sock \<Rightarrow>
       (p\<lparr>serving := None\<rparr>, unlisten sock w))"

section \<open>Handling one request\<close>

record http_req =
  r_host :: string
  r_method :: string
  r_uri :: string
  r_body :: bytes

record out_req =
  o_method :: string
  o_url :: string
  o_host :: string
  o_headers :: "(string \<times> string) list"
  o_body :: bytes

datatype reply =
    HttpError nat string
  | Relay nat bytes

record upstream =
  u_new :: "string \<Rightarrow> string \<Rightarrow> gerr option"     \<comment> \<open>http.NewRequest method url\<close>
  u_do :: "out_req \<Rightarrow> (nat \<times> bytes) res"          \<comment> \<open>client.Do\<close>

definition handle :: "golib \<Rightarrow> upstream \<Rightarrow> EgressProxy \<Rightarrow> http_req \<Rightarrow> reply \<times> out_req list" where
  "handle g u p r =
     (let host = stripPort (r_host r) in
      if map_of (allowlist p) host \<noteq> Some True then (HttpError 403 ''blocked-by-allowlist'', [])
      else
        let allowed = (case map_of (verbAllowlist p) host of None \<Rightarrow> [] | Some s \<Rightarrow> s) in
        if length allowed > 0 \<and> map_of allowed (to_upper g (r_method r)) \<noteq> Some True
        then (HttpError 403 ''blocked-by-method'', [])
        else case map_of (originMap p) host of
          None \<Rightarrow> (HttpError 502 ''no-route'', [])
        | Some (ip, port) \<Rightarrow>
            let url = ''http://'' @ ip @ '':'' @ port @ r_uri r in
            (case u_new u (r_method r) url of
               Some e \<Rightarrow> (HttpError 502 e, [])
             | None \<Rightarrow>
                 let out = \<lparr>o_method = r_method r, o_url = url, o_host = host,
                   o_headers = (case map_of (creds p) host of
                                  None \<Rightarrow> []
                                | Some c \<Rightarrow> [(Header c, Scheme c @ '' '' @ Value c)]),
                   o_body = r_body r\<rparr>
                 in (case u_do u out of
                       Inl e \<Rightarrow> (HttpError 502 e, [out])
                     | Inr (status, body) \<Rightarrow> (Relay status body, [out]))))"

section \<open>The credential map is a wipeable store\<close>

definition cred_look :: "EgressProxy \<Rightarrow> string \<Rightarrow> Credential option" where
  "cred_look p host = map_of (creds p) host"

definition credentialHosts :: "EgressProxy \<Rightarrow> string list" where
  "credentialHosts p = sorted_keys (creds p)"

definition proxy_wf :: "EgressProxy \<Rightarrow> bool" where
  "proxy_wf p \<longleftrightarrow> wf_map (creds p)"

interpretation egress: listed_store proxy_wf cred_look SetCredential Wipe credentialHosts
proof unfold_locales
  show "cred_look (SetCredential k v s) = (cred_look s)(k \<mapsto> v)" for k v s
    by (rule ext) (simp add: cred_look_def SetCredential_def)
  show "set (credentialHosts s) = dom (cred_look s)" for s
    using dom_map_of_conv_image_fst [of "creds s"] by (simp add: credentialHosts_def cred_look_def [abs_def])
qed (auto simp: cred_look_def Wipe_def proxy_wf_def SetCredential_def credentialHosts_def)

lemma proxy_wf_New [simp]: "proxy_wf (NewEgressProxy al va om)"
  by (simp add: proxy_wf_def NewEgressProxy_def)

lemma creds_New [simp]: "creds (NewEgressProxy al va om) = []"
  by (simp add: NewEgressProxy_def)

lemma creds_Wipe [simp]: "creds (Wipe p) = []"
  by (simp add: Wipe_def)

lemma serving_Wipe [simp]: "serving (Wipe p) = serving p"
  by (simp add: Wipe_def)

lemma serving_SetCredential [simp]: "serving (SetCredential k c p) = serving p"
  by (simp add: SetCredential_def)

lemma Stop_serving [simp]: "serving (fst (Stop p w)) = None"
  by (simp add: Stop_def split: option.splits)

lemma Stop_creds [simp]: "creds (fst (Stop p w)) = creds p"
  by (simp add: Stop_def split: option.splits)

text \<open>SetCredential, Wipe, Start and Stop leave the policy of the proxy alone.\<close>

definition same_policy :: "EgressProxy \<Rightarrow> EgressProxy \<Rightarrow> bool" where
  "same_policy p q \<longleftrightarrow> allowlist p = allowlist q \<and> verbAllowlist p = verbAllowlist q \<and> originMap p = originMap q"

lemma same_policy_ops:
  "same_policy (SetCredential k c p) p" "same_policy (Wipe p) p"
  "same_policy (fst (snd (Start h s p w))) p" "same_policy (fst (Stop p w)) p"
  by (auto simp: same_policy_def SetCredential_def Wipe_def Start_def Stop_def Let_def
      split: option.splits sum.splits prod.splits)

section \<open>The decision\<close>

definition verb_ok :: "golib \<Rightarrow> EgressProxy \<Rightarrow> string \<Rightarrow> string \<Rightarrow> bool" where
  "verb_ok g p host method \<longleftrightarrow>
     (case map_of (verbAllowlist p) host of None \<Rightarrow> True
      | Some s \<Rightarrow> s = [] \<or> map_of s (to_upper g method) = Some True)"

definition host_ok :: "EgressProxy \<Rightarrow> string \<Rightarrow> bool" where
  "host_ok p host \<longleftrightarrow> map_of (allowlist p) host = Some True"

lemma handle_blocked_host:
  "\<not> host_ok p (stripPort (r_host r)) \<Longrightarrow> handle g u p r = (HttpError 403 ''blocked-by-allowlist'', [])"
  by (simp add: handle_def host_ok_def Let_def)

lemma handle_blocked_verb:
  "host_ok p (stripPort (r_host r)) \<Longrightarrow> \<not> verb_ok g p (stripPort (r_host r)) (r_method r) \<Longrightarrow>
   handle g u p r = (HttpError 403 ''blocked-by-method'', [])"
  by (auto simp: handle_def host_ok_def verb_ok_def Let_def split: option.splits)

lemma handle_no_route:
  "host_ok p (stripPort (r_host r)) \<Longrightarrow> verb_ok g p (stripPort (r_host r)) (r_method r) \<Longrightarrow>
   map_of (originMap p) (stripPort (r_host r)) = None \<Longrightarrow> handle g u p r = (HttpError 502 ''no-route'', [])"
  by (auto simp: handle_def host_ok_def verb_ok_def Let_def split: option.splits)

lemma handle_sent:
  assumes "out \<in> set (snd (handle g u p r))"
  shows "host_ok p (stripPort (r_host r)) \<and> verb_ok g p (stripPort (r_host r)) (r_method r) \<and>
    o_host out = stripPort (r_host r) \<and> o_method out = r_method r \<and>
    o_headers out = (case cred_look p (stripPort (r_host r)) of None \<Rightarrow> []
                     | Some c \<Rightarrow> [(Header c, Scheme c @ '' '' @ Value c)])"
  using assms
  by (auto simp: handle_def host_ok_def verb_ok_def cred_look_def Let_def
      split: if_splits option.splits prod.splits sum.splits)

lemma fold_aput_allow:
  "map_of (fold (\<lambda>h m. aput h True m) al m) host = (if host \<in> set al then Some True else map_of m host)"
  by (induction al arbitrary: m) auto

lemma host_ok_New: "host_ok (NewEgressProxy al va om) host \<longleftrightarrow> host \<in> set al"
  by (simp add: host_ok_def NewEgressProxy_def fold_aput_allow)

section \<open>The policy of a profile\<close>

text \<open>
  The policy, read off the profile directly: some NetConnect capability lists the host, and
  either none of those that list it constrains the methods or one of them names the verb.
\<close>

definition net_caps :: "json amap \<Rightarrow> string \<Rightarrow> json amap set" where
  "net_caps profile host = {cm \<in> set (capabilities profile). has_type ''NetConnect'' cm \<and>
     host \<in> stripPort ` set (toStringList (fld cm ''allowlist''))}"

definition permits :: "golib \<Rightarrow> json amap \<Rightarrow> string \<Rightarrow> string \<Rightarrow> bool" where
  "permits g profile host method \<longleftrightarrow>
     net_caps profile host \<noteq> {} \<and>
     ((\<forall>cm \<in> net_caps profile host. toStringList (fld cm ''methods'') = []) \<or>
      (\<exists>cm \<in> net_caps profile host. to_upper g method \<in> to_upper g ` set (toStringList (fld cm ''methods''))))"

definition profile_proxy :: "golib \<Rightarrow> json amap \<Rightarrow> (string \<times> string) amap \<Rightarrow> EgressProxy" where
  \<comment> \<open>the proxy \<open>Run\<close> builds\<close>
  "profile_proxy g profile om = NewEgressProxy (netAllowlist profile) (netVerbAllowlist g profile) om"

lemma host_ok_profile: "host_ok (profile_proxy g profile om) host \<longleftrightarrow> net_caps profile host \<noteq> {}"
  by (auto simp: profile_proxy_def host_ok_New set_netAllowlist net_caps_def)

lemma verbs_of_profile:
  "verbs_of (netVerbAllowlist g profile) host =
    (\<Union>cm \<in> net_caps profile host. to_upper g ` set (toStringList (fld cm ''methods'')))"
  by (auto simp: verbs_of_netVerbAllowlist cap_verbs_def net_caps_def split: if_splits)

lemma verb_ok_profile:
  "verb_ok g (profile_proxy g profile om) host method \<longleftrightarrow>
    (\<forall>cm \<in> net_caps profile host. toStringList (fld cm ''methods'') = []) \<or>
    (\<exists>cm \<in> net_caps profile host. to_upper g method \<in> to_upper g ` set (toStringList (fld cm ''methods'')))"
proof (cases "map_of (netVerbAllowlist g profile) host")
  case None
  then have "verbs_of (netVerbAllowlist g profile) host = {}" by (simp add: verbs_of_def)
  then show ?thesis
    using None by (auto simp: verb_ok_def profile_proxy_def NewEgressProxy_def verbs_of_profile)
next
  case (Some s)
  have wf: "s \<noteq> []" "\<And>v b. map_of s v = Some b \<Longrightarrow> b"
    using verbs_wf_netVerbAllowlist [of g profile] Some unfolding verbs_wf_def by blast+
  obtain v b where vb: "map_of s v = Some b"
    using wf(1) by (metis list.exhaust map_of_Cons_code(2) prod.exhaust)
  then have "v \<in> verbs_of (netVerbAllowlist g profile) host"
    using Some wf(2) [OF vb] by (simp add: verbs_of_def)
  moreover have "map_of s x = Some True \<longleftrightarrow> x \<in> verbs_of (netVerbAllowlist g profile) host" for x
    using Some by (simp add: verbs_of_def)
  ultimately show ?thesis
    using Some wf(1) by (auto simp: verb_ok_def profile_proxy_def NewEgressProxy_def verbs_of_profile)
qed

lemma permits_iff:
  "permits g profile host method \<longleftrightarrow>
    host_ok (profile_proxy g profile om) host \<and> verb_ok g (profile_proxy g profile om) host method"
  by (simp add: permits_def host_ok_profile verb_ok_profile)

lemma permits_same_policy:
  "same_policy p (profile_proxy g profile om) \<Longrightarrow>
    permits g profile host method \<longleftrightarrow> host_ok p host \<and> verb_ok g p host method"
  by (simp add: permits_iff [of _ _ _ _ om] host_ok_def verb_ok_def same_policy_def)



section \<open>Witnesses\<close>

definition sample_profile :: "json amap" where
  "sample_profile = [(''capabilities'', JArr [JObj [(''type'', JStr ''NetConnect''),
     (''allowlist'', JArr [JStr ''api.x:443'']), (''methods'', JArr [JStr ''get''])]])]"

definition sample_upstream :: upstream where
  "sample_upstream = \<lparr>u_new = (\<lambda>m url. None), u_do = (\<lambda>out. Inr (200, ''ok''))\<rparr>"

lemma stripPort_sample: "stripPort ''api.x:443'' = ''api.x''"
  using stripPort_plain [of "''api.x''" "''443''"] by simp



end
