(* ===== verification/Snapshot.thy ===== *)
theory Snapshot
  imports Proxy
begin

text \<open>
  snapshot.go: the per-run baseline, i.e. a temporary work directory seeded with
  \<open>payload.sh\<close>, the path of the proxy socket inside it and a fresh proxy. The Go struct
  holds a pointer to the proxy; here the proxy's state is passed beside the baseline and
  returned updated. The lemmas show that \<open>seed\<close> is all a fresh surface holds and that
  \<open>restore\<close> brings any surface the payload left back to it.
\<close>

record sandboxBaseline =
  work :: string
  payload :: string
  proxySock :: string

definition scriptPath :: "sandboxBaseline \<Rightarrow> string" where
  "scriptPath b = path_join [work b, ''payload.sh'']"

definition seed :: "host \<Rightarrow> sandboxBaseline \<Rightarrow> world \<Rightarrow> unit res \<times> world" where
  "seed h b w = os_write_file h (path_join [work b, ''payload.sh'']) (payload b) 0x180 w"

definition snapshotBaseline :: "host \<Rightarrow> string \<Rightarrow> world \<Rightarrow> sandboxBaseline res \<times> world" where
  "snapshotBaseline h pl w = (case os_mkdir_temp h ''exec-sandbox-'' w of
     (Inl e, w1) \<Rightarrow> (Inl e, w1)
   | (Inr wd, w1) \<Rightarrow>
       let b = \<lparr>work = wd, payload = pl, proxySock = path_join [wd, ''proxy.sock'']\<rparr> in
       (case seed h b w1 of
          (Inl e, w2) \<Rightarrow> (Inl e, snd (os_remove_all h wd w2))
        | (Inr _, w2) \<Rightarrow> (Inr b, w2)))"

fun remove_entries :: "host \<Rightarrow> string \<Rightarrow> string list \<Rightarrow> world \<Rightarrow> unit res \<times> world" where
  "remove_entries h d [] w = (Inr (), w)"
| "remove_entries h d (e # es) w = (case os_remove_all h (path_join [d, e]) w of
     (Inl err, w1) \<Rightarrow> (Inl err, w1)
   | (Inr _, w1) \<Rightarrow> remove_entries h d es w1)"

definition restore :: "host \<Rightarrow> sandboxBaseline \<Rightarrow> EgressProxy \<Rightarrow> world \<Rightarrow> unit res \<times> EgressProxy \<times> world" where
  "restore h b p w = (case os_read_dir h (work b) w of
     (Inl e, w1) \<Rightarrow> (Inl e, p, w1)
   | (Inr entries, w1) \<Rightarrow> (case remove_entries h (work b) entries w1 of
       (Inl e, w2) \<Rightarrow> (Inl e, p, w2)
     | (Inr _, w2) \<Rightarrow> (case seed h b w2 of
         (Inl e, w3) \<Rightarrow> (Inl e, p, w3)
       | (Inr _, w3) \<Rightarrow> (Inr (), Wipe p, w3))))"

definition teardown :: "host \<Rightarrow> sandboxBaseline \<Rightarrow> EgressProxy \<Rightarrow> world \<Rightarrow> EgressProxy \<times> world" where
  "teardown h b p w =
     (Wipe p, if work b \<noteq> [] then snd (os_remove_all h (work b) w) else w)"

definition writableSurface :: "host \<Rightarrow> sandboxBaseline \<Rightarrow> world \<Rightarrow> string list \<times> world" where
  "writableSurface h b w = (case os_read_dir h (work b) w of
     (Inl e, w1) \<Rightarrow> ([], w1)
   | (Inr entries, w1) \<Rightarrow> (sort entries, w1))"

section \<open>Removing the entries of a directory\<close>

text \<open>
  Every path inside the directory lies under one of its entries, the entries' names being
  ordinary path components: what any real directory tree satisfies.
\<close>

definition tree_ok :: "string \<Rightarrow> node amap \<Rightarrow> bool" where
  "tree_ok d m \<longleftrightarrow>
     (\<forall>q \<in> set (keys m). inside d q \<and> q \<noteq> d \<longrightarrow>
        (\<exists>c \<in> set (child_names d m). inside (d @ CHR ''/'' # c) q)) \<and>
     (\<forall>c \<in> set (child_names d m). plain_comp c)"

lemma remove_entries_Inr:
  assumes "remove_entries h d es w = (Inr u, w')" and "clean_abs d" and "list_all plain_comp es"
  shows "effects w' = effects w \<and> (\<forall>q. map_of (fs w') q =
    (if \<exists>c \<in> set es. inside (d @ CHR ''/'' # c) q then None else map_of (fs w) q))"
  using assms
proof (induction es arbitrary: w)
  case (Cons e es)
  then obtain w1 u1 where r: "os_remove_all h (d @ CHR ''/'' # e) w = (Inr u1, w1)"
      "remove_entries h d es w1 = (Inr u, w')"
    by (auto simp: path_join_clean_abs split: prod.splits sum.splits)
  from os_remove_all_Inr [OF r(1)] Cons.IH [OF r(2) Cons.prems(2)] Cons.prems(3)
  show ?case by auto
qed simp

lemma seed_Inr:
  assumes "seed h b w = (Inr u, w')" and "clean_abs (work b)"
  shows "effects w' = effects w \<and> (\<forall>q. map_of (fs w') q =
    (if q = work b @ CHR ''/'' # ''payload.sh''
     then Some (FileN (case map_of (fs w) q of Some (FileN m _) \<Rightarrow> m | _ \<Rightarrow> 0x180) (payload b))
     else map_of (fs w) q))"
proof -
  have "path_join [work b, ''payload.sh''] = work b @ CHR ''/'' # ''payload.sh''"
    using assms(2) by (intro path_join_clean_abs) simp_all
  with assms(1) show ?thesis
    by (auto simp: seed_def os_write_file_def sys_def map_of_put_node split: option.splits fault.splits)
qed

section \<open>The pristine surface\<close>

text \<open>
  What a fresh baseline looks like from outside: inside the work directory exactly
  \<open>payload.sh\<close> with the payload's contents and mode 0600, and no credential on the proxy.
\<close>

definition pristine :: "sandboxBaseline \<Rightarrow> EgressProxy \<Rightarrow> world \<Rightarrow> bool" where
  "pristine b p w \<longleftrightarrow>
     (\<exists>m. map_of (fs w) (work b) = Some (DirN m)) \<and>
     (\<forall>q. inside (work b) q \<and> q \<noteq> work b \<longrightarrow> map_of (fs w) q =
        (if q = work b @ CHR ''/'' # ''payload.sh'' then Some (FileN 0x180 (payload b)) else None)) \<and>
     creds p = []"

lemma pristine_child_names:
  assumes "pristine b p w"
  shows "child_names (work b) (fs w) = [''payload.sh'']"
proof -
  have "r \<in> set (child_names (work b) (fs w)) \<longleftrightarrow> r = ''payload.sh''" for r
  proof -
    have ins: "inside (work b) (work b @ CHR ''/'' # r) \<and> work b @ CHR ''/'' # r \<noteq> work b"
      by simp
    have "work b @ CHR ''/'' # r \<in> set (keys (fs w)) \<longleftrightarrow> map_of (fs w) (work b @ CHR ''/'' # r) \<noteq> None"
      by (simp add: map_of_eq_None_iff)
    also have "\<dots> \<longleftrightarrow> r = ''payload.sh''"
      using assms ins unfolding pristine_def by simp
    finally show ?thesis by (auto simp: set_child_names)
  qed
  then have "set (child_names (work b) (fs w)) = set [''payload.sh'']" by auto
  moreover have "sorted (child_names (work b) (fs w))" by (simp add: child_names_def)
  moreover have "distinct (child_names (work b) (fs w))"
    by (simp add: child_names_def)
  ultimately show ?thesis
    using sorted_distinct_set_unique [of "child_names (work b) (fs w)" "[''payload.sh'']"] by simp
qed

text \<open>C23: A restored sandbox is indistinguishable from a fresh one: when restore reports success, the
  work directory, whatever the payload left in it, again holds exactly payload.sh with the payload's
  contents and mode 0600, nothing outside it has changed, the credential map is empty, the egress
  policy is the same and no external effect has happened.\<close>

theorem restore_pristine:
  assumes "restore h b p w = (Inr (), p', w')"
    and "clean_abs (work b)" and "tree_ok (work b) (fs w)"
    and "map_of (fs w) (work b) = Some (DirN m)"
  shows "pristine b p' w' \<and>
    (\<forall>q. \<not> inside (work b) q \<longrightarrow> map_of (fs w') q = map_of (fs w) q) \<and>
    same_policy p' p \<and> credentialHosts p' = [] \<and> effects w' = effects w"
proof -
  let ?d = "work b"
  from assms(1) obtain es w1 w2 u1 u2 where r: "os_read_dir h ?d w = (Inr es, w1)"
      "remove_entries h ?d es w1 = (Inr u1, w2)" "seed h b w2 = (Inr u2, w')" and p': "p' = Wipe p"
    by (auto simp: restore_def split: prod.splits sum.splits)
  from r(1) assms(4) have es: "es = child_names ?d (fs w)" "fs w1 = fs w" "effects w1 = effects w"
    by (auto simp: os_read_dir_def sys_def split: option.splits fault.splits)
  have rem: "effects w2 = effects w \<and> (\<forall>q. map_of (fs w2) q =
      (if \<exists>c \<in> set es. inside (?d @ CHR ''/'' # c) q then None else map_of (fs w) q))"
    using remove_entries_Inr [OF r(2) assms(2)] assms(3) es by (auto simp: tree_ok_def list_all_iff)
  have gone: "map_of (fs w2) q = None" if "inside ?d q" "q \<noteq> ?d" for q
  proof (cases "map_of (fs w) q")
    case (Some n)
    then have "q \<in> set (keys (fs w))" by (auto dest!: map_of_SomeD simp: rev_image_eqI)
    with that assms(3) es(1) have "\<exists>c \<in> set es. inside (?d @ CHR ''/'' # c) q"
      unfolding tree_ok_def by blast
    with rem show ?thesis by simp
  qed (use rem in simp)
  have kept: "map_of (fs w2) q = map_of (fs w) q" if "\<not> inside ?d q \<or> q = ?d" for q
    using that rem inside_child_inside by auto
  note sd = seed_Inr [OF r(3) assms(2)]
  have "inside ?d (?d @ CHR ''/'' # ''payload.sh'')" by simp
  then show ?thesis
    using sd rem gone kept assms(4) p' same_policy_ops(2) [of p] egress.names_wipe [of p]
    by (auto simp: pristine_def)
qed

text \<open>The snapshot itself is pristine: if the host hands out a clean temporary directory nothing
  exists under and both calls succeed, the baseline around a proxy with no credentials is exactly the
  pristine surface (so restored and fresh surfaces are equal), its script is
  the seeded payload.sh, its socket lies inside the work directory and does not exist yet.\<close>

theorem snapshotBaseline_pristine:
  assumes "snapshotBaseline h pl w = (Inr b, w')" and "creds p = []"
    and "clean_abs (h_tmp h (tick w) ''exec-sandbox-'')"
    and "\<forall>q. inside (h_tmp h (tick w) ''exec-sandbox-'') q \<longrightarrow> map_of (fs w) q = None"
  shows "pristine b p w' \<and> payload b = pl \<and> effects w' = effects w \<and>
    scriptPath b = work b @ CHR ''/'' # ''payload.sh'' \<and>
    proxySock b = work b @ CHR ''/'' # ''proxy.sock'' \<and> map_of (fs w') (proxySock b) = None"
proof -
  let ?d = "h_tmp h (tick w) ''exec-sandbox-''"
  from assms(1) obtain w1 u where mk: "os_mkdir_temp h ''exec-sandbox-'' w = (Inr ?d, w1)"
      and b: "b = \<lparr>work = ?d, payload = pl, proxySock = path_join [?d, ''proxy.sock'']\<rparr>"
      and sd: "seed h b w1 = (Inr u, w')"
    by (auto simp: snapshotBaseline_def os_mkdir_temp_def Let_def split: prod.splits sum.splits option.splits fault.splits)
  from mk have w1: "map_of (fs w1) = (map_of (fs w))(?d \<mapsto> DirN 0x1C0)" "effects w1 = effects w"
    by (auto simp: os_mkdir_temp_def sys_def map_of_put_node Let_def split: option.splits fault.splits)
  have "work b = ?d" using b by simp
  then show ?thesis
    using seed_Inr [OF sd] assms w1 b
    by (auto simp: pristine_def scriptPath_def path_join_clean_abs)
qed

text \<open>Teardown reclaims everything: the credential map is always cleared, and when the host does
  not refuse the removal nothing remains inside the work directory while everything outside is
  untouched.\<close>

theorem teardown_reclaims:
  assumes "work b \<noteq> []"
  shows "creds (fst (teardown h b p w)) = [] \<and>
    (h_fault h (tick w) (OpRemoveAll (work b)) = None \<longrightarrow>
      (\<forall>q. map_of (fs (snd (teardown h b p w))) q = (if inside (work b) q then None else map_of (fs w) q)))"
  using assms by (auto simp: teardown_def os_remove_all_def sys_def map_of_drop_tree)

section \<open>Witnesses\<close>

definition dirty_world :: world where
  "dirty_world = \<lparr>fs = [(''/tmp/w'', DirN 0x1C0), (''/tmp/w/payload.sh'', FileN 0x1FF ''evil''),
     (''/tmp/w/out'', DirN 0x1ED), (''/tmp/w/out/leak'', FileN 0x180 ''secret''), (''/etc'', DirN 0x1ED)],
     tick = 0, effects = []\<rparr>"

definition sample_baseline :: sandboxBaseline where
  "sample_baseline = \<lparr>work = ''/tmp/w'', payload = ''echo hi'', proxySock = ''/tmp/w/proxy.sock''\<rparr>"

lemma clean_abs_tmp_w: "clean_abs ''/tmp/w''"
  unfolding clean_abs_def by (rule exI [of _ "[''tmp'', ''w'']"]) (simp add: path_simps)

lemma dirty_children: "child_names ''/tmp/w'' (fs dirty_world) = [''out'', ''payload.sh'']"
  by (simp add: child_names_def dirty_world_def)

lemma restore_pristine_witness:
  "\<exists>p' w'. restore sample_host sample_baseline
      (SetCredential ''api.x'' \<lparr>Value = ''s'', Header = ''h'', Scheme = ''b''\<rparr> (NewEgressProxy [] [] []))
      dirty_world = (Inr (), p', w') \<and> pristine sample_baseline p' w' \<and> credentialHosts p' = []"
proof -
  let ?p = "SetCredential ''api.x'' \<lparr>Value = ''s'', Header = ''h'', Scheme = ''b''\<rparr> (NewEgressProxy [] [] [])"
  let ?b = sample_baseline
  let ?w = "dirty_world\<lparr>tick := 1\<rparr>"
  have clean: "clean_abs (work sample_baseline)"
    by (simp add: sample_baseline_def clean_abs_tmp_w)
  have join: "path_join [work ?b, c] = ''/tmp/w'' @ CHR ''/'' # c" if "plain_comp c" for c
    using path_join_clean_abs [OF clean that] by (simp add: sample_baseline_def)
  have plain: "plain_comp ''out''"
    by (simp add: plain_comp_def)
  have no_fault: "h_fault sample_host n op = None" for n op
    by (simp add: sample_host_def)
  have read: "os_read_dir sample_host (work ?b) dirty_world = (Inr [''out'', ''payload.sh''], ?w)"
    by (simp add: os_read_dir_def sys_def no_fault sample_baseline_def)
      (simp add: dirty_world_def child_names_def)
  have rem: "os_remove_all sample_host q w = (Inr (), drop_tree q (w\<lparr>tick := Suc (tick w)\<rparr>))" for q w
    by (simp add: os_remove_all_def sys_def no_fault)
  obtain w2 where entries: "remove_entries sample_host (work ?b) [''out'', ''payload.sh''] ?w = (Inr (), w2)"
    by (simp add: rem)
  obtain w3 where seeded: "seed sample_host ?b w2 = (Inr (), w3)"
    by (simp add: seed_def os_write_file_def sys_def no_fault)
  have r: "restore sample_host ?b ?p dirty_world = (Inr (), Wipe ?p, w3)"
    by (simp only: restore_def read entries seeded prod.case sum.case)
  have tree: "tree_ok (work sample_baseline) (fs dirty_world)"
    unfolding tree_ok_def sample_baseline_def sandboxBaseline.select_convs dirty_children
    by (auto simp: dirty_world_def inside_def plain_comp_def)
  have dir: "map_of (fs dirty_world) (work sample_baseline) = Some (DirN 0x1C0)"
    by (simp add: dirty_world_def sample_baseline_def)
  show ?thesis
    using restore_pristine [OF r clean tree dir] r by blast
qed

definition clean_world :: world where
  "clean_world = \<lparr>fs = [(''/tmp'', DirN 0x1FF), (''/etc'', DirN 0x1ED)], tick = 0, effects = []\<rparr>"

lemma snapshotBaseline_pristine_witness:
  "\<exists>b w'. snapshotBaseline sample_host ''echo hi'' clean_world = (Inr b, w') \<and>
     pristine b (NewEgressProxy [] [] []) w' \<and> payload b = ''echo hi'' \<and> effects w' = []"
proof -
  let ?d = "''/tmp/exec-sandbox-1''"
  have no_fault: "h_fault sample_host n op = None" and tmp: "h_tmp sample_host n ''exec-sandbox-'' = ?d" for n op
    by (simp_all add: sample_host_def)
  obtain b w' where r: "snapshotBaseline sample_host ''echo hi'' clean_world = (Inr b, w')"
    by (simp add: snapshotBaseline_def os_mkdir_temp_def sys_def no_fault seed_def os_write_file_def Let_def)
  have clean: "clean_abs ?d"
    unfolding clean_abs_def
    by (rule exI [of _ "[''tmp'', ''exec-sandbox-1'']"]) (simp add: path_simps)
  have empty: "\<forall>q. inside ?d q \<longrightarrow> map_of (fs clean_world) q = None"
    by (auto simp: clean_world_def inside_def prefix_def)
  have nocreds: "creds (NewEgressProxy [] [] []) = []"
    by (simp add: NewEgressProxy_def)
  show ?thesis
    using snapshotBaseline_pristine [OF r nocreds, unfolded tmp, OF clean empty] r
    by (auto simp: clean_world_def)
qed

lemma teardown_reclaims_witness:
  "map_of (fs (snd (teardown sample_host sample_baseline (NewEgressProxy [] [] []) dirty_world)))
     ''/tmp/w/out/leak'' = None"
proof -
  have "inside (work sample_baseline) ''/tmp/w/out/leak''"
    by (simp add: sample_baseline_def inside_def)
  moreover have "h_fault sample_host (tick dirty_world) (OpRemoveAll (work sample_baseline)) = None"
    by (simp add: sample_host_def)
  moreover have "work sample_baseline \<noteq> []"
    by (simp add: sample_baseline_def)
  ultimately show ?thesis
    using teardown_reclaims [of sample_baseline sample_host "NewEgressProxy [] [] []" dirty_world] by simp
qed

end
