(* ===== verification/Runner.thy ===== *)
theory Runner
  imports Gvisor FcLaunch Snapshot Profile
begin

text \<open>
  run.go's \<open>Run\<close> and main.go: one execution from request to result, through validation, minting
  of the sandbox identity, the baseline, injection, the proxy, the selected backend, the child process
  and the deferred clean-ups, in the order of the code. The peers on the vault and audit sockets are
  the parameter \<open>ipc\<close>; the three backends are used through the locale \<open>tier_backend\<close>.

  \<open>Run\<close> returns, with the result, the holders of credentials as they are when it returns.
\<close>

section \<open>Requests and peers\<close>

record RunRequest =
  q_payload :: string
  q_profile :: json            \<comment> \<open>\<open>JNull\<close> (absent) or an object\<close>
  q_tier :: string
  q_secretRefs :: "string list"
  q_workdir :: string
  q_env :: "string amap"
  w_vaultSocket :: string
  w_auditSocket :: string
  w_originMap :: "(string \<times> string) amap"
  w_requestID :: string
  w_injectionMode :: string
  w_attestationKey :: string

text \<open>What the peer of a Unix socket answers: an error (of the dial, the read or the decoding) or a map.\<close>

type_synonym ipc = "nat \<Rightarrow> string \<Rightarrow> json \<Rightarrow> json amap res"

definition ipcCall :: "ipc \<Rightarrow> effect \<Rightarrow> string \<Rightarrow> json \<Rightarrow> world \<Rightarrow> json amap res \<times> world" where
  "ipcCall ipc note socket req w =
     (if socket = [] then (Inr [], w)
      else (ipc (tick w) socket req, log_eff note (w\<lparr>tick := Suc (tick w)\<rparr>)))"

definition emit :: "ipc \<Rightarrow> string \<Rightarrow> json \<Rightarrow> world \<Rightarrow> world" where
  "emit ipc socket event w =
     (if socket = [] then w
      else snd (ipcCall ipc (Audit event) socket (JObj [(''op'', JStr ''emit''), (''event'', event)]) w))"

definition vaultInject :: "ipc \<Rightarrow> string \<Rightarrow> string \<Rightarrow> json \<Rightarrow> string \<Rightarrow> world \<Rightarrow> json amap res \<times> world" where
  "vaultInject ipc socket hdl sandboxIdentity mode w =
     (let req = JObj [(''op'', JStr ''inject''), (''handle'', JStr hdl),
                      (''sandbox_identity'', sandboxIdentity), (''mode'', JStr mode)]
      in ipcCall ipc (VaultCall req) socket req w)"

section \<open>Audit events\<close>

definition event :: "string \<Rightarrow> string \<Rightarrow> string \<Rightarrow> json amap \<Rightarrow> json" where
  "event action target decision ctx =
     JObj [(''actor'', JStr ''exec-sandbox''), (''action'', JStr action), (''target'', JStr target),
           (''decision'', JStr decision), (''context'', JObj ctx)]"

definition spawn_event :: "RunRequest \<Rightarrow> string \<Rightarrow> json" where
  "spawn_event q sandboxID = event ''spawn'' sandboxID ''allow''
     [(''tier'', JStr (q_tier q)), (''request_id'', JStr (w_requestID q))]"

definition inject_failed :: "RunRequest \<Rightarrow> string \<Rightarrow> json" where
  "inject_failed q sandboxID = event ''inject_failed'' sandboxID ''deny'' [(''request_id'', JStr (w_requestID q))]"

definition start_failed :: "RunRequest \<Rightarrow> string \<Rightarrow> gerr \<Rightarrow> json" where
  "start_failed q sandboxID e = event ''exit'' sandboxID ''deny''
     [(''status'', JStr ''proxy_start_failed''), (''error'', JStr e), (''request_id'', JStr (w_requestID q))]"

definition exit_event :: "RunRequest \<Rightarrow> string \<Rightarrow> int \<Rightarrow> int \<Rightarrow> string \<Rightarrow> json" where
  "exit_event q sandboxID exitCode durationMs status = event ''exit'' sandboxID ''allow''
     [(''exit_code'', JInt exitCode), (''duration_ms'', JInt durationMs), (''status'', JStr status),
      (''request_id'', JStr (w_requestID q))]"

definition run_error :: "gerr \<Rightarrow> json amap" where
  "run_error e = [(''error'', JStr e)]"

section \<open>Injection\<close>

record injected =
  i_proxy :: EgressProxy
  i_env :: EnvCredentials
  i_secrets :: "json list"

definition injected_entry :: "string \<Rightarrow> string \<Rightarrow> json" where
  "injected_entry hdl delivery = JObj [(''handle_prefix'', JStr (prefix_n hdl 8)), (''delivery'', JStr delivery)]"

definition inject_one ::
  "ipc \<Rightarrow> RunRequest \<Rightarrow> string \<Rightarrow> json \<Rightarrow> string \<Rightarrow> injected \<times> world \<Rightarrow> injected \<times> world" where
  "inject_one ipc q sandboxID identity hdl x =
     (case x of (s, w) \<Rightarrow>
       (case vaultInject ipc (w_vaultSocket q) hdl identity (w_injectionMode q) w of
          (Inl e, w1) \<Rightarrow> (s, emit ipc (w_auditSocket q) (inject_failed q sandboxID) w1)
        | (Inr resp, w1) \<Rightarrow>
            if fld resp ''error'' \<noteq> JNull then (s, emit ipc (w_auditSocket q) (inject_failed q sandboxID) w1)
            else if fld resp ''delivery'' = JStr ''proxy'' then
              (let b = as_obj (fld resp ''binding'') in
               (s\<lparr>i_proxy := SetCredential (str (fld b ''host''))
                    \<lparr>Value = str (fld resp ''credential''),
                     Header = orDefault (str (fld b ''header'')) ''Authorization'',
                     Scheme = orDefault (str (fld b ''scheme'')) ''Bearer''\<rparr> (i_proxy s),
                  i_secrets := i_secrets s @ [injected_entry hdl ''proxy'']\<rparr>, w1))
            else
              (let varName = str (fld resp ''var_name'') in
               if varName = [] then (s, emit ipc (w_auditSocket q) (inject_failed q sandboxID) w1)
               else (s\<lparr>i_env := env_Set varName (str (fld resp ''credential'')) (i_env s),
                       i_secrets := i_secrets s @ [injected_entry hdl ''env'']\<rparr>, w1))))"

definition inject_all ::
  "ipc \<Rightarrow> RunRequest \<Rightarrow> string \<Rightarrow> json \<Rightarrow> injected \<times> world \<Rightarrow> injected \<times> world" where
  "inject_all ipc q sandboxID identity x = fold (inject_one ipc q sandboxID identity) (q_secretRefs q) x"

section \<open>The child process\<close>

definition exit_status :: "limits \<Rightarrow> child \<Rightarrow> int \<times> string" where
  "exit_status lm c =
     (let exitCode = (case c_exit c of Inr n \<Rightarrow> n | Inl e \<Rightarrow> 127) in
      if Timeout lm > 0 \<and> c_deadline c then (137, ''timeout'') else (exitCode, ''clean''))"

definition announce :: "degrade list \<Rightarrow> world \<Rightarrow> world" where
  "announce ds w = fold (\<lambda>d. log_eff (Warn (''exec-sandbox: WARNING: '' @ d_reason d))) ds w"

definition captured :: "limits \<Rightarrow> child \<Rightarrow> capWriter \<times> capWriter" where
  \<comment> \<open>standard output and standard error; a child that could not run has its error appended\<close>
  "captured lm c =
     (let stdout = cap_writes (c_stdout c) (newCapWriter (MaxOutputBytes lm));
          stderr = cap_writes (c_stderr c) (newCapWriter (MaxOutputBytes lm))
      in (stdout, case c_exit c of Inr n \<Rightarrow> stderr | Inl e \<Rightarrow> snd (cap_write e stderr)))"

definition run_result :: "RunRequest \<Rightarrow> string \<Rightarrow> limits \<Rightarrow> json list \<Rightarrow> string list \<Rightarrow> child \<Rightarrow> json amap" where
  "run_result q sandboxID lm secrets degraded c =
     (let (stdout, stderr) = captured lm c; (exitCode, status) = exit_status lm c in
      [(''stdout'', JStr (cw_buf stdout)), (''stderr'', JStr (cw_buf stderr)), (''exit_code'', JInt exitCode),
       (''sandbox_status'', JObj
         [(''sandbox_id'', JStr sandboxID), (''tier'', JStr (q_tier q)), (''duration_ms'', JInt (c_ms c)),
          (''secrets_injected'', JArr secrets), (''status'', JStr status),
          (''limits'', limitsReport lm degraded (outputTruncated stdout stderr))])])"

definition run_child ::
  "ipc \<Rightarrow> RunRequest \<Rightarrow> string \<Rightarrow> limits \<Rightarrow> json list \<Rightarrow> host \<Rightarrow> prep \<Rightarrow> world \<Rightarrow> json amap \<times> world" where
  "run_child ipc q sandboxID lm secrets h p w =
     (let w1 = log_eff (Spawn (p_argv p)) (announce (p_degrades p) w);
          c = h_child h (tick w1) (p_argv p) (p_files p) w1;
          (exitCode, status) = exit_status lm c
      in (run_result q sandboxID lm secrets (map d_cap (p_degrades p)) c,
          emit ipc (w_auditSocket q) (exit_event q sandboxID exitCode (c_ms c) status)
            (w1\<lparr>fs := c_fs c, tick := Suc (tick w1)\<rparr>)))"

section \<open>The tier seam\<close>

definition backendFor :: "golib \<Rightarrow> embedded \<Rightarrow> string \<Rightarrow> backend_argv res" where
  "backendFor g emb tier =
     (if tier = [] \<or> tier = ''bubblewrap'' then Inr (bubblewrap_Argv g emb)
      else if tier = ''gvisor'' then Inr (gvisor_Argv g)
      else if tier = ''firecracker'' then Inr (firecracker_Argv g)
      else Inl (''tier not implemented: '' @ tier))"

text \<open>A backend's preparation, the child and the backend's deferred clean-up.\<close>

definition run_tier ::
  "backend_argv \<Rightarrow> ipc \<Rightarrow> RunRequest \<Rightarrow> string \<Rightarrow> limits \<Rightarrow> string \<Rightarrow> string list \<Rightarrow> sandboxBaseline \<Rightarrow> injected \<Rightarrow>
   host \<Rightarrow> world \<Rightarrow> json amap \<times> world" where
  "run_tier Argv ipc q sandboxID lm workdir fileReads b s h w =
     (case Argv h (scriptPath b) (proxySock b) workdir fileReads (q_env q) (pairs (i_env s)) lm w of
        (Inl e, w1) \<Rightarrow> (run_error e, w1)
      | (Inr p, w1) \<Rightarrow> (case run_child ipc q sandboxID lm (i_secrets s) h p w1 of
          (res, w2) \<Rightarrow> (res, case p_cleanup p of None \<Rightarrow> w2 | Some c \<Rightarrow> c h w2)))"

section \<open>Run\<close>

record run_exit =
  x_result :: "json amap"
  x_proxy :: EgressProxy
  x_env :: EnvCredentials
  x_base :: "sandboxBaseline option"

text \<open>From the started proxy to the return, with the deferred stop, wipes and teardown.\<close>

definition run_served ::
  "golib \<Rightarrow> embedded \<Rightarrow> ipc \<Rightarrow> RunRequest \<Rightarrow> string \<Rightarrow> limits \<Rightarrow> string \<Rightarrow> string list \<Rightarrow> sandboxBaseline \<Rightarrow> injected \<Rightarrow>
   host \<Rightarrow> world \<Rightarrow> run_exit \<times> world" where
  "run_served g emb ipc q sandboxID lm workdir fileReads b s h w =
     (let (res, w1) = (case backendFor g emb (q_tier q) of
            Inl e \<Rightarrow> (run_error e, w)
          | Inr Argv \<Rightarrow> run_tier Argv ipc q sandboxID lm workdir fileReads b s h w);
          (p1, w2) = Stop (i_proxy s) w1;
          (p2, w3) = teardown h b (Wipe p1) w2
      in (\<lparr>x_result = res, x_proxy = p2, x_env = env_Wipe (i_env s), x_base = Some b\<rparr>, w3))"

text \<open>From the spawn event to the return.\<close>

definition run_admitted ::
  "golib \<Rightarrow> embedded \<Rightarrow> ipc \<Rightarrow> RunRequest \<Rightarrow> string \<Rightarrow> json \<Rightarrow> limits \<Rightarrow> string \<Rightarrow> string list \<Rightarrow>
   host \<Rightarrow> world \<Rightarrow> run_exit \<times> world" where
  "run_admitted g emb ipc q sandboxID identity lm workdir fileReads h w =
     (let w1 = emit ipc (w_auditSocket q) (spawn_event q sandboxID) w;
          proxy = NewEgressProxy (netAllowlist (as_obj (q_profile q))) (netVerbAllowlist g (as_obj (q_profile q))) (w_originMap q)
      in case snapshotBaseline h (q_payload q) w1 of
           (Inl e, w2) \<Rightarrow> (\<lparr>x_result = run_error (''baseline prepare failed: '' @ e), x_proxy = proxy,
               x_env = NewEnvCredentials, x_base = None\<rparr>, w2)
         | (Inr b, w2) \<Rightarrow>
             (let (s, w3) = inject_all ipc q sandboxID identity
                    (\<lparr>i_proxy = proxy, i_env = NewEnvCredentials, i_secrets = []\<rparr>, w2)
              in case Start h (proxySock b) (i_proxy s) w3 of
                   (Inl e, p, w4) \<Rightarrow>
                     (let w5 = emit ipc (w_auditSocket q) (start_failed q sandboxID e) w4;
                          (p', w6) = teardown h b p w5
                      in (\<lparr>x_result = run_error (''proxy start failed: '' @ e), x_proxy = p',
                           x_env = env_Wipe (i_env s), x_base = Some b\<rparr>, w6))
                 | (Inr _, p, w4) \<Rightarrow>
                     run_served g emb ipc q sandboxID lm workdir fileReads b (s\<lparr>i_proxy := p\<rparr>) h w4))"

definition mint_identity :: "golib \<Rightarrow> pki \<Rightarrow> RunRequest \<Rightarrow> string \<Rightarrow> host \<Rightarrow> world \<Rightarrow> json res \<times> world" where
  "mint_identity g k q sandboxID h w =
     (if w_attestationKey q \<noteq> [] then
        (case loadSigningKey k h (w_attestationKey q) w of
           (Inl e, w1) \<Rightarrow> (Inl (''attestation signing key: '' @ e), w1)
         | (Inr priv, w1) \<Rightarrow> (case mintHostAttestation g h priv sandboxID (q_tier q) (q_profile q) w1 of
             (identity, w2) \<Rightarrow> (Inr identity, w2)))
      else (case mintAttestation g k h sandboxID w of
          (r, w1) \<Rightarrow> (wrap_err ''attestation mint failed: '' r, w1)))"

definition Run :: "golib \<Rightarrow> pki \<Rightarrow> embedded \<Rightarrow> ipc \<Rightarrow> RunRequest \<Rightarrow> host \<Rightarrow> world \<Rightarrow> run_exit \<times> world" where
  "Run g k emb ipc q h w =
     (let profile = as_obj (q_profile q);
          lm = parseLimits g profile;
          fileReads = fileReadPaths profile;
          refuse = (\<lambda>e. \<lparr>x_result = run_error e, x_proxy = NewEgressProxy [] [] [], x_env = NewEnvCredentials, x_base = None\<rparr>)
      in case validateWorkdir h (q_workdir q) w of
           (Inl e, w1) \<Rightarrow> (refuse e, w1)
         | (Inr workdir, w1) \<Rightarrow> (case validateFileReads g h fileReads w1 of
             (Inl e, w2) \<Rightarrow> (refuse e, w2)
           | (Inr _, w2) \<Rightarrow>
              (let (hex, w3) = randHex h 6 w2;
                   sandboxID = ''sbx-'' @ hex
               in case mint_identity g k q sandboxID h w3 of
                    (Inl e, w4) \<Rightarrow> (refuse e, w4)
                  | (Inr identity, w4) \<Rightarrow> run_admitted g emb ipc q sandboxID identity lm workdir fileReads h w4)))"

section \<open>main.go\<close>

text \<open>
  The dispatch on \<open>os.Args\<close> (without the program name): exit code and standard output. \<open>None\<close> is a
  subcommand that has not returned. Standard input and decoding are arguments.
\<close>

definition go_main ::
  "golib \<Rightarrow> pki \<Rightarrow> embedded \<Rightarrow> ipc \<Rightarrow> (bytes \<Rightarrow> json res) \<Rightarrow> (bytes \<Rightarrow> json amap res) \<Rightarrow> (bytes \<Rightarrow> RunRequest res) \<Rightarrow>
   fc_peer \<Rightarrow> string \<Rightarrow> host \<Rightarrow> string list \<Rightarrow> bytes res \<Rightarrow> world \<Rightarrow> (int \<times> bytes) option \<times> world" where
  "go_main g k emb ipc unmarshal unmarshal_map unmarshal_request p fcBinary h args stdin w =
     (let lines = (\<lambda>ls. concat (map (\<lambda>l. l @ [LF]) ls)) in
      case args of
        [] \<Rightarrow> (Some (2, []), warn ''usage: exec-sandbox run   (JSON RunRequest on stdin)'' w)
      | cmd # cargs \<Rightarrow>
         if cmd = ''fc-launch'' then
           (case fcLaunchMain g unmarshal p fcBinary h cargs w of
              (r, w1) \<Rightarrow> (map_option (\<lambda>l. (l_code l, l_out l)) r, w1))
         else if cmd = ''keygen'' then
           (case keygenMain g k h cargs w of ((code, ls), w1) \<Rightarrow> (Some (code, lines ls), w1))
         else if cmd = ''verify-attestation'' then
           (case verifyAttestationMain g k unmarshal_map h cargs stdin w of
              (r, w1) \<Rightarrow> (map_option (\<lambda>(code, ls). (code, lines ls)) r, w1))
         else if cmd \<noteq> ''run'' then
           (Some (2, []), warn ''usage: exec-sandbox run   (JSON RunRequest on stdin)'' w)
         else (case stdin of
            Inl e \<Rightarrow> (Some (1, []), warn (''read stdin: '' @ e) w)
          | Inr d \<Rightarrow> (case unmarshal_request d of
              Inl e \<Rightarrow> (Some (1, []), warn (''parse request: '' @ e) w)
            | Inr q \<Rightarrow> (case Run g k emb ipc q h w of
                (x, w1) \<Rightarrow> (Some (0, marshal g (JObj (x_result x))), w1)))))"

section \<open>The trail a run leaves\<close>

text \<open>The audit events and the spawned argument vectors in a log of effects.\<close>

definition audits :: "effect list \<Rightarrow> json list" where
  "audits es = List.map_filter (\<lambda>e. case e of Audit ev \<Rightarrow> Some ev | _ \<Rightarrow> None) es"

definition spawned :: "effect list \<Rightarrow> string list list" where
  "spawned es = List.map_filter (\<lambda>e. case e of Spawn a \<Rightarrow> Some a | _ \<Rightarrow> None) es"

lemma audits_simps [simp]:
  "audits [] = []" "audits (Audit ev # es) = ev # audits es" "audits (VaultCall r # es) = audits es"
  "audits (Warn s # es) = audits es" "audits (Spawn a # es) = audits es" "audits (Listen s # es) = audits es"
  "audits (Unlisten s # es) = audits es" "audits (Kill n # es) = audits es"
  "audits (xs @ ys) = audits xs @ audits ys"
  by (simp_all add: audits_def List.map_filter_def)

lemma spawned_simps [simp]:
  "spawned [] = []" "spawned (Audit ev # es) = spawned es" "spawned (VaultCall r # es) = spawned es"
  "spawned (Warn s # es) = spawned es" "spawned (Spawn a # es) = a # spawned es" "spawned (Listen s # es) = spawned es"
  "spawned (Unlisten s # es) = spawned es" "spawned (Kill n # es) = spawned es"
  "spawned (xs @ ys) = spawned xs @ spawned ys"
  by (simp_all add: spawned_def List.map_filter_def)

lemma internal_trail: "list_all internal es \<Longrightarrow> audits es = [] \<and> spawned es = []"
  by (induction es rule: list.induct) (auto elim!: internal.elims)

lemma balanced_no_listen:
  "(\<And>s. Listen s \<notin> set es \<and> Unlisten s \<notin> set es) \<Longrightarrow> balanced es"
  by (simp add: balanced_def count_notin)

definition opt_event :: "string \<Rightarrow> json \<Rightarrow> json list" where
  "opt_event socket ev = (if socket = [] then [] else [ev])"

lemma emit_D:
  "effects (emit ipc socket ev w) = effects w @ map Audit (opt_event socket ev)"
  "fs (emit ipc socket ev w) = fs w"
  by (simp_all add: emit_def ipcCall_def opt_event_def)

lemma vaultInject_D:
  assumes "vaultInject ipc socket hdl identity mode w = (r, w')"
  shows "fs w' = fs w \<and> (\<exists>reqs. effects w' = effects w @ map VaultCall reqs)"
proof (cases "socket = []")
  case True
  with assms show ?thesis by (auto simp: vaultInject_def ipcCall_def Let_def intro: exI [of _ "[]"])
next
  case False
  with assms show ?thesis
    by (auto simp: vaultInject_def ipcCall_def Let_def intro: exI [of _ "[req]" for req])
qed

lemma trail_maps [simp]: "audits (map VaultCall rs) = []" "spawned (map VaultCall rs) = []"
    "audits (map Audit evs) = evs" "spawned (map Audit evs) = []"
proof -
  show "audits (map VaultCall rs) = []" "spawned (map VaultCall rs) = []" by (induction rs) simp_all
  show "audits (map Audit evs) = evs" "spawned (map Audit evs) = []" by (induction evs) simp_all
qed

lemma trail_warns [simp]: "audits (map (\<lambda>d. Warn (f d)) ds) = []" "spawned (map (\<lambda>d. Warn (f d)) ds) = []"
  by (induction ds) simp_all

lemma balanced_maps [simp]: "balanced (map VaultCall rs)" "balanced (map Audit evs)"
  by (auto intro!: balanced_no_listen)

text \<open>One injection: what it adds to the trail, to the holders and to the report.\<close>

lemma inject_one_D:
  assumes "inject_one ipc q sandboxID identity hdl (s, w) = (s', w')"
  shows "\<exists>es n. effects w' = effects w @ es \<and> fs w' = fs w \<and> balanced es \<and> spawned es = [] \<and>
    audits es = replicate n (inject_failed q sandboxID) \<and> n \<le> 1 \<and>
    serving (i_proxy s') = serving (i_proxy s) \<and> same_policy (i_proxy s') (i_proxy s) \<and>
    (i_secrets s' = i_secrets s \<or> (\<exists>d \<in> {''proxy'', ''env''}. i_secrets s' = i_secrets s @ [injected_entry hdl d]))"
proof -
  obtain r w1 where v: "vaultInject ipc (w_vaultSocket q) hdl identity (w_injectionMode q) w = (r, w1)" by fastforce
  from vaultInject_D [OF v] obtain reqs where e1: "fs w1 = fs w" "effects w1 = effects w @ map VaultCall reqs" by blast
  let ?ev = "inject_failed q sandboxID"
  let ?n = "if w_auditSocket q = [] then 0 else 1 :: nat"
  have refl: "same_policy p p" for p by (simp add: same_policy_def)
  have fail: "\<exists>es n. effects (emit ipc (w_auditSocket q) ?ev w1) = effects w @ es \<and> fs (emit ipc (w_auditSocket q) ?ev w1) = fs w \<and>
      balanced es \<and> spawned es = [] \<and> audits es = replicate n ?ev \<and> n \<le> 1"
    by (rule exI [of _ "map VaultCall reqs @ map Audit (opt_event (w_auditSocket q) ?ev)"], rule exI [of _ ?n])
      (simp add: emit_D e1 balanced_append opt_event_def)
  have quiet: "\<exists>es n. effects w1 = effects w @ es \<and> fs w1 = fs w \<and> balanced es \<and> spawned es = [] \<and>
      audits es = replicate n ?ev \<and> n \<le> 1"
    by (rule exI [of _ "map VaultCall reqs"], rule exI [of _ 0]) (simp add: e1)
  consider (failed) "s' = s" "w' = emit ipc (w_auditSocket q) ?ev w1"
    | (proxy) h c where "w' = w1" "s' = s\<lparr>i_proxy := SetCredential h c (i_proxy s), i_secrets := i_secrets s @ [injected_entry hdl ''proxy'']\<rparr>"
    | (env) e where "w' = w1" "s' = s\<lparr>i_env := e, i_secrets := i_secrets s @ [injected_entry hdl ''env'']\<rparr>"
    using assms by (cases r) (auto simp: inject_one_def v Let_def split: if_splits)
  then show ?thesis
  proof cases
    case failed
    then show ?thesis using fail refl by auto
  next
    case proxy
    then show ?thesis using quiet same_policy_ops(1) by auto
  next
    case env
    then show ?thesis using quiet refl by auto
  qed
qed

lemma inject_all_D:
  assumes "fold (inject_one ipc q sandboxID identity) hs (s, w) = (s', w')"
  shows "\<exists>es n. effects w' = effects w @ es \<and> fs w' = fs w \<and> balanced es \<and> spawned es = [] \<and>
    audits es = replicate n (inject_failed q sandboxID) \<and> n \<le> length hs \<and>
    serving (i_proxy s') = serving (i_proxy s) \<and> same_policy (i_proxy s') (i_proxy s) \<and>
    (\<exists>ns. i_secrets s' = i_secrets s @ ns \<and> (\<forall>x \<in> set ns. \<exists>hdl \<in> set hs. \<exists>d \<in> {''proxy'', ''env''}. x = injected_entry hdl d))"
  using assms
proof (induction hs arbitrary: s w)
  case Nil
  then show ?case by (intro exI [of _ "[]"] exI [of _ 0]) (simp add: same_policy_def)
next
  case (Cons hdl hs)
  obtain s1 w1 where one: "inject_one ipc q sandboxID identity hdl (s, w) = (s1, w1)" by fastforce
  from inject_one_D [OF one] obtain es n where a: "effects w1 = effects w @ es" "fs w1 = fs w" "balanced es" "spawned es = []"
      "audits es = replicate n (inject_failed q sandboxID)" "n \<le> 1" "serving (i_proxy s1) = serving (i_proxy s)"
      "same_policy (i_proxy s1) (i_proxy s)"
      "i_secrets s1 = i_secrets s \<or> (\<exists>d \<in> {''proxy'', ''env''}. i_secrets s1 = i_secrets s @ [injected_entry hdl d])" by blast
  from a(9) obtain n1 where n1: "i_secrets s1 = i_secrets s @ n1"
      "\<forall>x \<in> set n1. \<exists>d \<in> {''proxy'', ''env''}. x = injected_entry hdl d" by fastforce
  from Cons.prems one have "fold (inject_one ipc q sandboxID identity) hs (s1, w1) = (s', w')" by simp
  from Cons.IH [OF this] obtain es' m ns where b: "effects w' = effects w1 @ es'" "fs w' = fs w1" "balanced es'" "spawned es' = []"
      "audits es' = replicate m (inject_failed q sandboxID)" "m \<le> length hs" "serving (i_proxy s') = serving (i_proxy s1)"
      "same_policy (i_proxy s') (i_proxy s1)" "i_secrets s' = i_secrets s1 @ ns"
      "\<forall>x \<in> set ns. \<exists>hdl \<in> set hs. \<exists>d \<in> {''proxy'', ''env''}. x = injected_entry hdl d" by blast
  show ?case
  proof (intro exI conjI)
    show "effects w' = effects w @ (es @ es')" using a(1) b(1) by simp
    show "audits (es @ es') = replicate (n + m) (inject_failed q sandboxID)" using a(5) b(5) by (simp add: replicate_add)
    show "i_secrets s' = i_secrets s @ (n1 @ ns)" using n1(1) b(9) by simp
    show "\<forall>x \<in> set (n1 @ ns). \<exists>h \<in> set (hdl # hs). \<exists>d \<in> {''proxy'', ''env''}. x = injected_entry h d"
      using n1(2) b(10) by auto
  qed (use a b balanced_append in \<open>auto simp: same_policy_def\<close>)
qed

section \<open>Results\<close>

definition status_keys :: "string list" where
  "status_keys = [''sandbox_id'', ''tier'', ''duration_ms'', ''secrets_injected'', ''status'', ''limits'']"

definition full_result :: "RunRequest \<Rightarrow> string \<Rightarrow> limits \<Rightarrow> json list \<Rightarrow> json amap \<Rightarrow> bool" where
  "full_result q sandboxID lm secrets r \<longleftrightarrow> (\<exists>out err code ms st degraded truncated.
     r = [(''stdout'', JStr out), (''stderr'', JStr err), (''exit_code'', JInt code),
          (''sandbox_status'', JObj [(''sandbox_id'', JStr sandboxID), (''tier'', JStr (q_tier q)), (''duration_ms'', JInt ms),
             (''secrets_injected'', JArr secrets), (''status'', JStr st), (''limits'', limitsReport lm degraded truncated)])] \<and>
     (st = ''clean'' \<or> st = ''timeout'' \<and> code = 137 \<and> Timeout lm > 0) \<and>
     truncated \<in> {[], [''stdout''], [''stderr''], [''stdout'', ''stderr'']} \<and>
     (MaxOutputBytes lm > 0 \<longrightarrow> int (length out) \<le> MaxOutputBytes lm \<and> int (length err) \<le> MaxOutputBytes lm))"

lemma full_not_error: "full_result q i lm secrets r \<Longrightarrow> r \<noteq> run_error e"
  by (auto simp: full_result_def run_error_def)

lemma capped_length:
  assumes "0 < c"
  shows "int (length (cw_buf (cap_writes ps (newCapWriter c)))) \<le> c"
    and "int (length (cw_buf (snd (cap_write p (cap_writes ps (newCapWriter c)))))) \<le> c"
proof -
  have i: "cap_inv ([] @ concat ps) (cap_writes ps (newCapWriter c))"
    using assms by (intro cap_writes_inv cap_inv_new) (simp_all add: newCapWriter_def)
  have c: "cw_cap (cap_writes ps (newCapWriter c)) = c" by (simp add: newCapWriter_def)
  from i c show "int (length (cw_buf (cap_writes ps (newCapWriter c)))) \<le> c"
    using assms by (simp add: cap_inv_def)
  have "cap_inv (([] @ concat ps) @ p) (snd (cap_write p (cap_writes ps (newCapWriter c))))"
    using assms c by (intro cap_write_inv i) simp
  then show "int (length (cw_buf (snd (cap_write p (cap_writes ps (newCapWriter c)))))) \<le> c"
    using assms c by (simp add: cap_inv_def)
qed

lemma announce_D: "effects (announce ds w) = effects w @ map (\<lambda>d. Warn (''exec-sandbox: WARNING: '' @ d_reason d)) ds"
  by (induction ds arbitrary: w) (simp_all add: announce_def)

lemma run_result_full: "full_result q sandboxID lm secrets (run_result q sandboxID lm secrets degraded c)"
  and run_result_code: "fld (run_result q sandboxID lm secrets degraded c) ''exit_code'' = JInt (fst (exit_status lm c))"
proof -
  obtain out err where oe: "captured lm c = (out, err)" by fastforce
  obtain code st where x: "exit_status lm c = (code, st)" by fastforce
  have st: "st = ''clean'' \<or> st = ''timeout'' \<and> code = 137 \<and> Timeout lm > 0"
    using x by (auto simp: exit_status_def Let_def split: if_splits)
  have trunc: "outputTruncated out err \<in> {[], [''stdout''], [''stderr''], [''stdout'', ''stderr'']}"
    by (simp add: outputTruncated_def)
  have cap: "MaxOutputBytes lm > 0 \<longrightarrow> int (length (cw_buf out)) \<le> MaxOutputBytes lm \<and> int (length (cw_buf err)) \<le> MaxOutputBytes lm"
    using oe by (auto simp: captured_def Let_def capped_length split: sum.splits)
  show "full_result q sandboxID lm secrets (run_result q sandboxID lm secrets degraded c)"
    unfolding full_result_def run_result_def oe x Let_def prod.case
    by (intro exI conjI, rule refl, rule st, rule trunc, rule cap)
  show "fld (run_result q sandboxID lm secrets degraded c) ''exit_code'' = JInt (fst (exit_status lm c))"
    by (simp add: run_result_def oe x fld_def)
qed

lemma run_child_D:
  assumes "run_child ipc q sandboxID lm secrets h p w = (res, w')"
  shows "full_result q sandboxID lm secrets res \<and>
    (\<exists>es code ms st. effects w' = effects w @ es \<and> balanced es \<and> spawned es = [p_argv p] \<and>
      audits es = opt_event (w_auditSocket q) (exit_event q sandboxID code ms st) \<and> fld res ''exit_code'' = JInt code)"
proof -
  let ?w1 = "log_eff (Spawn (p_argv p)) (announce (p_degrades p) w)"
  define c where "c = h_child h (tick ?w1) (p_argv p) (p_files p) ?w1"
  obtain code st where x: "exit_status lm c = (code, st)" by fastforce
  let ?ev = "exit_event q sandboxID code (c_ms c) st"
  let ?warn = "map (\<lambda>d. Warn (''exec-sandbox: WARNING: '' @ d_reason d)) (p_degrades p)"
  let ?es = "?warn @ [Spawn (p_argv p)] @ map Audit (opt_event (w_auditSocket q) ?ev)"
  have res: "res = run_result q sandboxID lm secrets (map d_cap (p_degrades p)) c"
    and w': "w' = emit ipc (w_auditSocket q) ?ev (?w1\<lparr>fs := c_fs c, tick := Suc (tick ?w1)\<rparr>)"
    using assms by (simp_all add: run_child_def Let_def x flip: c_def)
  have e: "effects w' = effects w @ ?es" by (simp add: w' emit_D announce_D)
  have b: "balanced ?es" by (rule balanced_no_listen) auto
  show ?thesis
    by (intro conjI exI [of _ ?es] exI [of _ code] exI [of _ "c_ms c"] exI [of _ st] e b)
      (simp_all add: res run_result_full run_result_code x del: append.simps)
qed

section \<open>Through the tier contract\<close>

context tier_backend
begin

lemma run_tier_trail:
  assumes "run_tier Argv ipc q sandboxID lm workdir fileReads b s h w = (res, w')"
  shows "\<exists>es. effects w' = effects w @ es \<and> balanced es \<and>
    ((\<exists>e. res = run_error e) \<and> audits es = [] \<and> spawned es = [] \<or>
     full_result q sandboxID lm (i_secrets s) res \<and>
       (\<exists>argv code ms st. argv \<noteq> [] \<and> spawned es = [argv] \<and> fld res ''exit_code'' = JInt code \<and>
         audits es = opt_event (w_auditSocket q) (exit_event q sandboxID code ms st)))"
proof -
  obtain r w1 where a: "Argv h (scriptPath b) (proxySock b) workdir fileReads (q_env q) (pairs (i_env s)) lm w = (r, w1)"
    by fastforce
  from prepares [OF a] obtain es where es: "effects w1 = effects w @ es" "list_all internal es"
    and r: "case r of Inl e \<Rightarrow> balanced es
       | Inr p \<Rightarrow> p_argv p \<noteq> [] \<and>
           (case p_cleanup p of None \<Rightarrow> balanced es
            | Some c \<Rightarrow> \<forall>v. \<exists>es'. effects (c h v) = effects v @ es' \<and> list_all internal es' \<and> balanced (es @ es'))" by blast
  note tr = internal_trail [OF es(2)]
  show ?thesis
  proof (cases r)
    case (Inl e)
    with assms a r es(1) tr show ?thesis by (intro exI [of _ es]) (auto simp: run_tier_def)
  next
    case (Inr p)
    obtain res2 w2 where c: "run_child ipc q sandboxID lm (i_secrets s) h p w1 = (res2, w2)" by fastforce
    have out: "res = res2" "w' = (case p_cleanup p of None \<Rightarrow> w2 | Some c \<Rightarrow> c h w2)"
      using assms a Inr c by (simp_all add: run_tier_def)
    from run_child_D [OF c] obtain cs code ms st where cs: "effects w2 = effects w1 @ cs" "balanced cs" "spawned cs = [p_argv p]"
        "audits cs = opt_event (w_auditSocket q) (exit_event q sandboxID code ms st)" "fld res2 ''exit_code'' = JInt code"
        "full_result q sandboxID lm (i_secrets s) res2" by blast
    obtain es' where e': "effects w' = effects w2 @ es'" "list_all internal es'" "balanced (es @ es')"
    proof (cases "p_cleanup p")
      case None
      with out r Inr that [of "[]"] show thesis by simp
    next
      case (Some cl)
      with r Inr have "\<exists>es'. effects (cl h w2) = effects w2 @ es' \<and> list_all internal es' \<and> balanced (es @ es')" by simp
      with out Some that show thesis by auto
    qed
    note tr' = internal_trail [OF e'(2)]
    have "balanced (es @ cs @ es')" using cs(2) e'(3) by (simp add: balanced_def)
    moreover have "p_argv p \<noteq> []" using r Inr by simp
    ultimately show ?thesis
      using es(1) cs e'(1) tr tr' out by (intro exI [of _ "es @ cs @ es'"]) auto
  qed
qed

end

lemma backendFor_contract: "backendFor g emb tier = Inr Argv \<Longrightarrow> tier_backend Argv"
  by (auto simp: backendFor_def tier1.tier_backend_axioms tier2.tier_backend_axioms tier3.tier_backend_axioms
      split: if_splits)

lemma Start_D:
  assumes "Start h sock p w = (r, p', w')"
  shows "effects w' = effects w @ (case r of Inl e \<Rightarrow> [] | Inr _ \<Rightarrow> [Listen sock]) \<and>
    p' = (case r of Inl e \<Rightarrow> p | Inr _ \<Rightarrow> p\<lparr>serving := Some sock\<rparr>)"
proof -
  obtain x w1 where l: "listen_unix h sock 0x180 w = (x, w1)" by fastforce
  show ?thesis using assms listen_unix_D [OF l] by (cases x) (auto simp: Start_def l)
qed

lemma teardown_D:
  assumes "teardown h b p w = (p', w')"
  shows "p' = Wipe p \<and> effects w' = effects w \<and>
    (work b \<noteq> [] \<and> (\<forall>n. h_fault h n (OpRemoveAll (work b)) = None) \<longrightarrow> (\<forall>x. inside (work b) x \<longrightarrow> map_of (fs w') x = None))"
  using assms by (auto simp: teardown_def os_remove_all_def sys_def map_of_drop_tree split: if_splits option.splits fault.splits)

lemma snapshot_D:
  assumes "snapshotBaseline h pl w = (r, w')"
  shows "effects w' = effects w \<and> (\<forall>b. r = Inr b \<longrightarrow> (\<exists>t. work b = h_tmp h t ''exec-sandbox-''))"
proof -
  obtain x w1 where mk: "os_mkdir_temp h ''exec-sandbox-'' w = (x, w1)" by fastforce
  show ?thesis
  proof (cases x)
    case (Inr d)
    let ?b = "\<lparr>work = d, payload = pl, proxySock = path_join [d, ''proxy.sock'']\<rparr>"
    obtain y w2 where sd: "seed h ?b w1 = (y, w2)" by fastforce
    have "effects w2 = effects w1" using sd os_write_D(2) by (auto simp: seed_def)
    then show ?thesis
      using assms os_mkdir_temp_D [OF mk] Inr sd
      by (cases y) (auto simp: snapshotBaseline_def mk Let_def)
  qed (use assms os_mkdir_temp_D [OF mk] in \<open>auto simp: snapshotBaseline_def mk\<close>)
qed

text \<open>What every exit of \<open>run_admitted\<close> guarantees.\<close>

definition clean_exit :: "host \<Rightarrow> run_exit \<Rightarrow> world \<Rightarrow> bool" where
  "clean_exit h x w \<longleftrightarrow> creds (x_proxy x) = [] \<and> serving (x_proxy x) = None \<and> vars (x_env x) = [] \<and>
     (\<forall>b. x_base x = Some b \<longrightarrow> work b \<noteq> [] \<and> (\<forall>n. h_fault h n (OpRemoveAll (work b)) = None) \<longrightarrow>
       (\<forall>p. inside (work b) p \<longrightarrow> map_of (fs w) p = None))"

definition secrets_ok :: "RunRequest \<Rightarrow> json list \<Rightarrow> bool" where
  "secrets_ok q secrets \<longleftrightarrow> (\<forall>x \<in> set secrets. \<exists>hdl \<in> set (q_secretRefs q). \<exists>d \<in> {''proxy'', ''env''}. x = injected_entry hdl d)"

text \<open>
  The ends of a run: refused or failed after the spawn event with no terminal event, failed to start the
  proxy, or the payload was started. \<open>tail\<close> is what follows the spawn and inject events.
\<close>

definition run_end :: "RunRequest \<Rightarrow> string \<Rightarrow> limits \<Rightarrow> json list \<Rightarrow> json amap \<Rightarrow> json list \<Rightarrow> string list list \<Rightarrow> bool" where
  "run_end q sandboxID lm secrets res tail spawns \<longleftrightarrow>
     (\<exists>e. res = run_error e) \<and> tail = [] \<and> spawns = [] \<or>
     (\<exists>e. res = run_error (''proxy start failed: '' @ e) \<and> tail = opt_event (w_auditSocket q) (start_failed q sandboxID e)) \<and> spawns = [] \<or>
     full_result q sandboxID lm secrets res \<and>
       (\<exists>argv code ms st. argv \<noteq> [] \<and> spawns = [argv] \<and> fld res ''exit_code'' = JInt code \<and>
         tail = opt_event (w_auditSocket q) (exit_event q sandboxID code ms st))"

lemma run_served_D:
  assumes "run_served g emb ipc q sandboxID lm workdir fileReads b s h w = (x, w')"
    and "serving (i_proxy s) = Some (proxySock b)"
  shows "clean_exit h x w' \<and> x_base x = Some b \<and> (\<exists>es. effects w' = effects w @ es @ [Unlisten (proxySock b)] \<and> balanced es \<and>
    run_end q sandboxID lm (i_secrets s) (x_result x) (audits es) (spawned es))"
proof -
  obtain res w1 where t: "(case backendFor g emb (q_tier q) of Inl e \<Rightarrow> (run_error e, w)
      | Inr Argv \<Rightarrow> run_tier Argv ipc q sandboxID lm workdir fileReads b s h w) = (res, w1)" by fastforce
  have "\<exists>es. effects w1 = effects w @ es \<and> balanced es \<and> run_end q sandboxID lm (i_secrets s) res (audits es) (spawned es)"
  proof (cases "backendFor g emb (q_tier q)")
    case (Inl e)
    with t show ?thesis by (intro exI [of _ "[]"]) (auto simp: run_end_def)
  next
    case (Inr Argv)
    with t have "run_tier Argv ipc q sandboxID lm workdir fileReads b s h w = (res, w1)" by simp
    from tier_backend.run_tier_trail [OF backendFor_contract [OF Inr] this] show ?thesis
      unfolding run_end_def by blast
  qed
  then obtain es where es: "effects w1 = effects w @ es" "balanced es" "run_end q sandboxID lm (i_secrets s) res (audits es) (spawned es)"
    by blast
  have st: "Stop (i_proxy s) w1 = ((i_proxy s)\<lparr>serving := None\<rparr>, unlisten (proxySock b) w1)"
    using assms(2) by (simp add: Stop_def)
  obtain p2 w3 where td: "teardown h b (Wipe ((i_proxy s)\<lparr>serving := None\<rparr>)) (unlisten (proxySock b) w1) = (p2, w3)" by fastforce
  have x: "x = \<lparr>x_result = res, x_proxy = p2, x_env = env_Wipe (i_env s), x_base = Some b\<rparr>" "w' = w3"
    using assms(1) by (simp_all add: run_served_def t st td Let_def)
  note D = teardown_D [OF td]
  have "clean_exit h x w'"
    using D by (simp add: clean_exit_def x env_Wipe_def)
  moreover have "effects w' = effects w @ es @ [Unlisten (proxySock b)]"
    using D es(1) x by simp
  ultimately show ?thesis using es x by auto
qed

text \<open>From a proxy that could be started: it is stopped again, and its socket closed.\<close>

lemma run_started_D:
  assumes "Start h (proxySock b) (i_proxy s) w = (Inr u, p, w1)"
    and "run_served g emb ipc q sandboxID lm workdir fileReads b (s\<lparr>i_proxy := p\<rparr>) h w1 = (x, w')"
  shows "clean_exit h x w' \<and> x_base x = Some b \<and> (\<exists>es. effects w' = effects w @ es \<and> balanced es \<and>
    run_end q sandboxID lm (i_secrets s) (x_result x) (audits es) (spawned es))"
proof -
  note S = Start_D [OF assms(1)]
  then have "serving p = Some (proxySock b)" by simp
  then obtain es where es: "effects w' = effects w1 @ es @ [Unlisten (proxySock b)]" "balanced es"
      "run_end q sandboxID lm (i_secrets s) (x_result x) (audits es) (spawned es)"
    and x: "clean_exit h x w'" "x_base x = Some b"
    using run_served_D [OF assms(2)] by auto
  have "balanced ([Listen (proxySock b)] @ es @ [Unlisten (proxySock b)])"
    using es(2) by (simp add: balanced_def)
  moreover have "effects w' = effects w @ ([Listen (proxySock b)] @ es @ [Unlisten (proxySock b)])"
    using es(1) S by simp
  ultimately show ?thesis
    using x es(3) by (intro conjI exI [of _ "[Listen (proxySock b)] @ es @ [Unlisten (proxySock b)]"]) auto
qed

lemma run_admitted_D:
  assumes "run_admitted g emb ipc q sandboxID identity lm workdir fileReads h w = (x, w')"
  shows "clean_exit h x w' \<and> (\<forall>b. x_base x = Some b \<longrightarrow> (\<exists>t. work b = h_tmp h t ''exec-sandbox-'')) \<and>
    (\<exists>es n tail secrets. effects w' = effects w @ es \<and> balanced es \<and> n \<le> length (q_secretRefs q) \<and>
    audits es = opt_event (w_auditSocket q) (spawn_event q sandboxID) @ replicate n (inject_failed q sandboxID) @ tail \<and>
    secrets_ok q secrets \<and> run_end q sandboxID lm secrets (x_result x) tail (spawned es))"
proof -
  let ?sp = "map Audit (opt_event (w_auditSocket q) (spawn_event q sandboxID))"
  let ?w1 = "emit ipc (w_auditSocket q) (spawn_event q sandboxID) w"
  let ?p = "NewEgressProxy (netAllowlist (as_obj (q_profile q))) (netVerbAllowlist g (as_obj (q_profile q))) (w_originMap q)"
  have newp: "creds ?p = [] \<and> serving ?p = None" by (simp add: NewEgressProxy_def)
  obtain r w2 where sn: "snapshotBaseline h (q_payload q) ?w1 = (r, w2)" by fastforce
  have e2: "effects w2 = effects w @ ?sp" using snapshot_D [OF sn] by (simp add: emit_D)
  have wk: "\<exists>t. work b = h_tmp h t ''exec-sandbox-''" if "r = Inr b" for b using snapshot_D [OF sn] that by blast
  show ?thesis
  proof (cases r)
    case (Inl e)
    then have x: "x = \<lparr>x_result = run_error (''baseline prepare failed: '' @ e), x_proxy = ?p, x_env = NewEnvCredentials, x_base = None\<rparr>"
        "w' = w2" using assms by (simp_all add: run_admitted_def sn Let_def)
    have "clean_exit h x w'" using newp by (simp add: clean_exit_def x NewEnvCredentials_def)
    then show ?thesis
      using e2 by (intro conjI exI [of _ ?sp] exI [of _ 0] exI [of _ "[]"])
        (auto simp: x run_end_def secrets_ok_def)
  next
    case (Inr b)
    obtain s w3 where inj: "inject_all ipc q sandboxID identity (\<lparr>i_proxy = ?p, i_env = NewEnvCredentials, i_secrets = []\<rparr>, w2) = (s, w3)"
      by fastforce
    from inject_all_D [OF inj [unfolded inject_all_def]] obtain ies n where
      i: "effects w3 = effects w2 @ ies" "balanced ies" "spawned ies = []" "audits ies = replicate n (inject_failed q sandboxID)"
        "n \<le> length (q_secretRefs q)" "serving (i_proxy s) = None"
      and sec: "secrets_ok q (i_secrets s)"
      using newp unfolding secrets_ok_def by auto
    obtain r3 p3 w4 where st: "Start h (proxySock b) (i_proxy s) w3 = (r3, p3, w4)" by (metis prod.collapse)
    note S = Start_D [OF st]
    show ?thesis
    proof (cases r3)
      case (Inl e)
      let ?ev = "start_failed q sandboxID e"
      obtain p' w6 where td: "teardown h b p3 (emit ipc (w_auditSocket q) ?ev w4) = (p', w6)" by fastforce
      have x: "x = \<lparr>x_result = run_error (''proxy start failed: '' @ e), x_proxy = p', x_env = env_Wipe (i_env s), x_base = Some b\<rparr>"
        "w' = w6" using assms by (simp_all add: run_admitted_def sn Inr inj st Inl td Let_def)
      note D = teardown_D [OF td]
      have "p3 = i_proxy s" using S Inl by simp
      then have "clean_exit h x w'" using D i(6) by (simp add: clean_exit_def x env_Wipe_def)
      moreover have "effects w' = effects w @ (?sp @ ies @ map Audit (opt_event (w_auditSocket q) ?ev))"
        using D S Inl i(1) e2 by (simp add: x emit_D)
      moreover have "balanced (?sp @ ies @ map Audit (opt_event (w_auditSocket q) ?ev))"
        using i(2) by (simp add: balanced_append)
      ultimately show ?thesis
        using i sec wk [OF \<open>r = Inr b\<close>] by (intro conjI exI [of _ "?sp @ ies @ map Audit (opt_event (w_auditSocket q) ?ev)"] exI [of _ n]
            exI [of _ "opt_event (w_auditSocket q) ?ev"] exI [of _ "i_secrets s"]) (auto simp: x run_end_def)
    next
      case (Inr u)
      then have "run_served g emb ipc q sandboxID lm workdir fileReads b (s\<lparr>i_proxy := p3\<rparr>) h w4 = (x, w')"
        using assms by (simp add: run_admitted_def sn \<open>r = Inr b\<close> inj st Let_def)
      from run_started_D [OF st [unfolded Inr] this] obtain es where
        xb: "x_base x = Some b" and es: "clean_exit h x w'" "effects w' = effects w3 @ es" "balanced es"
          "run_end q sandboxID lm (i_secrets s) (x_result x) (audits es) (spawned es)" by blast
      have "balanced (?sp @ ies @ es)" using balanced_append [OF balanced_maps(2) balanced_append [OF i(2) es(3)]] .
      moreover have "effects w' = effects w @ (?sp @ ies @ es)" using es(2) i(1) e2 by simp
      ultimately show ?thesis
        using es xb i sec wk [OF \<open>r = Inr b\<close>] by (intro conjI exI [of _ "?sp @ ies @ es"] exI [of _ n] exI [of _ "audits es"] exI [of _ "i_secrets s"]) auto
    qed
  qed
qed

section \<open>The whole run\<close>

lemma mint_identity_frame:
  assumes "mint_identity g k q sandboxID h w = (r, w')"
  shows "fs w' = fs w \<and> effects w' = effects w"
proof -
  have load: "fs v' = fs v \<and> effects v' = effects v" if "loadSigningKey k h p v = (a, v')" for p v a v'
    using that os_stat_D os_read_D(1) by (fastforce simp: loadSigningKey_def Let_def split: prod.splits sum.splits if_splits)
  have host: "fs v' = fs v \<and> effects v' = effects v" if "mintHostAttestation g h a s t pr v = (b, v')" for a s t pr v b v'
    using that os_read_D(3,4) by (fastforce simp: mintHostAttestation_def Let_def split: prod.splits)
  have self: "fs v' = fs v \<and> effects v' = effects v" if "mintAttestation g k h s v = (b, v')" for s v b v'
  proof (cases "k_gen k (tick v)")
    case (Inr priv)
    obtain no v1 where r: "randHex h 16 (v\<lparr>tick := Suc (tick v)\<rparr>) = (no, v1)" by fastforce
    obtain ts v2 where t: "now_rfc3339 h v1 = (ts, v2)" by fastforce
    show ?thesis
      using that os_read_D(3) [OF r] os_read_D(4) [OF t] by (auto simp: mintAttestation_def Inr r t Let_def)
  qed (use that in \<open>auto simp: mintAttestation_def\<close>)
  show ?thesis
    using assms by (auto simp: mint_identity_def dest!: load host self split: if_splits prod.splits sum.splits)
qed

lemma Run_cases:
  assumes "Run g k emb ipc q h w = (x, w')"
  obtains (refused) e where "x = \<lparr>x_result = run_error e, x_proxy = NewEgressProxy [] [] [], x_env = NewEnvCredentials, x_base = None\<rparr>"
      "fs w' = fs w" "effects w' = effects w"
  | (admitted) workdir fileReads hex identity v where "fs v = fs w" "effects v = effects w"
      "run_admitted g emb ipc q (''sbx-'' @ hex) identity (parseLimits g (as_obj (q_profile q))) workdir fileReads h v = (x, w')"
proof -
  obtain r1 w1 where v1: "validateWorkdir h (q_workdir q) w = (r1, w1)" by fastforce
  have f1: "fs w1 = fs w" "effects w1 = effects w" using validateWorkdir_frame [of h "q_workdir q" w] v1 by simp_all
  obtain r2 w2 where v2: "validateFileReads g h (fileReadPaths (as_obj (q_profile q))) w1 = (r2, w2)" by fastforce
  have f2: "fs w2 = fs w" "effects w2 = effects w"
    using validateFileReads_frame [of g h "fileReadPaths (as_obj (q_profile q))" w1] v2 f1 by simp_all
  obtain hex w3 where r: "randHex h 6 w2 = (hex, w3)" by fastforce
  obtain r4 w4 where m: "mint_identity g k q (''sbx-'' @ hex) h w3 = (r4, w4)" by fastforce
  have f4: "fs w4 = fs w" "effects w4 = effects w" using mint_identity_frame [OF m] os_read_D(3) [OF r] f2 by simp_all
  show thesis
  proof (cases r1)
    case (Inl e)
    with assms v1 f1 show thesis by (intro refused) (auto simp: Run_def Let_def)
  next
    case (Inr wd)
    note r1 = this
    show thesis
    proof (cases r2)
      case (Inl e)
      with assms v1 r1 v2 f2 show thesis by (intro refused) (auto simp: Run_def Let_def)
    next
      case (Inr u)
      note r2 = this
      show thesis
      proof (cases r4)
        case (Inl e)
        with assms v1 r1 v2 r2 r m f4 show thesis by (intro refused) (auto simp: Run_def Let_def)
      next
        case (Inr identity)
        then show thesis using assms v1 r1 v2 r2 r m f4 admitted [of w4 hex identity wd] by (simp add: Run_def Let_def)
      qed
    qed
  qed
qed

text \<open>C5: Every run returns a well-formed result, whatever the request, the host, the vault and the payload
  do: either exactly one key error with a message, or exactly stdout, stderr, exit_code and
  sandbox_status with their types; status is clean or timeout, a timeout has exit code 137 and a
  deadline was requested, the two streams respect max_output_bytes, and secrets_injected lists only
  delivery modes and at most eight bytes of handles of the request, never a value.\<close>

theorem run_result_schema:
  assumes "Run g k emb ipc q h w = (x, w')"
  shows "(\<exists>e. x_result x = [(''error'', JStr e)]) \<or>
    (\<exists>out err code ms hex st secrets degraded truncated.
      x_result x = [(''stdout'', JStr out), (''stderr'', JStr err), (''exit_code'', JInt code),
        (''sandbox_status'', JObj [(''sandbox_id'', JStr (''sbx-'' @ hex)), (''tier'', JStr (q_tier q)), (''duration_ms'', JInt ms),
           (''secrets_injected'', JArr secrets), (''status'', JStr st),
           (''limits'', limitsReport (parseLimits g (as_obj (q_profile q))) degraded truncated)])] \<and>
      (st = ''clean'' \<or> st = ''timeout'' \<and> code = 137 \<and> Timeout (parseLimits g (as_obj (q_profile q))) > 0) \<and>
      truncated \<in> {[], [''stdout''], [''stderr''], [''stdout'', ''stderr'']} \<and>
      (MaxOutputBytes (parseLimits g (as_obj (q_profile q))) \<le> 0 \<or>
        int (length out) \<le> MaxOutputBytes (parseLimits g (as_obj (q_profile q))) \<and>
        int (length err) \<le> MaxOutputBytes (parseLimits g (as_obj (q_profile q)))) \<and>
      (\<forall>s \<in> set secrets. \<exists>hdl \<in> set (q_secretRefs q). \<exists>d \<in> {''proxy'', ''env''}.
        s = JObj [(''handle_prefix'', JStr (take 8 hdl)), (''delivery'', JStr d)]))"
  using assms
proof (cases rule: Run_cases)
  case (refused e)
  then show ?thesis by (simp add: run_error_def)
next
  case (admitted workdir fileReads hex identity v)
  let ?lm = "parseLimits g (as_obj (q_profile q))"
  from run_admitted_D [OF admitted(3)] obtain secrets tail sp where
    s: "secrets_ok q secrets" and e: "run_end q (''sbx-'' @ hex) ?lm secrets (x_result x) tail sp" by blast
  have entry: "injected_entry hdl d = JObj [(''handle_prefix'', JStr (take 8 hdl)), (''delivery'', JStr d)]" for hdl d
    by (simp add: injected_entry_def prefix_n_def)
  from e consider (err) m where "x_result x = run_error m" | (full) "full_result q (''sbx-'' @ hex) ?lm secrets (x_result x)"
    unfolding run_end_def by blast
  then show ?thesis
  proof cases
    case full
    then obtain out err code ms st degraded truncated where f:
      "x_result x = [(''stdout'', JStr out), (''stderr'', JStr err), (''exit_code'', JInt code),
          (''sandbox_status'', JObj [(''sandbox_id'', JStr (''sbx-'' @ hex)), (''tier'', JStr (q_tier q)), (''duration_ms'', JInt ms),
             (''secrets_injected'', JArr secrets), (''status'', JStr st), (''limits'', limitsReport ?lm degraded truncated)])]"
      "st = ''clean'' \<or> st = ''timeout'' \<and> code = 137 \<and> Timeout ?lm > 0"
      "truncated \<in> {[], [''stdout''], [''stderr''], [''stdout'', ''stderr'']}"
      "MaxOutputBytes ?lm > 0 \<longrightarrow> int (length out) \<le> MaxOutputBytes ?lm \<and> int (length err) \<le> MaxOutputBytes ?lm"
      unfolding full_result_def by blast
    have cap: "MaxOutputBytes ?lm \<le> 0 \<or> int (length out) \<le> MaxOutputBytes ?lm \<and> int (length err) \<le> MaxOutputBytes ?lm"
      using f(4) by linarith
    show ?thesis
      by (rule disjI2) (intro exI conjI, rule f(1), rule f(2), rule f(3), rule cap, rule s [unfolded secrets_ok_def entry])
  qed (simp add: run_error_def)
qed



section \<open>Proxy-mode credentials\<close>

text \<open>Two answers of the vault that differ at most in the credential of a proxy-mode delivery.\<close>

definition same_but_secret :: "json amap res \<Rightarrow> json amap res \<Rightarrow> bool" where
  "same_but_secret r r' \<longleftrightarrow> (case r of
     Inl e \<Rightarrow> r' = Inl e
   | Inr m \<Rightarrow> (\<exists>m'. r' = Inr m' \<and> (\<forall>k. k \<noteq> ''credential'' \<longrightarrow> fld m' k = fld m k) \<and>
       (fld m ''delivery'' = JStr ''proxy'' \<or> fld m' ''credential'' = fld m ''credential'')))"

definition blind :: "injected \<Rightarrow> injected \<Rightarrow> bool" where
  "blind s s' \<longleftrightarrow> i_env s' = i_env s \<and> i_secrets s' = i_secrets s \<and> Wipe (i_proxy s') = Wipe (i_proxy s)"

lemma Wipe_simps [simp]:
  "Wipe (SetCredential h c p) = Wipe p" "Wipe (p\<lparr>serving := x\<rparr>) = (Wipe p)\<lparr>serving := x\<rparr>" "Wipe (Wipe p) = Wipe p"
  by (simp_all add: Wipe_def SetCredential_def)

lemma Stop_blind:
  assumes "Wipe p' = Wipe p"
  shows "Wipe (fst (Stop p' v)) = Wipe (fst (Stop p v)) \<and> snd (Stop p' v) = snd (Stop p v)"
proof -
  have "serving p' = serving p" using arg_cong [OF assms, of serving] by simp
  with assms show ?thesis by (simp add: Stop_def split: option.splits)
qed

lemma emit_any: "emit ipc socket ev w = emit ipc' socket ev w"
  by (simp add: emit_def ipcCall_def)

lemma run_child_any: "run_child ipc' q i lm secrets h p w = run_child ipc q i lm secrets h p w"
  by (simp add: run_child_def emit_any [of ipc' _ _ _ ipc])

lemma run_tier_blind:
  assumes "blind s s'"
  shows "run_tier Argv ipc' q sandboxID lm workdir fileReads b s' h w = run_tier Argv ipc q sandboxID lm workdir fileReads b s h w"
proof -
  have e: "i_env s' = i_env s" "i_secrets s' = i_secrets s" using assms by (simp_all add: blind_def)
  show ?thesis unfolding run_tier_def run_child_any [of ipc' _ _ _ _ _ _ _ ipc] e ..
qed

lemma inject_one_blind:
  assumes "\<forall>t sock r. same_but_secret (ipc t sock r) (ipc' t sock r)" and "blind s s'"
    and "inject_one ipc q sandboxID identity hdl (s, w) = (s1, w1)"
  shows "\<exists>s1'. inject_one ipc' q sandboxID identity hdl (s', w) = (s1', w1) \<and> blind s1 s1'"
proof -
  obtain r v where a: "vaultInject ipc (w_vaultSocket q) hdl identity (w_injectionMode q) w = (r, v)" by fastforce
  obtain r' where a': "vaultInject ipc' (w_vaultSocket q) hdl identity (w_injectionMode q) w = (r', v)" and same: "same_but_secret r r'"
    using a assms(1) by (auto simp: vaultInject_def ipcCall_def Let_def same_but_secret_def split: if_splits)
  note em = emit_any [of ipc' _ _ _ ipc]
  show ?thesis
  proof (cases r)
    case (Inl e)
    with same show ?thesis using assms(2,3) a a' em by (auto simp: inject_one_def same_but_secret_def)
  next
    case (Inr m)
    with same obtain m' where m': "r' = Inr m'" "\<And>k. k \<noteq> ''credential'' \<Longrightarrow> fld m' k = fld m k"
        "fld m ''delivery'' = JStr ''proxy'' \<or> fld m' ''credential'' = fld m ''credential''"
      by (auto simp: same_but_secret_def)
    have k: "fld m' ''error'' = fld m ''error''" "fld m' ''delivery'' = fld m ''delivery''" "fld m' ''binding'' = fld m ''binding''"
        "fld m' ''var_name'' = fld m ''var_name''"
      by (rule m'(2), simp)+
    have b: "i_env s' = i_env s" "i_secrets s' = i_secrets s" "Wipe (i_proxy s') = Wipe (i_proxy s)"
      using assms(2) by (auto simp: blind_def)
    show ?thesis
    proof (cases "fld m ''error'' \<noteq> JNull")
      case True
      then show ?thesis using assms(2,3) a a' Inr m'(1) k em by (auto simp: inject_one_def)
    next
      case False
      show ?thesis
      proof (cases "fld m ''delivery'' = JStr ''proxy''")
        case True
        then show ?thesis
          using assms(3) a a' Inr m'(1) k True False b by (auto simp: inject_one_def Let_def blind_def)
      next
        case noproxy: False
        then have c: "fld m' ''credential'' = fld m ''credential''" using m'(3) by blast
        show ?thesis
          using assms(2,3) a a' Inr m'(1) k c noproxy False b em
          by (cases "str (fld m ''var_name'') = []") (auto simp: inject_one_def Let_def blind_def)
      qed
    qed
  qed
qed

lemma inject_all_blind:
  assumes "\<forall>t sock r. same_but_secret (ipc t sock r) (ipc' t sock r)" and "blind s s'"
    and "fold (inject_one ipc q sandboxID identity) hs (s, w) = (s1, w1)"
  shows "\<exists>s1'. fold (inject_one ipc' q sandboxID identity) hs (s', w) = (s1', w1) \<and> blind s1 s1'"
  using assms(2,3)
proof (induction hs arbitrary: s s' w)
  case (Cons hdl hs)
  obtain s2 w2 where one: "inject_one ipc q sandboxID identity hdl (s, w) = (s2, w2)" by fastforce
  from inject_one_blind [OF assms(1) Cons.prems(1) one] obtain s2' where
    two: "inject_one ipc' q sandboxID identity hdl (s', w) = (s2', w2)" "blind s2 s2'" by blast
  from Cons.IH [OF two(2)] Cons.prems(2) one two(1) show ?case by simp
qed simp

lemma run_served_blind:
  assumes "blind s s'"
  shows "run_served g emb ipc' q sandboxID lm workdir fileReads b s' h w = run_served g emb ipc q sandboxID lm workdir fileReads b s h w"
proof -
  have e: "i_env s' = i_env s" and p: "Wipe (i_proxy s') = Wipe (i_proxy s)" using assms by (simp_all add: blind_def)
  have t: "(case backendFor g emb (q_tier q) of Inl e \<Rightarrow> (run_error e, w)
        | Inr Argv \<Rightarrow> run_tier Argv ipc' q sandboxID lm workdir fileReads b s' h w) =
      (case backendFor g emb (q_tier q) of Inl e \<Rightarrow> (run_error e, w)
        | Inr Argv \<Rightarrow> run_tier Argv ipc q sandboxID lm workdir fileReads b s h w)"
    using run_tier_blind [OF assms] by (simp split: sum.splits)
  show ?thesis
    unfolding run_served_def t e Let_def split_def using Stop_blind [OF p] by simp
qed

text \<open>C4: Proxy-mode secrets never leave the proxy: two runs whose vaults answer alike except for the values of
  proxy-mode credentials are the same run: same result, same audit events and vault requests, same spawn
  argument vector, inherited files and sandbox environment, same file system, same state at exit. So no
  proxy-mode credential value can reach the sandbox, the log or the caller, other than through requests
  the proxy itself forwards (which theory Proxy is about).\<close>

theorem run_blind_to_proxy_secrets:
  assumes "\<forall>t sock r. same_but_secret (ipc t sock r) (ipc' t sock r)"
  shows "Run g k emb ipc' q h w = Run g k emb ipc q h w"
proof -
  have "run_admitted g emb ipc' q sandboxID identity lm workdir fileReads h v =
      run_admitted g emb ipc q sandboxID identity lm workdir fileReads h v" for sandboxID identity lm workdir fileReads v
  proof -
    let ?p = "NewEgressProxy (netAllowlist (as_obj (q_profile q))) (netVerbAllowlist g (as_obj (q_profile q))) (w_originMap q)"
    note em = emit_any [of ipc' _ _ _ ipc]
    obtain r w2 where sn: "snapshotBaseline h (q_payload q) (emit ipc (w_auditSocket q) (spawn_event q sandboxID) v) = (r, w2)" by fastforce
    show ?thesis
    proof (cases r)
      case (Inl e)
      then show ?thesis by (simp add: run_admitted_def em sn Let_def)
    next
      case (Inr b)
      let ?s0 = "\<lparr>i_proxy = ?p, i_env = NewEnvCredentials, i_secrets = []\<rparr>"
      obtain s w3 where inj: "inject_all ipc q sandboxID identity (?s0, w2) = (s, w3)" by fastforce
      have "blind ?s0 ?s0" by (simp add: blind_def)
      from inject_all_blind [OF assms this inj [unfolded inject_all_def]] obtain s' where
        inj': "inject_all ipc' q sandboxID identity (?s0, w2) = (s', w3)" and bl: "blind s s'"
        by (auto simp: inject_all_def)
      have cs: "Wipe (i_proxy s') = Wipe (i_proxy s)" "i_env s' = i_env s" "i_secrets s' = i_secrets s"
        using bl by (auto simp: blind_def)
      obtain x w4 where l: "listen_unix h (proxySock b) 0x180 w3 = (x, w4)" by fastforce
      show ?thesis
      proof (cases x)
        case (Inl e)
        then show ?thesis
          by (simp add: run_admitted_def em sn Inr inj inj' Start_def l cs teardown_def Let_def)
      next
        case (Inr u)
        have "blind (s\<lparr>i_proxy := (i_proxy s)\<lparr>serving := Some (proxySock b)\<rparr>\<rparr>)
            (s'\<lparr>i_proxy := (i_proxy s')\<lparr>serving := Some (proxySock b)\<rparr>\<rparr>)"
          using cs by (auto simp: blind_def)
        from run_served_blind [OF this] show ?thesis
          by (simp add: run_admitted_def em sn \<open>r = Inr b\<close> inj inj' Start_def l Inr Let_def)
      qed
    qed
  qed
  then show ?thesis unfolding Run_def Let_def by (simp only:)
qed

section \<open>Witnesses\<close>

definition sample_req :: "string \<Rightarrow> RunRequest" where
  "sample_req tier = \<lparr>q_payload = ''echo hi'', q_profile = JNull, q_tier = tier, q_secretRefs = [''handle-123''],
     q_workdir = [], q_env = [], w_vaultSocket = ''/v'', w_auditSocket = ''/a'', w_originMap = [],
     w_requestID = ''r1'', w_injectionMode = ''proxy'', w_attestationKey = []\<rparr>"

definition sample_ipc :: "string \<Rightarrow> ipc" where
  "sample_ipc secret t sock r = Inr (if sock = ''/v'' then [(''delivery'', JStr ''proxy''), (''credential'', JStr secret),
     (''binding'', JObj [(''host'', JStr ''api.x'')])] else [])"

lemma sample_serves:
  obtains hex b s v where
    "Run sample_lib sample_pki sample_embedded (sample_ipc secret) (sample_req tier) sample_host bare_world =
      run_served sample_lib sample_embedded (sample_ipc secret) (sample_req tier) (''sbx-'' @ hex) no_limits [] [] b s sample_host v"
    and "work b = ''/tmp/exec-sandbox-1''" and "audits (effects v) = [spawn_event (sample_req tier) (''sbx-'' @ hex)]"
    and "serving (i_proxy s) = Some (proxySock b)" and "i_secrets s = [injected_entry ''handle-123'' ''proxy'']"
proof -
  let ?q = "sample_req tier" and ?ipc = "sample_ipc secret"
  have t: "trim_space [] = []" by code_simp
  have v1: "validateWorkdir sample_host [] bare_world = (Inr [], bare_world)" by (simp add: validateWorkdir_def t)
  obtain hex w3 where r: "randHex sample_host 6 bare_world = (hex, w3)" by fastforce
  let ?id = "''sbx-'' @ hex"
  obtain identity w4 where m: "mint_identity sample_lib sample_pki ?q ?id sample_host w3 = (Inr identity, w4)"
  proof -
    obtain no v1 where a: "randHex sample_host 16 (w3\<lparr>tick := Suc (tick w3)\<rparr>) = (no, v1)" by fastforce
    obtain ts v2 where b: "now_rfc3339 sample_host v1 = (ts, v2)" by fastforce
    show thesis
      using that by (simp add: mint_identity_def sample_req_def mintAttestation_def sample_pki_def a b Let_def)
  qed
  have f4: "effects w4 = []" using mint_identity_frame [OF m] os_read_D(3) [OF r] by (simp add: bare_world_def)
  let ?p = "NewEgressProxy (netAllowlist []) (netVerbAllowlist sample_lib []) []"
  let ?w1 = "emit ?ipc ''/a'' (spawn_event ?q ?id) w4"
  obtain b w5 where sn: "snapshotBaseline sample_host ''echo hi'' ?w1 = (Inr b, w5)" "work b = ''/tmp/exec-sandbox-1''"
    by (simp add: snapshotBaseline_def os_mkdir_temp_def seed_def os_write_file_def sys_def Let_def)
  have f5: "audits (effects w5) = [spawn_event ?q ?id]"
    using snapshot_D [OF sn(1)] f4 by (simp add: emit_D opt_event_def)
  let ?s = "\<lparr>i_proxy = SetCredential ''api.x'' \<lparr>Value = secret, Header = ''Authorization'', Scheme = ''Bearer''\<rparr> ?p,
      i_env = NewEnvCredentials, i_secrets = [injected_entry ''handle-123'' ''proxy'']\<rparr>"
  obtain reqs w6 where inj: "inject_all ?ipc ?q ?id identity (\<lparr>i_proxy = ?p, i_env = NewEnvCredentials, i_secrets = []\<rparr>, w5) = (?s, w6)"
    and f6: "effects w6 = effects w5 @ map VaultCall reqs"
  proof -
    obtain x w6 where v: "vaultInject ?ipc ''/v'' ''handle-123'' identity ''proxy'' w5 = (x, w6)" by fastforce
    then have "x = Inr [(''delivery'', JStr ''proxy''), (''credential'', JStr secret), (''binding'', JObj [(''host'', JStr ''api.x'')])]"
      by (auto simp: vaultInject_def ipcCall_def sample_ipc_def Let_def)
    then show thesis
      using v vaultInject_D [OF v] that [of w6]
      by (auto simp: inject_all_def inject_one_def sample_req_def fld_def orDefault_def Let_def str_def)
  qed
  obtain w7 where l: "listen_unix sample_host (proxySock b) 0x180 w6 = (Inr (), w7)"
    by (simp add: listen_unix_def sys_def Let_def)
  have f7: "audits (effects w7) = [spawn_event ?q ?id]" using listen_unix_D [OF l] f6 f5 by simp
  have lm: "parseLimits sample_lib [] = no_limits" by (simp add: parseLimits_def fld_def)
  have caps: "fileReadPaths [] = []" by (simp add: fileReadPaths_def capabilities_def fld_def)
  have adm: "run_admitted sample_lib sample_embedded ?ipc ?q ?id identity no_limits [] [] sample_host w4 =
      run_served sample_lib sample_embedded ?ipc ?q ?id no_limits [] [] b
        (?s\<lparr>i_proxy := (i_proxy ?s)\<lparr>serving := Some (proxySock b)\<rparr>\<rparr>) sample_host w7"
    using sn inj l by (simp add: run_admitted_def sample_req_def Start_def Let_def)
  have run: "Run sample_lib sample_pki sample_embedded ?ipc ?q sample_host bare_world =
      run_served sample_lib sample_embedded ?ipc ?q ?id no_limits [] [] b
        (?s\<lparr>i_proxy := (i_proxy ?s)\<lparr>serving := Some (proxySock b)\<rparr>\<rparr>) sample_host w7"
    using v1 r m adm by (simp add: Run_def lm caps sample_req_def Let_def)
  show thesis
    by (rule that [OF run sn(2) f7]) simp_all
qed

lemma run_served_parts:
  assumes "run_served g emb ipc q sandboxID lm workdir fileReads b s h w = (x, w')"
    and "(case backendFor g emb (q_tier q) of Inl e \<Rightarrow> (run_error e, w)
      | Inr Argv \<Rightarrow> run_tier Argv ipc q sandboxID lm workdir fileReads b s h w) = (res, w1)"
    and "serving (i_proxy s) = Some sock"
  shows "x_result x = res \<and> x_base x = Some b \<and> effects w' = effects w1 @ [Unlisten sock]"
proof -
  have st: "Stop (i_proxy s) w1 = ((i_proxy s)\<lparr>serving := None\<rparr>, unlisten sock w1)"
    using assms(3) by (simp add: Stop_def)
  obtain p2 w3 where td: "teardown h b (Wipe ((i_proxy s)\<lparr>serving := None\<rparr>)) (unlisten sock w1) = (p2, w3)" by fastforce
  have "x = \<lparr>x_result = res, x_proxy = p2, x_env = env_Wipe (i_env s), x_base = Some b\<rparr> \<and> w' = w3"
    using assms(1) st td unfolding run_served_def assms(2) Let_def by (simp del: Wipe_simps)
  then show ?thesis using teardown_D [OF td] by simp
qed

lemma sample_runs:
  obtains x w' where "Run sample_lib sample_pki sample_embedded (sample_ipc secret) (sample_req ''bubblewrap'') sample_host bare_world = (x, w')"
    and "fld (x_result x) ''stdout'' = JStr ''hi''" and "fld (x_result x) ''exit_code'' = JInt 0"
    and "x_base x \<noteq> None"
proof -
  let ?q = "sample_req ''bubblewrap''"
  obtain hex b s v where run: "Run sample_lib sample_pki sample_embedded (sample_ipc secret) ?q sample_host bare_world =
      run_served sample_lib sample_embedded (sample_ipc secret) ?q (''sbx-'' @ hex) no_limits [] [] b s sample_host v"
    and sv: "serving (i_proxy s) = Some (proxySock b)"
    by (rule sample_serves)
  obtain p w1 where a: "bubblewrap_Argv sample_lib sample_embedded sample_host (scriptPath b) (proxySock b) [] [] (q_env ?q)
      (pairs (i_env s)) no_limits v = (Inr p, w1)"
    using sample_prepares [of no_limits] by blast
  obtain w2 where c: "run_child (sample_ipc secret) ?q (''sbx-'' @ hex) no_limits (i_secrets s) sample_host p w1 =
      (run_result ?q (''sbx-'' @ hex) no_limits (i_secrets s) (map d_cap (p_degrades p))
        \<lparr>c_stdout = [''hi''], c_stderr = [], c_exit = Inr 0, c_deadline = False, c_ms = 5,
         c_fs = fs (log_eff (Spawn (p_argv p)) (announce (p_degrades p) w1))\<rparr>, w2)"
    by (simp add: run_child_def sample_host_def Let_def split_def)
  have "p_cleanup p = None" using bubblewrap_Argv_effects [OF a] by simp
  with a c have t: "run_tier (bubblewrap_Argv sample_lib sample_embedded) (sample_ipc secret) ?q (''sbx-'' @ hex) no_limits [] [] b s sample_host v =
      (run_result ?q (''sbx-'' @ hex) no_limits (i_secrets s) (map d_cap (p_degrades p))
        \<lparr>c_stdout = [''hi''], c_stderr = [], c_exit = Inr 0, c_deadline = False, c_ms = 5,
         c_fs = fs (log_eff (Spawn (p_argv p)) (announce (p_degrades p) w1))\<rparr>, w2)"
    by (simp add: run_tier_def)
  have bf: "backendFor sample_lib sample_embedded (q_tier ?q) = Inr (bubblewrap_Argv sample_lib sample_embedded)"
    by (simp add: backendFor_def sample_req_def)
  obtain x w' where x: "Run sample_lib sample_pki sample_embedded (sample_ipc secret) ?q sample_host bare_world = (x, w')" by fastforce
  have parts: "x_result x = run_result ?q (''sbx-'' @ hex) no_limits (i_secrets s) (map d_cap (p_degrades p))
        \<lparr>c_stdout = [''hi''], c_stderr = [], c_exit = Inr 0, c_deadline = False, c_ms = 5,
         c_fs = fs (log_eff (Spawn (p_argv p)) (announce (p_degrades p) w1))\<rparr>" "x_base x = Some b"
    using run_served_parts [OF x [unfolded run] _ sv] unfolding bf sum.case t by blast+
  show thesis
    by (rule that [OF x])
      (simp_all add: parts run_result_def captured_def exit_status_def fld_def no_limits_def newCapWriter_def cap_write_def Let_def)
qed

lemma run_result_schema_witness:
  "\<exists>x w'. Run sample_lib sample_pki sample_embedded (sample_ipc ''s3cret'') (sample_req ''bubblewrap'') sample_host bare_world = (x, w') \<and>
    fld (x_result x) ''stdout'' = JStr ''hi'' \<and>
    map fst (x_result x) = [''stdout'', ''stderr'', ''exit_code'', ''sandbox_status'']"
proof -
  obtain x w' where x: "Run sample_lib sample_pki sample_embedded (sample_ipc ''s3cret'') (sample_req ''bubblewrap'') sample_host bare_world = (x, w')"
    "fld (x_result x) ''stdout'' = JStr ''hi''" by (rule sample_runs)
  have "map fst (x_result x) = [''stdout'', ''stderr'', ''exit_code'', ''sandbox_status'']"
    using run_result_schema [OF x(1)]
  proof
    assume "\<exists>e. x_result x = [(''error'', JStr e)]"
    with x(2) show ?thesis by (auto simp: fld_def)
  qed (elim exE conjE, simp only: list.map fst_conv)
  with x show ?thesis by (intro exI conjI)
qed



lemma run_blind_to_proxy_secrets_witness:
  "Run sample_lib sample_pki sample_embedded (sample_ipc ''hunter2'') (sample_req ''bubblewrap'') sample_host bare_world =
   Run sample_lib sample_pki sample_embedded (sample_ipc ''s3cret'') (sample_req ''bubblewrap'') sample_host bare_world"
  by (rule run_blind_to_proxy_secrets) (simp add: same_but_secret_def sample_ipc_def fld_def)

end
