(* ===== verification/Confinement.thy ===== *)
theory Confinement
  imports Runner
begin

text \<open>
  The composition of run.go with its backends: whatever process a run starts, the command line it is
  started with takes the network away before the payload runs, on every tier, and what \<open>Run\<close> reports
  is the behaviour of exactly that process. The contract of a backend is extended accordingly to the
  locale \<open>offline_backend\<close>, which the three backends interpret.
\<close>

section \<open>Command lines without network\<close>

text \<open>What \<open>exec.LookPath\<close> and \<open>os.Executable\<close> return: no path begins with a dash, the latter is absolute.\<close>

definition sane_host :: "host \<Rightarrow> bool" where
  "sane_host h \<longleftrightarrow> (\<forall>b q. h_lookpath h b = Inr q \<longrightarrow> \<not> prefix ''-'' q) \<and> (\<forall>self. h_exe h = Inr self \<longrightarrow> is_abs self)"

definition affinity :: "string list \<Rightarrow> bool" where
  "affinity pre \<longleftrightarrow> pre = [] \<or> (\<exists>n. pre = [''taskset'', ''-c'', ''0-'' @ n])"

text \<open>
  bubblewrap, possibly behind taskset, with options that unshare everything and never share the network
  again, the options read from inherited descriptors included; or runsc with \<open>--network=none\<close>.
\<close>

definition bwrap_offline :: "string list \<Rightarrow> bytes list \<Rightarrow> bool" where
  "bwrap_offline argv files \<longleftrightarrow> (\<exists>pre args opts inner acted. argv = pre @ ''bwrap'' # args \<and> affinity pre \<and>
     parse_opts args = Some (opts, inner) \<and> eff files opts = Some acted \<and> UnshareAll \<in> set acted \<and> ShareNet \<notin> set acted)"

definition runsc_offline :: "string list \<Rightarrow> bool" where
  "runsc_offline argv \<longleftrightarrow> (\<exists>pre flags bndl cid. argv = pre @ [''runsc'', ''--network=none''] @ flags @ [''run'', ''--bundle'', bndl, cid] \<and>
     affinity pre \<and> set flags \<subseteq> {''--host-uds=open'', ''--ignore-cgroups'', ''--rootless''})"

definition network_free :: "string list \<Rightarrow> bytes list \<Rightarrow> bool" where
  "network_free argv files \<longleftrightarrow> bwrap_offline argv files \<or> runsc_offline argv"

lemma bwrap_offlineI:
  assumes "argv = pre @ ''bwrap'' # args" and "affinity pre" and "parse_opts args = Some (opts, inner)"
    and "eff files opts = Some acted" and "UnshareAll \<in> set acted" and "ShareNet \<notin> set acted"
  shows "network_free argv files"
  unfolding network_free_def bwrap_offline_def using assms by (intro disjI1 exI conjI)

lemma affinity_add: "affinity (fst (add_affinity h n [] []))"
  by (auto simp: affinity_def add_affinity_def cpuAffinityPrefix_def split: if_splits sum.splits)

lemma add_affinity_append: "fst (add_affinity h c xs ds) = fst (add_affinity h c [] []) @ xs"
  by (auto simp: add_affinity_def split: prod.splits option.splits)

section \<open>The three backends\<close>

lemma bubblewrap_offline:
  assumes "bubblewrap_Argv g emb h scr sock workdir fileReads env envCreds lm w = (Inr p, w')"
    and "sane_host h" and "no_nul env" and "no_nul envCreds"
  shows "network_free (p_argv p) (p_files p)"
proof -
  from assms(1) obtain pre inner files fd dirs disk where
    argv: "p_argv p = pre @ ''bwrap'' # concat (map render (head_opts scr sock disk 3 @
       (if fd \<ge> 0 then [ArgsFD (itoa fd)] else ClearEnv # setenv_opts (envSetenvPairs env)) @
       tail_opts dirs fileReads workdir)) @ inner"
    and inner: "prlimitWrap h lm [''/usr/bin/sh'', ''/payload.sh''] = Inr inner"
    and files: "p_files p = files"
      "(files, fd) = (if envCreds = [] then ([tier1SeccompBlob emb], - 1)
       else ([tier1SeccompBlob emb, join NUL (env_pipe_args env envCreds) @ NUL], 4))"
    and pre: "fst (add_affinity h (CPUCount lm) [] []) = pre"
    by (rule bubblewrap_Argv_D)
  have "is_cmd inner"
    using assms(2) by (intro prlimitWrap_is_cmd [OF inner]) (simp_all add: is_cmd_def sane_host_def)
  note parsed = parse_opts_renders [OF this]
  have n: "envCreds = [] \<or> no_nul env \<and> no_nul envCreds" using assms(3,4) by simp
  have acted: "eff (p_files p) (head_opts scr sock disk 3 @
       (if fd \<ge> 0 then [ArgsFD (itoa fd)] else ClearEnv # setenv_opts (envSetenvPairs env)) @
       tail_opts dirs fileReads workdir) = Some (all_opts scr sock disk env envCreds dirs fileReads workdir)"
    using eff_argv [OF n files(2)] files(1) by (simp add: all_opts_def)
  have "affinity pre" using affinity_add [of h "CPUCount lm"] pre by simp
  from bwrap_offlineI [OF argv this parsed acted all_opts_confine(1,4)] show ?thesis .
qed

lemma gvisor_offline:
  assumes "gvisor_Argv g h scr sock workdir fileReads env envCreds lm w = (Inr p, w')"
  shows "network_free (p_argv p) (p_files p)"
proof -
  from assms obtain bndl cid ds ds' where
    "add_affinity h (CPUCount lm) ([''runsc'', ''--network=none'', ''--host-uds=open'', ''--ignore-cgroups''] @
       (if h_euid h \<noteq> 0 then [''--rootless''] else []) @ [''run'', ''--bundle'', bndl, ''sbx-'' @ cid]) ds = (p_argv p, ds')"
    by (auto simp: gvisor_Argv_def Let_def split: sum.splits prod.splits)
  then have "p_argv p = fst (add_affinity h (CPUCount lm) ([''runsc'', ''--network=none'', ''--host-uds=open'', ''--ignore-cgroups''] @
       (if h_euid h \<noteq> 0 then [''--rootless''] else []) @ [''run'', ''--bundle'', bndl, ''sbx-'' @ cid]) ds)" by simp
  then have argv: "p_argv p = fst (add_affinity h (CPUCount lm) [] []) @ [''runsc'', ''--network=none''] @
      ([''--host-uds=open'', ''--ignore-cgroups''] @ (if h_euid h \<noteq> 0 then [''--rootless''] else [])) @
      [''run'', ''--bundle'', bndl, ''sbx-'' @ cid]"
    unfolding add_affinity_append [of _ _ "_ @ _"] by simp
  have flags: "set ([''--host-uds=open'', ''--ignore-cgroups''] @ (if h_euid h \<noteq> 0 then [''--rootless''] else []))
      \<subseteq> {''--host-uds=open'', ''--ignore-cgroups'', ''--rootless''}"
    by (cases "h_euid h = 0") simp_all
  show ?thesis
    unfolding network_free_def runsc_offline_def by (intro disjI2 exI conjI, rule argv, rule affinity_add, rule flags)
qed

lemma firecracker_offline:
  assumes "firecracker_Argv g h scr sock workdir fileReads env envCreds lm w = (Inr p, w')" and "sane_host h"
  shows "network_free (p_argv p) (p_files p)"
proof -
  from assms(1) obtain bndl art w5 where ar: "firecrackerArgv h bndl art lm w5 = (Inr (p_argv p), w')" and files: "p_files p = []"
    by (rule firecracker_Argv_D)
  from ar obtain self fcBin dirs path where ok: "h_exe h = Inr self"
      "p_argv p = ''bwrap'' # concat (map render (fc_opts self fcBin art bndl dirs path)) @ [self, ''fc-launch'', bndl]"
    by (rule firecrackerArgv_render)
  have "is_cmd [self, ''fc-launch'', bndl]"
    using assms(2) ok(1) by (cases self) (auto simp: is_cmd_def is_abs_def sane_host_def)
  note parsed = parse_opts_renders [OF this]
  have "eff [] (fc_opts self fcBin art bndl dirs path) = Some (fc_opts self fcBin art bndl dirs path)"
    by (rule eff_plain) (auto simp: fc_opts_def list_all_iff plain_opt_def)
  then show ?thesis
    unfolding files by (intro bwrap_offlineI [of _ "[]", OF _ _ parsed _ fc_opts_sets(1,5)]) (simp_all add: ok(2) affinity_def)
qed

text \<open>The contract of a backend that starts nothing with a network.\<close>

locale offline_backend = tier_backend Argv for Argv :: backend_argv +
  assumes offline: "Argv h scr sock workdir fileReads env envCreds lm w = (Inr p, w') \<Longrightarrow>
    sane_host h \<Longrightarrow> no_nul env \<Longrightarrow> no_nul envCreds \<Longrightarrow> network_free (p_argv p) (p_files p)"

interpretation off1: offline_backend "bubblewrap_Argv g emb" for g emb
  by unfold_locales (rule bubblewrap_offline)

interpretation off2: offline_backend "gvisor_Argv g" for g
  by unfold_locales (rule gvisor_offline)

interpretation off3: offline_backend "firecracker_Argv g" for g
  by unfold_locales (rule firecracker_offline)

lemma backendFor_offline: "backendFor g emb tier = Inr Argv \<Longrightarrow> offline_backend Argv"
  by (auto simp: backendFor_def off1.offline_backend_axioms off2.offline_backend_axioms off3.offline_backend_axioms
      split: if_splits)

section \<open>What the vault puts into the environment\<close>

text \<open>A vault whose answers have no NUL byte in what becomes an environment variable.\<close>

definition nul_free_vault :: "ipc \<Rightarrow> bool" where
  "nul_free_vault ipc \<longleftrightarrow> (\<forall>t sk r m. ipc t sk r = Inr m \<longrightarrow>
     CHR 0x00 \<notin> set (str (fld m ''var_name'')) \<and> CHR 0x00 \<notin> set (str (fld m ''credential'')))"

lemma no_nul_pairs: "no_nul (pairs e) \<longleftrightarrow> (\<forall>k v. env_look e k = Some v \<longrightarrow> CHR 0x00 \<notin> set k \<and> CHR 0x00 \<notin> set v)"
  by (auto simp: no_nul_def list_all_iff set_pairs)

lemma no_nul_env_Set:
  "no_nul (pairs e) \<Longrightarrow> CHR 0x00 \<notin> set k \<Longrightarrow> CHR 0x00 \<notin> set v \<Longrightarrow> no_nul (pairs (env_Set k v e))"
  by (auto simp: no_nul_pairs envs.look_put)

lemma vaultInject_nul_free:
  assumes "vaultInject ipc sk hdl identity mode w = (Inr m, w')" and "nul_free_vault ipc"
  shows "CHR 0x00 \<notin> set (str (fld m ''var_name'')) \<and> CHR 0x00 \<notin> set (str (fld m ''credential''))"
proof (cases "sk = []")
  case True
  with assms(1) show ?thesis by (auto simp: vaultInject_def ipcCall_def Let_def fld_def str_def)
next
  case False
  with assms(1) have "\<exists>r. ipc (tick w) sk r = Inr m" by (auto simp: vaultInject_def ipcCall_def Let_def)
  with assms(2) show ?thesis unfolding nul_free_vault_def by blast
qed

lemma inject_one_nul_free:
  assumes "nul_free_vault ipc" and "no_nul (pairs (i_env s))"
  shows "no_nul (pairs (i_env (fst (inject_one ipc q sandboxID identity hdl (s, w)))))"
proof -
  obtain r w1 where v: "vaultInject ipc (w_vaultSocket q) hdl identity (w_injectionMode q) w = (r, w1)" by fastforce
  show ?thesis
  proof (cases r)
    case (Inl e)
    with v assms(2) show ?thesis by (simp add: inject_one_def)
  next
    case (Inr m)
    from vaultInject_nul_free [OF v [unfolded Inr] assms(1)] no_nul_env_Set [OF assms(2)] assms(2) show ?thesis
      by (simp add: inject_one_def v Inr Let_def)
  qed
qed

lemma inject_all_nul_free:
  assumes "nul_free_vault ipc" and "no_nul (pairs (i_env s))"
  shows "no_nul (pairs (i_env (fst (fold (inject_one ipc q sandboxID identity) hs (s, w)))))"
  using assms(2)
proof (induction hs arbitrary: s w)
  case (Cons hdl hs)
  obtain s1 w1 where one: "inject_one ipc q sandboxID identity hdl (s, w) = (s1, w1)" by fastforce
  with inject_one_nul_free [OF assms(1) Cons.prems, of q sandboxID identity hdl w] Cons.IH [of s1 w1] show ?case by simp
qed simp

section \<open>Runs\<close>

text \<open>
  What a run may have started: nothing, or one process whose command line and inherited descriptors
  leave it without network, and then the result reports that process.
\<close>

definition confined_run :: "RunRequest \<Rightarrow> string \<Rightarrow> limits \<Rightarrow> host \<Rightarrow> json amap \<Rightarrow> string list list \<Rightarrow> bool" where
  "confined_run q sandboxID lm h res sp \<longleftrightarrow> sp = [] \<or>
     (\<exists>argv fds u secrets degraded. sp = [argv] \<and> network_free argv fds \<and>
        res = run_result q sandboxID lm secrets degraded (h_child h (tick u) argv fds u))"

context offline_backend
begin

lemma run_tier_confined:
  assumes "run_tier Argv ipc q sandboxID lm wd reads b s h w = (res, w')"
    and "sane_host h" and "no_nul (q_env q)" and "no_nul (pairs (i_env s))"
  shows "\<exists>es. effects w' = effects w @ es \<and> confined_run q sandboxID lm h res (spawned es)"
proof -
  obtain r w1 where a: "Argv h (scriptPath b) (proxySock b) wd reads (q_env q) (pairs (i_env s)) lm w = (r, w1)"
    by fastforce
  from prepares [OF a] obtain es where es: "effects w1 = effects w @ es" "list_all internal es"
    and r: "case r of Inl e \<Rightarrow> balanced es
       | Inr p \<Rightarrow> p_argv p \<noteq> [] \<and>
           (case p_cleanup p of None \<Rightarrow> balanced es
            | Some c \<Rightarrow> \<forall>v. \<exists>es'. effects (c h v) = effects v @ es' \<and> list_all internal es' \<and> balanced (es @ es'))" by blast
  show ?thesis
  proof (cases r)
    case (Inl e)
    with assms(1) a es(1) internal_trail [OF es(2)] show ?thesis
      by (intro exI [of _ es]) (simp add: run_tier_def confined_run_def)
  next
    case (Inr p)
    let ?u = "log_eff (Spawn (p_argv p)) (announce (p_degrades p) w1)"
    obtain res2 w2 where c: "run_child ipc q sandboxID lm (i_secrets s) h p w1 = (res2, w2)" by fastforce
    then have res2: "res2 = run_result q sandboxID lm (i_secrets s) (map d_cap (p_degrades p))
        (h_child h (tick ?u) (p_argv p) (p_files p) ?u)"
      by (auto simp: run_child_def Let_def split: prod.splits)
    have out: "res = res2" "w' = (case p_cleanup p of None \<Rightarrow> w2 | Some c \<Rightarrow> c h w2)"
      using assms(1) a Inr c by (simp_all add: run_tier_def)
    from run_child_D [OF c] obtain cs where cs: "effects w2 = effects w1 @ cs" "spawned cs = [p_argv p]" by blast
    obtain es' where e': "effects w' = effects w2 @ es'" "spawned es' = []"
      using r Inr out internal_trail that by (cases "p_cleanup p") fastforce+
    have "network_free (p_argv p) (p_files p)" by (rule offline [OF a [unfolded Inr] assms(2,3,4)])
    then have "confined_run q sandboxID lm h res (spawned (es @ cs @ es'))"
      using internal_trail [OF es(2)] cs(2) e'(2) unfolding confined_run_def out(1) res2 by auto
    then show ?thesis using es(1) cs(1) e'(1) by (intro exI [of _ "es @ cs @ es'"]) simp
  qed
qed

end

lemma Stop_spawns_nothing: "Stop p w = (p', w') \<Longrightarrow> \<exists>es. effects w' = effects w @ es \<and> spawned es = []"
  by (auto simp: Stop_def split: option.splits)

lemma run_served_confined:
  assumes "run_served g emb ipc q sandboxID lm wd reads b s h w = (x, w')"
    and "sane_host h" and "no_nul (q_env q)" and "no_nul (pairs (i_env s))"
  shows "\<exists>es. effects w' = effects w @ es \<and> confined_run q sandboxID lm h (x_result x) (spawned es)"
proof -
  obtain res w1 where t: "(case backendFor g emb (q_tier q) of Inl e \<Rightarrow> (run_error e, w)
      | Inr Argv \<Rightarrow> run_tier Argv ipc q sandboxID lm wd reads b s h w) = (res, w1)" by fastforce
  obtain es where es: "effects w1 = effects w @ es" "confined_run q sandboxID lm h res (spawned es)"
  proof (cases "backendFor g emb (q_tier q)")
    case (Inl e)
    with t that [of "[]"] show thesis by (simp add: confined_run_def)
  next
    case (Inr Argv)
    with t have "run_tier Argv ipc q sandboxID lm wd reads b s h w = (res, w1)" by simp
    from offline_backend.run_tier_confined [OF backendFor_offline [OF Inr] this assms(2,3,4)] that show thesis by blast
  qed
  obtain p1 w2 where st: "Stop (i_proxy s) w1 = (p1, w2)" by fastforce
  from Stop_spawns_nothing [OF st] obtain es2 where e2: "effects w2 = effects w1 @ es2" "spawned es2 = []" by blast
  obtain p2 w3 where td: "teardown h b (Wipe p1) w2 = (p2, w3)" by fastforce
  have "x_result x = res \<and> w' = w3"
    using assms(1) st td unfolding run_served_def t Let_def by (auto simp del: Wipe_simps)
  then show ?thesis
    using es e2 teardown_D [OF td] by (intro exI [of _ "es @ es2"]) simp
qed

lemma run_admitted_confined:
  assumes "run_admitted g emb ipc q sandboxID identity lm wd reads h w = (x, w')"
    and "sane_host h" and "no_nul (q_env q)" and "nul_free_vault ipc"
  shows "\<exists>es. effects w' = effects w @ es \<and> confined_run q sandboxID lm h (x_result x) (spawned es)"
proof -
  let ?sp = "map Audit (opt_event (w_auditSocket q) (spawn_event q sandboxID))"
  let ?w1 = "emit ipc (w_auditSocket q) (spawn_event q sandboxID) w"
  let ?p = "NewEgressProxy (netAllowlist (as_obj (q_profile q))) (netVerbAllowlist g (as_obj (q_profile q))) (w_originMap q)"
  let ?s = "\<lparr>i_proxy = ?p, i_env = NewEnvCredentials, i_secrets = []\<rparr>"
  obtain r w2 where sn: "snapshotBaseline h (q_payload q) ?w1 = (r, w2)" by fastforce
  have e2: "effects w2 = effects w @ ?sp" using snapshot_D [OF sn] by (simp add: emit_D)
  show ?thesis
  proof (cases r)
    case (Inl e)
    then have "w' = w2" using assms(1) by (simp add: run_admitted_def sn Let_def)
    with e2 show ?thesis by (intro exI [of _ ?sp]) (simp add: confined_run_def)
  next
    case (Inr b)
    obtain s w3 where inj: "inject_all ipc q sandboxID identity (?s, w2) = (s, w3)" by fastforce
    from inject_all_D [OF inj [unfolded inject_all_def]] obtain ies where
      i: "effects w3 = effects w2 @ ies" "spawned ies = []" by blast
    have "no_nul (pairs (i_env ?s))" by (simp add: no_nul_pairs env_look_def NewEnvCredentials_def)
    from inject_all_nul_free [OF assms(4) this, of q sandboxID identity "q_secretRefs q" w2]
    have nn: "no_nul (pairs (i_env s))" using inj by (simp add: inject_all_def)
    obtain r3 p3 w4 where st: "Start h (proxySock b) (i_proxy s) w3 = (r3, p3, w4)" by (metis prod.collapse)
    note S = Start_D [OF st]
    show ?thesis
    proof (cases r3)
      case (Inl e)
      let ?ev = "map Audit (opt_event (w_auditSocket q) (start_failed q sandboxID e))"
      obtain p' w6 where td: "teardown h b p3 (emit ipc (w_auditSocket q) (start_failed q sandboxID e) w4) = (p', w6)" by fastforce
      have "w' = w6" using assms(1) by (simp add: run_admitted_def sn Inr inj st Inl td Let_def)
      then have "effects w' = effects w @ (?sp @ ies @ ?ev)" using teardown_D [OF td] S Inl i(1) e2 by (simp add: emit_D)
      then show ?thesis using i(2) by (intro exI [of _ "?sp @ ies @ ?ev"]) (simp add: confined_run_def)
    next
      case r3: (Inr u)
      then have "run_served g emb ipc q sandboxID lm wd reads b (s\<lparr>i_proxy := p3\<rparr>) h w4 = (x, w')"
        using assms(1) by (simp add: run_admitted_def sn Inr inj st Let_def)
      from run_served_confined [OF this assms(2,3)] nn obtain es where
        "effects w' = effects w4 @ es" "confined_run q sandboxID lm h (x_result x) (spawned es)" by auto
      then show ?thesis using i e2 S r3 by (intro exI [of _ "?sp @ ies @ [Listen (proxySock b)] @ es"]) simp
    qed
  qed
qed



end
