(* ===== verification/Spec2Isabelle.thy ===== *)
theory Spec2Isabelle
  imports Confinement
begin

text \<open>
  exec-sandbox runs an untrusted shell payload in a sandbox without network. One invocation of
  \<open>exec-sandbox run\<close> (main.go, run.go) reads a request, validates it, mints a sandbox identity, asks the
  vault for the credentials behind the request's handles, starts an egress proxy on a Unix socket in
  a fresh work directory, lets one of three backends build the command line that starts the payload,
  runs it under output and time caps, reports, and removes everything again. The proxy is the payload's
  only way out; it holds the proxy-mode credentials and injects them into permitted requests.

  \<^bold>\<open>How the program is represented.\<close> A Go string or byte slice is a list of 256-valued characters, a
  (value, error) pair the sum \<open>'a res\<close>, a map an association list, a JSON value the datatype \<open>json\<close>. Code
  that touches the host takes a \<open>host\<close> and a \<open>world\<close> (file system, system-call counter, log of external
  effects) and returns the new world (theory World). Every system call may fail at every point
  (\<open>h_fault\<close>), so error paths and the clean-ups on them are part of each definition. int and int64
  arithmetic wraps (\<open>wrap64\<close>) wherever the code can overflow.

  \<^bold>\<open>Theories, in the order of import.\<close>

    \<^item> Prelude, Go_Lib, Go_Text, Go_Json: the shared types and lemmas and what the program uses of Go's
      standard library (integers, hex, strings, path/filepath, net, encoding/json). What the library
      computes and the program never looks into (SHA-256, Ed25519, \<open>%q\<close>, float formatting) is a field of
      the record \<open>golib\<close>.
    \<^item> World: the host and its calls.
    \<^item> Resource_Limits (limits.go, the report of run.go), Profile (the scans and validations of run.go).
    \<^item> Creds (envcreds.go) and Proxy (proxy.go): two holders of credentials; their common interface is the
      locale \<open>cred_store\<close>, extended by \<open>listed_store\<close>. \<open>handle\<close> is the proxy's request handler.
    \<^item> Snapshot (snapshot.go): the work directory, its restoration and teardown.
    \<^item> Attestation (attestation.go) and Keygen (keygen.go): identities, keys, trust roots, subcommands.
    \<^item> Pins (seccomp.go, fcartifacts.go): artifacts accepted only when their digest is the pinned one.
    \<^item> Vsock (vsockbridge.go, vsockshim.go, guest/rootfs/shim/main.go): relay servers whose goroutines
      interleave, the step relation \<open>rstep\<close>, proved once in the locale \<open>relay_server\<close>; the byte pump as
      a fold over a schedule; the guest's AF_VSOCK dial.
    \<^item> Backend (the tier seam of run.go): what \<open>Argv\<close> returns, and the contract \<open>tier_backend\<close> between
      \<open>Run\<close> and a backend. Bwrap (run.go), Gvisor (gvisor.go) and Firecracker (firecracker.go) define the
      three backends and interpret the locale as \<open>tier1\<close>, \<open>tier2\<close> and \<open>tier3\<close>.
    \<^item> FcLaunch (fclaunch.go): the launcher the Tier-3 command line starts inside its sandbox.
    \<^item> Runner (run.go, main.go): \<open>Run\<close> in stages (\<open>mint_identity\<close>, \<open>run_admitted\<close>, \<open>inject_all\<close>,
      \<open>run_served\<close>, \<open>run_tier\<close>, \<open>run_child\<close>) and the dispatch on the subcommand, \<open>go_main\<close>.
    \<^item> Confinement: the composition of \<open>Run\<close> with the confinement of the three backends, through the
      locale \<open>offline_backend\<close>, which extends \<open>tier_backend\<close>.

  \<^bold>\<open>What is shown.\<close>

    \<^item> Whole runs (Confinement, Runner): whatever a run starts has no network, on every tier; the result
      always has its schema; nothing is left behind on any path; which audit events are sent, in which
      order, and that the payload is started at most once; two runs that differ only in the values of
      proxy-mode credentials are the same run.
    \<^item> Confinement (Bwrap, Gvisor, Firecracker): how the tool named first in the spawn vector reads the
      rest of it (bubblewrap's option list, runsc's OCI specification, firecracker's configuration), and
      that it unshares the network, binds nothing writable but the proxy socket and the workdir, and takes
      environment values off the command line.
    \<^item> Egress (Proxy, Profile): the handler permits exactly what the profile's NetConnect capabilities
      say, and a request carries only its own host's credential.
    \<^item> Identities (Attestation, Keygen): preimages commit to their fields, minted identities verify,
      verification is sound for unforgeable keys, loaders fail closed, keygen overwrites nothing.
    \<^item> The microVM channel (Vsock, FcLaunch): relays are transparent and reclaim their connections; the
      launcher boots the machine the backend prepared, returns, and never reports a success it did not see.
    \<^item> Limits and capture (Resource_Limits), reset (Snapshot), pins (Pins).

  Some properties state what the code does where that is not what it means to do: a NUL byte in run.env
  adds bubblewrap options (Bwrap), a FileRead mapping is off by one device when there is no workdir and the
  reaper matches a prefix of another run's bundle (Firecracker), three error paths end without a
  terminal audit event (Runner), a huge timeout wraps (Resource_Limits).

  \<^bold>\<open>Fuel and bounds.\<close> Three loops carry fuel. The trust-root loop of Attestation has one unit per byte
  of the file; a decoder that consumes input ends before that. The polling loop of FcLaunch has
  \<open>poll_fuel\<close> units, two more than the deadline holds sleeps of 10 ms, and is shown to return
  always. \<open>copyTree\<close> has one unit per byte of PATH_MAX (4096), since each level makes the
  destination longer and the kernel refuses longer paths, with the same error.

  \<^bold>\<open>Not modelled.\<close>

    \<^item> bubblewrap, runsc, firecracker, mkfs.ext4, debugfs and the payload are parameters: the child is
      \<open>h_child\<close>, any function of its argv, inherited files and world. An ext4 image is an opaque file.
      The HTTP server and transport around \<open>handle\<close>, and that it may serve several requests at once while
      \<open>Run\<close> waits, are outside; \<open>handle\<close> only reads the proxy's state.
    \<^item> Decoding of JSON input is an argument (\<open>unmarshal\<close>), encoding is modelled. File descriptors are
      the bytes a reader gets; their leaks are not. The kernel's path resolution (symbolic links) and the
      process's umask are not modelled. A panic of crypto/rand is not.
    \<^item> The goroutine that filters the console in fclaunch.go is run to its end on \<open>fc_console\<close>, what
      could be read before the pipe was closed.
    \<^item> The guest's init script, the C generator of the seccomp program, build scripts and tests.
\<close>

end
